(* ===== verification/Prelude.thy ===== *)
theory Prelude
  imports Main "HOL-Library.Word" "HOL-Library.Signed_Division"
begin

text \<open>
  Shared material of the development: the names of Go's machine types, the collections of
  rewrite rules the component theories feed, and generic lemmas on signed 64-bit words, lists
  and sums.

  Go's \<open>int\<close>, \<open>int64\<close>, \<open>uint\<close> and \<open>uint64\<close> are all 64 bits wide on the platforms the
  repository releases for (amd64 and arm64). Where a value can overflow, it is a
  \<^typ>\<open>64 word\<close>: \<open>+\<close>, \<open>-\<close> and \<open>*\<close> wrap around as in Go, \<open>sint\<close> reads the word as
  Go's \<open>int\<close> and \<open>unat\<close> as Go's \<open>uint\<close>. Go strings are byte strings, and so are Isabelle's
  \<^typ>\<open>string\<close>s, whose characters have eight bits.
\<close>

section \<open>Types\<close>

type_synonym go_int = "64 word"
type_synonym go_uint = "64 word"

text \<open>An instant, in nanoseconds since the Unix epoch, and a duration in nanoseconds.\<close>

type_synonym gotime = int
type_synonym duration = int

definition second :: duration where "second = 1000000000"

section \<open>Collections\<close>

named_theorems std_defs \<open>definitions of the standard library functions the code uses\<close>
named_theorems err_simps \<open>how errors.Is, errors.As and the statuses see the error values\<close>
named_theorems http_defs \<open>definitions of contexts, envelopes and handlers\<close>
named_theorems repo_defs \<open>definitions of the repository operations\<close>

section \<open>Signed 64-bit words\<close>

lemma sint64_lower: "- (2 ^ 63) \<le> sint (w :: 64 word)"
  using sint_ge [of w] by simp

lemma sint64_upper: "sint (w :: 64 word) < 2 ^ 63"
  using sint_lt [of w] by simp

lemma sint64_of_int:
  assumes "- (2 ^ 63) \<le> x" and "x < 2 ^ 63"
  shows "sint (word_of_int x :: 64 word) = x"
  using assms by (simp add: sint_sbintrunc' signed_take_bit_int_eq_self)

lemma sint64_add:
  fixes a b :: "64 word"
  assumes "- (2 ^ 63) \<le> sint a + sint b" and "sint a + sint b < 2 ^ 63"
  shows "sint (a + b) = sint a + sint b"
proof -
  have "a + b = word_of_int (sint a + sint b)" by simp
  then show ?thesis using sint64_of_int [OF assms] by simp
qed

lemma sint64_sub:
  fixes a b :: "64 word"
  assumes "- (2 ^ 63) \<le> sint a - sint b" and "sint a - sint b < 2 ^ 63"
  shows "sint (a - b) = sint a - sint b"
proof -
  have "a - b = word_of_int (sint a - sint b)" by simp
  then show ?thesis using sint64_of_int [OF assms] by simp
qed

lemma sint64_mult:
  fixes a b :: "64 word"
  assumes "- (2 ^ 63) \<le> sint a * sint b" and "sint a * sint b < 2 ^ 63"
  shows "sint (a * b) = sint a * sint b"
proof -
  have "a * b = word_of_int (sint a * sint b)" by simp
  then show ?thesis using sint64_of_int [OF assms] by simp
qed

lemma unat64_less: "unat (w :: 64 word) < 2 ^ 64"
  using unsigned_less [where ?'a = nat, of w] by simp

lemma sint64_eq_unat:
  fixes w :: "64 word"
  assumes "unat w < 2 ^ 63"
  shows "sint w = int (unat w)"
proof -
  have less: "int (unat w) < 2 ^ 63"
    using assms by (simp only: of_nat_less_numeral_power_cancel_iff)
  have lower: "- (2 ^ 63) \<le> int (unat w)"
    by (rule order_trans [of _ 0]) simp_all
  from sint64_of_int [OF lower less] show ?thesis by simp
qed

lemma sint64_of_nat: "v < 2 ^ 63 \<Longrightarrow> sint (of_nat v :: 64 word) = int v"
  using sint64_eq_unat [of "of_nat v"] by (simp add: unat_of_nat)

lemma sint64_minus_of_nat:
  assumes "v \<le> 2 ^ 63"
  shows "sint (- of_nat v :: 64 word) = - int v"
proof -
  have "int v \<le> 2 ^ 63"
    using assms by (simp only: of_nat_le_numeral_power_cancel_iff)
  then have "sint (word_of_int (- int v) :: 64 word) = - int v"
    by (intro sint64_of_int) simp_all
  then show ?thesis by simp
qed

lemma sint64_inject: "sint a = sint b \<longleftrightarrow> a = (b :: 64 word)"
  by (auto dest: arg_cong [where f = "word_of_int :: int \<Rightarrow> 64 word"])

lemma eq_of_nat_sint: "v < 2 ^ 63 \<Longrightarrow> (w :: 64 word) = of_nat v \<longleftrightarrow> sint w = int v"
  by (metis sint64_inject sint64_of_nat)

lemma eq_minus_of_nat_sint: "v \<le> 2 ^ 63 \<Longrightarrow> (w :: 64 word) = - of_nat v \<longleftrightarrow> sint w = - int v"
  by (metis sint64_inject sint64_minus_of_nat)

lemma unat64_eq_iff: "unat w = n \<longleftrightarrow> n < 2 ^ 64 \<and> (w :: 64 word) = of_nat n"
  using unat64_less [of w] by (auto simp: unat_of_nat)

text \<open>Go's \<open>/\<close> on \<open>int64\<close> truncates towards zero.\<close>

definition go_div :: "go_int \<Rightarrow> go_int \<Rightarrow> go_int" where
  "go_div a b = word_of_int (sint a sdiv sint b)"

lemma sdiv_nonneg: "0 \<le> a \<Longrightarrow> 0 < b \<Longrightarrow> (a :: int) sdiv b = a div b"
  by (cases "a = 0") (simp_all add: signed_divide_int_def sgn_if)

lemma sint_go_div:
  assumes "0 \<le> sint a" and "0 < sint b"
  shows "sint (go_div a b) = sint a div sint b"
proof -
  have "0 \<le> sint a div sint b" and "sint a div sint b \<le> sint a"
    using assms zdiv_mono2 [of "sint a" 1 "sint b"] by (auto simp: pos_imp_zdiv_nonneg_iff)
  then show ?thesis
    using sint64_upper [of a] assms
    by (simp add: go_div_def sdiv_nonneg sint64_of_int)
qed

text \<open>Rounding up: \<open>(n + k - 1) / k\<close> is the number of blocks of \<open>k\<close> that cover \<open>n\<close>.\<close>

lemma less_ceil_div_iff:
  assumes "1 \<le> (k :: nat)"
  shows "i < (n + k - 1) div k \<longleftrightarrow> i * k < n"
proof -
  have "i < (n + k - 1) div k \<longleftrightarrow> Suc i * k \<le> n + k - 1"
    using assms by (simp add: Suc_le_eq [symmetric] less_eq_div_iff_mult_less_eq)
  also have "\<dots> \<longleftrightarrow> i * k < n" using assms by auto
  finally show ?thesis .
qed

lemma le_ceil_div: "1 \<le> (k :: nat) \<Longrightarrow> n \<le> (n + k - 1) div k * k"
  using less_ceil_div_iff [of k "(n + k - 1) div k" n] by simp

section \<open>Sums as Go's (value, error) results\<close>

text \<open>
  A Go function that returns a value and an error is a function into \<open>'e + 'a\<close>: \<open>Inl\<close>
  when the error is not nil, \<open>Inr\<close> otherwise.
\<close>

fun bind_result :: "'e + 'a \<Rightarrow> ('a \<Rightarrow> 'e + 'b) \<Rightarrow> 'e + 'b" where
  "bind_result (Inl e) f = Inl e"
| "bind_result (Inr x) f = f x"

lemma bind_result_eq_Inr [simp]:
  "bind_result r f = Inr y \<longleftrightarrow> (\<exists>x. r = Inr x \<and> f x = Inr y)"
  by (cases r) auto

end
