(* ===== verification/Go_Std.thy ===== *)
theory Go_Std
  imports Prelude
begin

text \<open>
  The functions of Go's standard library that the repository calls on strings and numbers
  (packages \<open>strings\<close>, \<open>strconv\<close> and \<open>crypto/subtle\<close>), translated from their
  implementations, with their characterisations: the 64-bit digit loop of
  \<open>strconv.ParseUint\<close> and the fast and slow paths of \<open>strconv.Atoi\<close> against the value of
  the decimal numeral, \<open>subtle.ConstantTimeCompare\<close> against equality.
\<close>

section \<open>Package strings\<close>

definition HasPrefix :: "string \<Rightarrow> string \<Rightarrow> bool" where
  [std_defs]: "HasPrefix s p \<longleftrightarrow> take (length p) s = p"

lemma HasPrefix_drop: "HasPrefix s p \<Longrightarrow> s = p @ drop (length p) s"
  by (metis HasPrefix_def append_take_drop_id)

definition CutPrefix :: "string \<Rightarrow> string \<Rightarrow> string \<times> bool" where
  [std_defs]: "CutPrefix s p = (if HasPrefix s p then (drop (length p) s, True) else (s, False))"

fun Contains :: "string \<Rightarrow> string \<Rightarrow> bool" where
  "Contains [] sub \<longleftrightarrow> sub = []"
| "Contains (c # s) sub \<longleftrightarrow> HasPrefix (c # s) sub \<or> Contains s sub"

lemma HasPrefix_iff: "HasPrefix s p \<longleftrightarrow> (\<exists>t. s = p @ t)"
proof
  assume "HasPrefix s p"
  then have "s = p @ drop (length p) s"
    by (metis HasPrefix_def append_take_drop_id)
  then show "\<exists>t. s = p @ t" ..
qed (auto simp: HasPrefix_def)

lemma HasPrefix_append [simp]: "HasPrefix (p @ t) p"
  by (simp add: HasPrefix_def)

lemma HasPrefix_Nil [simp]: "HasPrefix s []"
  by (simp add: HasPrefix_def)

lemma Contains_iff: "Contains s sub \<longleftrightarrow> (\<exists>u v. s = u @ sub @ v)"
proof (induction s)
  case Nil
  then show ?case by auto
next
  case (Cons c s)
  show ?case
  proof
    assume "Contains (c # s) sub"
    then show "\<exists>u v. c # s = u @ sub @ v"
      using Cons.IH by (auto simp: HasPrefix_iff) (metis append_Cons append_Nil)+
  next
    assume "\<exists>u v. c # s = u @ sub @ v"
    then obtain u v where "c # s = u @ sub @ v" by blast
    then have "HasPrefix (c # s) sub \<or> (\<exists>u' v. s = u' @ sub @ v)"
      by (cases u) (auto simp: HasPrefix_iff)
    then show "Contains (c # s) sub"
      using Cons.IH by auto
  qed
qed

lemma CutPrefix_append [simp]: "CutPrefix (p @ t) p = (t, True)"
  by (simp add: CutPrefix_def)

subsection \<open>White space\<close>

text \<open>
  The UTF-8 encodings of the code points \<open>unicode.IsSpace\<close> accepts: the ASCII ones, U+0085,
  U+00A0, U+1680, U+2000 to U+200A, U+2028, U+2029, U+202F, U+205F and U+3000.
\<close>

definition space_runes :: "string list" where
  "space_runes =
     [[CHR 0x09], [CHR 0x0A], [CHR 0x0B], [CHR 0x0C], [CHR 0x0D], [CHR 0x20],
      [CHR 0xC2, CHR 0x85], [CHR 0xC2, CHR 0xA0], [CHR 0xE1, CHR 0x9A, CHR 0x80],
      [CHR 0xE2, CHR 0x80, CHR 0x80], [CHR 0xE2, CHR 0x80, CHR 0x81],
      [CHR 0xE2, CHR 0x80, CHR 0x82], [CHR 0xE2, CHR 0x80, CHR 0x83],
      [CHR 0xE2, CHR 0x80, CHR 0x84], [CHR 0xE2, CHR 0x80, CHR 0x85],
      [CHR 0xE2, CHR 0x80, CHR 0x86], [CHR 0xE2, CHR 0x80, CHR 0x87],
      [CHR 0xE2, CHR 0x80, CHR 0x88], [CHR 0xE2, CHR 0x80, CHR 0x89],
      [CHR 0xE2, CHR 0x80, CHR 0x8A], [CHR 0xE2, CHR 0x80, CHR 0xA8],
      [CHR 0xE2, CHR 0x80, CHR 0xA9], [CHR 0xE2, CHR 0x80, CHR 0xAF],
      [CHR 0xE2, CHR 0x81, CHR 0x9F], [CHR 0xE3, CHR 0x80, CHR 0x80]]"

definition strip_one :: "string list \<Rightarrow> string \<Rightarrow> string option" where
  "strip_one rs s = map_option (\<lambda>r. drop (length r) s) (find (HasPrefix s) rs)"

lemma space_runes_nonempty: "r \<in> set space_runes \<Longrightarrow> r \<noteq> []"
  by (auto simp: space_runes_def)

text \<open>Go's trim loops drop one rune at a time; every rune is at least one byte long.\<close>

fun trim_runes :: "nat \<Rightarrow> string list \<Rightarrow> string \<Rightarrow> string" where
  "trim_runes 0 rs s = s"
| "trim_runes (Suc n) rs s =
     (case strip_one rs s of None \<Rightarrow> s | Some s' \<Rightarrow> trim_runes n rs s')"

definition TrimLeftSpace :: "string \<Rightarrow> string" where
  "TrimLeftSpace s = trim_runes (length s) space_runes s"

definition TrimRightSpace :: "string \<Rightarrow> string" where
  "TrimRightSpace s = rev (trim_runes (length s) (map rev space_runes) (rev s))"

definition TrimSpace :: "string \<Rightarrow> string" where
  [std_defs]: "TrimSpace s = TrimRightSpace (TrimLeftSpace s)"

lemma trim_runes_enough:
  assumes "\<forall>r \<in> set rs. r \<noteq> []" and "length s \<le> n"
  shows "strip_one rs (trim_runes n rs s) = None"
  using assms(2)
proof (induction n arbitrary: s)
  case 0
  with assms(1) show ?case
    by (auto simp: strip_one_def find_None_iff HasPrefix_def)
next
  case (Suc n)
  show ?case
  proof (cases "strip_one rs s")
    case None
    then show ?thesis by simp
  next
    case (Some s')
    then obtain r where "r \<in> set rs" and "HasPrefix s r" and s': "s' = drop (length r) s"
      by (auto simp: strip_one_def find_Some_iff in_set_conv_nth)
    with assms(1) have "r \<noteq> []" and "s \<noteq> []"
      by (auto simp: HasPrefix_def)
    with Suc.prems s' have "length s' \<le> n"
      by (cases s; cases r) auto
    with Some Suc.IH show ?thesis by simp
  qed
qed

lemma trim_runes_keep:
  assumes "\<forall>r \<in> set rs. x \<notin> set r" and "x \<in> set s"
  shows "x \<in> set (trim_runes n rs s)"
  using assms(2)
proof (induction n arbitrary: s)
  case (Suc n)
  have "x \<in> set s'" if "strip_one rs s = Some s'" for s'
  proof -
    from that obtain r where r: "r \<in> set rs" "HasPrefix s r" "s' = drop (length r) s"
      by (auto simp: strip_one_def find_Some_iff in_set_conv_nth)
    then have "s = r @ s'" by (metis HasPrefix_def append_take_drop_id)
    with assms(1) r(1) Suc.prems show ?thesis by auto
  qed
  then show ?case using Suc by (auto split: option.split)
qed simp

lemma TrimSpace_keep:
  assumes "x \<in> set s" and "\<forall>r \<in> set space_runes. x \<notin> set r"
  shows "TrimSpace s \<noteq> []"
proof -
  have "x \<in> set (TrimSpace s)"
    using assms by (simp add: TrimSpace_def TrimRightSpace_def TrimLeftSpace_def trim_runes_keep)
  then show ?thesis by auto
qed

section \<open>Package strconv\<close>

datatype num_error = ErrSyntax | ErrRange

definition digit_val :: "char \<Rightarrow> nat option" where
  "digit_val c =
     (if 48 \<le> (of_char c :: nat) \<and> (of_char c :: nat) \<le> 57 then Some (of_char c - 48) else None)"

definition is_digit :: "char \<Rightarrow> bool" where
  "is_digit c \<longleftrightarrow> digit_val c \<noteq> None"

text \<open>The number a string of decimal digits stands for: the specification of the parsers.\<close>

definition dec_step :: "nat \<Rightarrow> char \<Rightarrow> nat" where
  "dec_step n c = 10 * n + (of_char c - 48)"

definition dec_value :: "string \<Rightarrow> nat" where
  "dec_value s = foldl dec_step 0 s"

text \<open>
  The loop of \<open>strconv.ParseUint(s, 10, 64)\<close>: \<open>cutoff\<close> is \<open>maxUint64/10 + 1\<close> and
  \<open>maxVal\<close> is \<open>1<<64 - 1\<close>.
\<close>

definition uint_cutoff :: go_uint where
  "uint_cutoff = 0x199999999999999A"

fun parse_digits :: "go_uint \<Rightarrow> string \<Rightarrow> num_error + go_uint" where
  "parse_digits n [] = Inr n"
| "parse_digits n (c # cs) =
     (case digit_val c of
        None \<Rightarrow> Inl ErrSyntax
      | Some d \<Rightarrow>
          if uint_cutoff \<le> n then Inl ErrRange
          else let n10 = n * 10; n1 = n10 + of_nat d
               in if n1 < n10 then Inl ErrRange else parse_digits n1 cs)"

definition ParseUint :: "string \<Rightarrow> num_error + go_uint" where
  [std_defs]: "ParseUint s = (if s = [] then Inl ErrSyntax else parse_digits 0 s)"

text \<open>\<open>strconv.ParseInt(s, 10, 0)\<close>, the slow path of \<open>Atoi\<close>.\<close>

definition int_cutoff :: go_uint where
  "int_cutoff = 0x8000000000000000"

definition ParseInt :: "string \<Rightarrow> num_error + go_int" where
  "ParseInt s =
     (case s of
        [] \<Rightarrow> Inl ErrSyntax
      | c # cs \<Rightarrow>
          let neg = (c = CHR ''-''); digits = (if c = CHR ''+'' \<or> neg then cs else s)
          in case ParseUint digits of
               Inl ErrSyntax \<Rightarrow> Inl ErrSyntax
             | Inl ErrRange \<Rightarrow> Inl ErrRange
             | Inr un \<Rightarrow>
                 if \<not> neg \<and> int_cutoff \<le> un then Inl ErrRange
                 else if neg \<and> int_cutoff < un then Inl ErrRange
                 else Inr (if neg then - un else un))"

text \<open>The fast path of \<open>Atoi\<close>, for at most 18 bytes: no overflow check in the loop.\<close>

fun atoi_digits :: "go_int \<Rightarrow> string \<Rightarrow> num_error + go_int" where
  "atoi_digits n [] = Inr n"
| "atoi_digits n (c # cs) =
     (case digit_val c of
        None \<Rightarrow> Inl ErrSyntax
      | Some d \<Rightarrow> atoi_digits (n * 10 + of_nat d) cs)"

definition atoi_fast :: "string \<Rightarrow> num_error + go_int" where
  "atoi_fast s =
     (case s of
        [] \<Rightarrow> Inl ErrSyntax
      | c # cs \<Rightarrow>
          if c = CHR ''-'' \<or> c = CHR ''+'' then
            if cs = [] then Inl ErrSyntax
            else bind_result (atoi_digits 0 cs) (\<lambda>n. Inr (if c = CHR ''-'' then - n else n))
          else atoi_digits 0 s)"

definition Atoi :: "string \<Rightarrow> num_error + go_int" where
  [std_defs]: "Atoi s =
     (if 0 < length s \<and> length s < 19 then atoi_fast s else ParseInt s)"

subsection \<open>The parsers against the value of the numeral\<close>

lemma digit_val_bound: "digit_val c = Some d \<Longrightarrow> d \<le> 9"
  by (auto simp: digit_val_def split: if_splits)

lemma dec_step_digit: "digit_val c = Some d \<Longrightarrow> dec_step n c = 10 * n + d"
  by (auto simp: digit_val_def dec_step_def split: if_splits)

lemma dec_foldl_mono: "n \<le> foldl dec_step n s"
proof (induction s arbitrary: n)
  case (Cons c s)
  have "n \<le> dec_step n c" by (simp add: dec_step_def)
  also have "\<dots> \<le> foldl dec_step (dec_step n c) s" by (rule Cons.IH)
  finally show ?case by simp
qed simp

lemma is_digit_iff: "is_digit c \<longleftrightarrow> (\<exists>d. digit_val c = Some d)"
  by (auto simp: is_digit_def)

text \<open>One round of the loop, where the guard lets it pass and where it does not.\<close>

lemma uint_round:
  fixes n :: go_uint
  assumes "d \<le> 9"
  shows "10 * unat n + d < 2 ^ 64 \<Longrightarrow>
           \<not> uint_cutoff \<le> n \<and> \<not> n * 10 + of_nat d < n * 10 \<and>
           unat (n * 10 + of_nat d) = 10 * unat n + d"
    and "2 ^ 64 \<le> 10 * unat n + d \<Longrightarrow>
           uint_cutoff \<le> n \<or> n * 10 + of_nat d < n * 10"
proof -
  have d: "unat (of_nat d :: go_uint) = d"
    using assms by (simp add: unat_of_nat)
  show "\<not> uint_cutoff \<le> n \<and> \<not> n * 10 + of_nat d < n * 10 \<and>
      unat (n * 10 + of_nat d) = 10 * unat n + d"
    if less: "10 * unat n + d < 2 ^ 64"
  proof -
    have ten: "unat (n * 10) = unat n * 10"
      using less by (simp add: unat_word_ariths)
    have sum: "unat (n * 10 + of_nat d) = unat n * 10 + d"
      using less by (simp add: unat_word_ariths(1) ten d)
    then show ?thesis
      using less ten by (simp add: uint_cutoff_def word_less_nat_alt word_le_nat_alt)
  qed
  show "uint_cutoff \<le> n \<or> n * 10 + of_nat d < n * 10"
    if ge: "2 ^ 64 \<le> 10 * unat n + d"
  proof (rule disjCI)
    assume "\<not> n * 10 + of_nat d < n * 10"
    show "uint_cutoff \<le> n"
    proof (rule ccontr)
      assume "\<not> uint_cutoff \<le> n"
      then have small: "unat n < 0x199999999999999A"
        by (simp add: uint_cutoff_def word_le_nat_alt)
      then have ten: "unat (n * 10) = unat n * 10"
        by (simp add: unat_word_ariths)
      have "unat (n * 10 + of_nat d) = (unat n * 10 + d) mod 2 ^ 64"
        by (simp add: unat_word_ariths(1) ten d)
      also have "\<dots> = unat n * 10 + d - 2 ^ 64"
        using ge small assms by (simp add: mod_if)
      finally have "unat (n * 10 + of_nat d) < unat (n * 10)"
        using ten assms ge small by simp
      with \<open>\<not> n * 10 + of_nat d < n * 10\<close> show False
        by (simp add: word_less_nat_alt)
    qed
  qed
qed

lemma parse_digits_Inr:
  "parse_digits n s = Inr w \<longleftrightarrow>
     (\<forall>c \<in> set s. is_digit c) \<and> foldl dec_step (unat n) s < 2 ^ 64 \<and>
     unat w = foldl dec_step (unat n) s"
proof (induction s arbitrary: n)
  case Nil
  then show ?case
    using unat64_less [of n] by (auto simp: word_unat_eq_iff)
next
  case (Cons c s)
  show ?case
  proof (cases "digit_val c")
    case None
    then show ?thesis by (simp add: is_digit_def)
  next
    case (Some d)
    note d = digit_val_bound [OF Some]
    have step: "foldl dec_step (unat n) (c # s) = foldl dec_step (10 * unat n + d) s"
      by (simp add: dec_step_digit [OF Some])
    show ?thesis
    proof (cases "10 * unat n + d < 2 ^ 64")
      case True
      from uint_round(1) [OF d True]
      have "parse_digits n (c # s) = parse_digits (n * 10 + of_nat d) s"
        and "unat (n * 10 + of_nat d) = 10 * unat n + d"
        using Some by (simp_all only: parse_digits.simps option.case Let_def if_False)
      with Some Cons.IH [of "n * 10 + of_nat d"] show ?thesis
        by (simp add: step is_digit_def del: parse_digits.simps foldl_Cons)
    next
      case False
      with dec_foldl_mono [of "10 * unat n + d" s]
      have "\<not> foldl dec_step (unat n) (c # s) < 2 ^ 64"
        by (simp add: step del: foldl_Cons)
      moreover have "uint_cutoff \<le> n \<or> n * 10 + of_nat d < n * 10"
        using False by (intro uint_round(2) [OF d]) simp
      ultimately show ?thesis
        using Some by (auto simp: Let_def)
    qed
  qed
qed

lemma ParseUint_Inr:
  "ParseUint s = Inr w \<longleftrightarrow>
     s \<noteq> [] \<and> list_all is_digit s \<and> dec_value s < 2 ^ 64 \<and> w = of_nat (dec_value s)"
  by (auto simp: ParseUint_def parse_digits_Inr dec_value_def list_all_iff unat64_eq_iff)

text \<open>
  The value of a numeral with an optional sign, the specification of \<open>Atoi\<close>. Both of its
  paths compute it: the fast one cannot overflow on 18 digits, the slow one checks.
\<close>

definition signed_value :: "string \<Rightarrow> int option" where
  "signed_value s =
     (case s of
        [] \<Rightarrow> None
      | c # cs \<Rightarrow>
          let ds = (if c = CHR ''+'' \<or> c = CHR ''-'' then cs else s)
          in if ds = [] \<or> \<not> list_all is_digit ds then None
             else Some (if c = CHR ''-'' then - int (dec_value ds) else int (dec_value ds)))"

lemma atoi_digits_Inr:
  "atoi_digits (of_nat m) s = Inr w \<longleftrightarrow>
     list_all is_digit s \<and> w = of_nat (foldl dec_step m s)"
proof (induction s arbitrary: m)
  case (Cons c s)
  show ?case
  proof (cases "digit_val c")
    case (Some d)
    have "of_nat m * 10 + of_nat d = (of_nat (10 * m + d) :: go_int)" by simp
    with Some Cons.IH [of "10 * m + d"] show ?thesis
      by (simp add: is_digit_def dec_step_digit [OF Some] del: of_nat_add of_nat_mult)
  qed (simp add: is_digit_def)
qed auto

lemma dec_foldl_bound:
  "list_all is_digit s \<Longrightarrow> foldl dec_step n s < (n + 1) * 10 ^ length s"
proof (induction s arbitrary: n)
  case (Cons c s)
  then obtain d where d: "digit_val c = Some d" by (auto simp: is_digit_iff)
  from Cons have "foldl dec_step (10 * n + d) s < (10 * n + d + 1) * 10 ^ length s" by simp
  also have "\<dots> \<le> ((n + 1) * 10) * 10 ^ length s"
    using digit_val_bound [OF d] by (intro mult_le_mono1) simp
  finally show ?case by (simp add: dec_step_digit [OF d] algebra_simps)
qed simp

lemma dec_value_short:
  assumes "list_all is_digit s" and "length s \<le> 18"
  shows "dec_value s < 2 ^ 63"
proof -
  have "dec_value s < 10 ^ length s"
    using dec_foldl_bound [OF assms(1), of 0] by (simp add: dec_value_def)
  also have "\<dots> \<le> 10 ^ 18" using assms(2) by (intro power_increasing) auto
  finally show ?thesis by simp
qed

lemma digit_not_sign: "is_digit c \<Longrightarrow> c \<noteq> CHR ''+'' \<and> c \<noteq> CHR ''-''"
  by (auto simp: is_digit_def digit_val_def split: if_splits)

lemma atoi_fast_Inr:
  assumes "s \<noteq> []" and "length s \<le> 18"
  shows "atoi_fast s = Inr w \<longleftrightarrow> (\<exists>v. signed_value s = Some v \<and> sint w = v)"
proof -
  obtain c cs where s: "s = c # cs" using assms(1) by (cases s) auto
  define ds where "ds = (if c = CHR ''+'' \<or> c = CHR ''-'' then cs else s)"
  have len: "length ds \<le> 18" using assms(2) by (simp add: ds_def s)
  have val: "atoi_digits 0 ds = Inr n \<longleftrightarrow> list_all is_digit ds \<and> n = of_nat (dec_value ds)" for n
    using atoi_digits_Inr [of 0 ds n] by (simp add: dec_value_def)
  have "atoi_fast s = Inr w \<longleftrightarrow>
      ds \<noteq> [] \<and> (\<exists>n. atoi_digits 0 ds = Inr n \<and> w = (if c = CHR ''-'' then - n else n))"
    unfolding atoi_fast_def s list.case ds_def [unfolded s]
    by (auto simp del: atoi_digits.simps)
  also have "\<dots> \<longleftrightarrow> ds \<noteq> [] \<and> list_all is_digit ds \<and>
      sint w = (if c = CHR ''-'' then - int (dec_value ds) else int (dec_value ds))"
    using dec_value_short [OF _ len]
    by (auto simp: val eq_of_nat_sint eq_minus_of_nat_sint
          sint64_of_nat sint64_minus_of_nat)
  also have "\<dots> \<longleftrightarrow> (\<exists>v. signed_value s = Some v \<and> sint w = v)"
    by (auto simp: signed_value_def s ds_def Let_def)
  finally show ?thesis .
qed

lemma ParseInt_Inr:
  "ParseInt s = Inr w \<longleftrightarrow>
     (\<exists>v. signed_value s = Some v \<and> - (2 ^ 63) \<le> v \<and> v < 2 ^ 63 \<and> sint w = v)"
proof (cases s)
  case Nil
  then show ?thesis by (simp add: ParseInt_def signed_value_def)
next
  case (Cons c cs)
  define ds where "ds = (if c = CHR ''+'' \<or> c = CHR ''-'' then cs else s)"
  have split: "ParseInt s = Inr w \<longleftrightarrow>
      (\<exists>un. ParseUint ds = Inr un \<and>
        (if c = CHR ''-'' then un \<le> int_cutoff \<and> w = - un else un < int_cutoff \<and> w = un))"
    unfolding ParseInt_def Cons list.case Let_def ds_def [unfolded Cons, symmetric]
    by (auto split: sum.split num_error.split)
  have cut: "(of_nat n :: go_uint) < int_cutoff \<longleftrightarrow> n < 2 ^ 63"
    "(of_nat n :: go_uint) \<le> int_cutoff \<longleftrightarrow> n \<le> 2 ^ 63" if "n < 2 ^ 64" for n
    using that by (simp_all add: int_cutoff_def word_less_nat_alt word_le_nat_alt unat_of_nat)
  have "ParseInt s = Inr w \<longleftrightarrow>
      ds \<noteq> [] \<and> list_all is_digit ds \<and>
      (if c = CHR ''-'' then dec_value ds \<le> 2 ^ 63 \<and> sint w = - int (dec_value ds)
       else dec_value ds < 2 ^ 63 \<and> sint w = int (dec_value ds))"
    unfolding split ParseUint_Inr
    by (auto simp: cut eq_of_nat_sint eq_minus_of_nat_sint
          sint64_of_nat sint64_minus_of_nat)
  also have "\<dots> \<longleftrightarrow> (\<exists>v. signed_value s = Some v \<and> - (2 ^ 63) \<le> v \<and> v < 2 ^ 63 \<and> sint w = v)"
    by (auto simp: signed_value_def Cons ds_def Let_def)
  finally show ?thesis .
qed

theorem Atoi_Inr:
  "Atoi s = Inr w \<longleftrightarrow>
     (\<exists>v. signed_value s = Some v \<and> - (2 ^ 63) \<le> v \<and> v < 2 ^ 63 \<and> sint w = v)"
proof (cases "0 < length s \<and> length s < 19")
  case True
  then have "Atoi s = Inr w \<longleftrightarrow> (\<exists>v. signed_value s = Some v \<and> sint w = v)"
    by (simp add: Atoi_def atoi_fast_Inr)
  then show ?thesis
    using sint64_lower [of w] sint64_upper [of w] by auto
next
  case False
  then show ?thesis by (simp only: Atoi_def if_False ParseInt_Inr)
qed

subsection \<open>Printing\<close>

text \<open>\<open>strconv.FormatUint\<close> in base ten, which \<open>fmt\<close>'s \<open>%d\<close> agrees with, and \<open>strconv.Itoa\<close>.\<close>

definition digit_char :: "nat \<Rightarrow> char" where
  "digit_char d = char_of (48 + d)"

fun dec_digits :: "nat \<Rightarrow> string" where
  "dec_digits n = (if n < 10 then [digit_char n] else dec_digits (n div 10) @ [digit_char (n mod 10)])"

declare dec_digits.simps [simp del]

definition FormatUint :: "go_uint \<Rightarrow> string" where
  "FormatUint w = dec_digits (unat w)"

definition Itoa :: "int \<Rightarrow> string" where
  "Itoa i = (if i < 0 then CHR ''-'' # dec_digits (nat (- i)) else dec_digits (nat i))"

lemma digit_val_digit_char: "d < 10 \<Longrightarrow> digit_val (digit_char d) = Some d"
  by (simp add: digit_val_def digit_char_def of_char_of)

lemma is_digit_digit_char: "d < 10 \<Longrightarrow> is_digit (digit_char d)"
  by (simp add: is_digit_def digit_val_digit_char)

lemma dec_digits_nonempty [simp]: "dec_digits n \<noteq> []"
  by (subst dec_digits.simps) simp

lemma dec_digits_correct: "list_all is_digit (dec_digits n) \<and> dec_value (dec_digits n) = n"
proof (induction n rule: dec_digits.induct)
  case (1 n)
  show ?case
  proof (cases "n < 10")
    case True
    then show ?thesis
      by (subst (1 2) dec_digits.simps)
        (simp add: is_digit_digit_char digit_val_digit_char dec_value_def dec_step_digit)
  next
    case False
    have "digit_val (digit_char (n mod 10)) = Some (n mod 10)"
      by (simp add: digit_val_digit_char)
    with False "1.IH" show ?thesis
      by (subst (1 2) dec_digits.simps) (simp add: is_digit_digit_char dec_value_def dec_step_digit)
  qed
qed

lemma ParseUint_FormatUint: "ParseUint (FormatUint w) = Inr w"
  using dec_digits_correct [of "unat w"] unat64_less [of w]
  by (simp add: ParseUint_Inr FormatUint_def)

section \<open>Package crypto/subtle\<close>

unbundle bit_operations_syntax

definition byte_of :: "char \<Rightarrow> 8 word" where
  "byte_of c = of_nat (of_char c)"

definition ConstantTimeByteEq :: "8 word \<Rightarrow> 8 word \<Rightarrow> go_int" where
  "ConstantTimeByteEq x y = ucast (drop_bit 31 ((ucast (x XOR y) :: 32 word) - 1))"

fun ct_accumulate :: "8 word \<Rightarrow> string \<Rightarrow> string \<Rightarrow> 8 word" where
  "ct_accumulate v (x # xs) (y # ys) = ct_accumulate (v OR (byte_of x XOR byte_of y)) xs ys"
| "ct_accumulate v _ _ = v"

definition ConstantTimeCompare :: "string \<Rightarrow> string \<Rightarrow> go_int" where
  [std_defs]: "ConstantTimeCompare x y =
     (if length x \<noteq> length y then 0 else ConstantTimeByteEq (ct_accumulate 0 x y) 0)"

lemma byte_of_inject: "byte_of c = byte_of d \<longleftrightarrow> c = d"
proof
  assume "byte_of c = byte_of d"
  then have "unat (byte_of c) = unat (byte_of d)" by simp
  then have "(of_char c :: nat) = of_char d"
    by (simp add: byte_of_def unat_of_nat)
  then show "c = d" by simp
qed simp

lemma ConstantTimeByteEq_zero: "ConstantTimeByteEq v 0 = (if v = 0 then 1 else 0)"
proof (cases "v = 0")
  case True
  then show ?thesis by (simp add: ConstantTimeByteEq_def)
next
  case False
  then have v: "0 < unat v" "unat v < 256"
    using unsigned_less [where ?'a = nat, of v] by (simp_all add: unat_gt_0)
  then have wide: "unat (ucast v :: 32 word) = unat v"
    by (simp add: unsigned_ucast_eq take_bit_nat_eq_self)
  have "unat ((ucast v :: 32 word) - 1) = unat v - 1"
    using v wide by (simp add: unat_sub word_le_nat_alt)
  then have "unat (drop_bit 31 ((ucast v :: 32 word) - 1)) = (unat v - 1) div 2 ^ 31"
    by (simp only: unat_drop_bit_eq) (simp only: drop_bit_eq_div)
  with v have "drop_bit 31 ((ucast v :: 32 word) - 1) = 0"
    by (simp add: unat_eq_0)
  with False show ?thesis by (simp add: ConstantTimeByteEq_def)
qed

lemma word_OR_eq_0: "(a OR b = (0 :: 8 word)) \<longleftrightarrow> a = 0 \<and> b = 0"
  by (simp add: or_eq_0_iff)

lemma word_XOR_eq_0: "(a XOR b = (0 :: 8 word)) \<longleftrightarrow> a = b"
  by (metis xor.assoc xor.left_neutral xor_self_eq)

lemma ct_accumulate_zero:
  "length x = length y \<Longrightarrow> ct_accumulate v x y = 0 \<longleftrightarrow> v = 0 \<and> x = y"
  by (induction v x y rule: ct_accumulate.induct)
    (auto simp: word_OR_eq_0 word_XOR_eq_0 byte_of_inject)

lemma ConstantTimeCompare_iff [simp]: "ConstantTimeCompare x y = 1 \<longleftrightarrow> x = y"
  by (auto simp: ConstantTimeCompare_def ConstantTimeByteEq_zero ct_accumulate_zero)

section \<open>strings.ToLower\<close>

text \<open>
  \<open>strings.ToLower\<close> on UTF-8. Only two code points outside ASCII have an ASCII lower case,
  U+0130 (\<open>i\<close>) and U+212A (\<open>k\<close>); all others map to code points outside ASCII and are
  copied here, which does not change whether the result is a given ASCII string. The code
  only compares the result with ASCII literals.
\<close>

definition lower_byte :: "char \<Rightarrow> char" where
  "lower_byte c =
     (let n = (of_char c :: nat) in if 65 \<le> n \<and> n \<le> 90 then char_of (n + 32) else c)"

fun ToLower :: "string \<Rightarrow> string" where
  "ToLower [] = []"
| "ToLower (c # s) =
     (if HasPrefix (c # s) [CHR 0xC4, CHR 0xB0] then CHR ''i'' # ToLower (drop 1 s)
      else if HasPrefix (c # s) [CHR 0xE2, CHR 0x84, CHR 0xAA] then CHR ''k'' # ToLower (drop 2 s)
      else lower_byte c # ToLower s)"

section \<open>Package unicode/utf8\<close>

text \<open>
  \<open>utf8.RuneCountInString\<close>, which the validator's \<open>min\<close> and \<open>max\<close> tags use on strings. The
  width of the first rune follows from its leading byte and the accepted range of the second
  one; a byte that starts no valid encoding counts as one rune.
\<close>

definition in_range :: "nat \<Rightarrow> nat \<Rightarrow> char \<Rightarrow> bool" where
  "in_range lo hi c \<longleftrightarrow> lo \<le> of_char c \<and> of_char c \<le> hi"

definition second_range :: "nat \<Rightarrow> nat \<times> nat" where
  "second_range b0 =
     (if b0 = 0xE0 then (0xA0, 0xBF) else if b0 = 0xED then (0x80, 0x9F)
      else if b0 = 0xF0 then (0x90, 0xBF) else if b0 = 0xF4 then (0x80, 0x8F) else (0x80, 0xBF))"

definition continues :: "nat \<Rightarrow> string \<Rightarrow> bool" where
  "continues b0 t \<longleftrightarrow>
     (case t of [] \<Rightarrow> True
      | c # cs \<Rightarrow> in_range (fst (second_range b0)) (snd (second_range b0)) c \<and>
          list_all (in_range 0x80 0xBF) cs)"

definition lead_length :: "nat \<Rightarrow> nat" where
  "lead_length b0 =
     (if 0xC2 \<le> b0 \<and> b0 \<le> 0xDF then 2 else if 0xE0 \<le> b0 \<and> b0 \<le> 0xEF then 3
      else if 0xF0 \<le> b0 \<and> b0 \<le> 0xF4 then 4 else 1)"

definition rune_width :: "char \<Rightarrow> string \<Rightarrow> nat" where
  "rune_width c s =
     (let n = lead_length (of_char c)
      in if n - 1 \<le> length s \<and> continues (of_char c) (take (n - 1) s) then n else 1)"

function RuneCountInString :: "string \<Rightarrow> nat" where
  "RuneCountInString [] = 0"
| "RuneCountInString (c # s) = Suc (RuneCountInString (drop (rune_width c s - 1) s))"
  by pat_completeness auto

termination
  by (relation "measure length") auto

lemma RuneCountInString_bounds:
  "RuneCountInString s \<le> length s \<and> (RuneCountInString s = 0 \<longleftrightarrow> s = [])"
proof (induction s rule: RuneCountInString.induct)
  case (2 c s)
  then have "RuneCountInString (drop (rune_width c s - 1) s) \<le> length s"
    using le_trans by fastforce
  then show ?case by simp
qed simp

end
