(* ===== verification/App_Error.thy ===== *)
theory App_Error
  imports Go_Std
begin

text \<open>
  Go's error values and the package \<open>internal/apperror\<close>.

  An \<open>error\<close> is a value of \<open>goerr\<close>: one constructor per concrete error type the program
  meets. \<open>AppErr\<close> is a \<open>*apperror.AppError\<close> (its cause \<open>err\<close> is an option, \<open>None\<close>
  for nil), \<open>FiberErr\<close> a \<open>*fiber.Error\<close>, \<open>ValidationErrs\<close> the validator's
  \<open>ValidationErrors\<close> (one field name and tag per violated field), \<open>WrapErr\<close> the
  \<open>*fmt.wrapError\<close> that \<open>fmt.Errorf\<close> makes of a format with one \<open>%w\<close>, \<open>JoinErr\<close> a value
  with an \<open>Unwrap() []error\<close> method, \<open>SentinelErr\<close> a package variable compared by
  identity, and \<open>OpaqueErr\<close> any other error, known only by its text.
\<close>

section \<open>Error values\<close>

record Detail =
  Field :: string
  Reason :: string

datatype sentinel =
    ErrRecordNotFound  \<comment> \<open>gorm.ErrRecordNotFound\<close>
  | ErrNoChange        \<comment> \<open>migrate.ErrNoChange\<close>
  | ErrNotExist        \<comment> \<open>fs.ErrNotExist\<close>
  | ErrInvalidToken    \<comment> \<open>errInvalidToken of internal/modules/auth\<close>

datatype app_error =
    AppError (Code: string) (Status: int) (Message: string) (Details: "Detail list")
      (err: "goerr option")
and goerr =
    AppErr app_error
  | FiberErr (fe_Code: int) (fe_Message: string)
  | ValidationErrs "(string \<times> string) list" string
  | WrapErr string goerr
  | JoinErr string "goerr list"
  | SentinelErr sentinel
  | OpaqueErr string

section \<open>The catalogue\<close>

definition CodeInvalidRequest :: string where "CodeInvalidRequest = ''INVALID_REQUEST''"
definition CodeNotFound :: string where "CodeNotFound = ''NOT_FOUND''"
definition CodeConflict :: string where "CodeConflict = ''CONFLICT''"
definition CodeInternal :: string where "CodeInternal = ''INTERNAL_ERROR''"
definition CodeUnauthorized :: string where "CodeUnauthorized = ''UNAUTHORIZED''"
definition CodeInvalidCredential :: string where
  "CodeInvalidCredential = ''INVALID_CREDENTIALS''"

lemmas code_defs =
  CodeInvalidRequest_def CodeNotFound_def CodeConflict_def CodeInternal_def
  CodeUnauthorized_def CodeInvalidCredential_def

definition ErrInvalidRequest :: app_error where
  "ErrInvalidRequest = AppError CodeInvalidRequest 422 ''invalid request'' [] None"

definition ErrNotFound :: app_error where
  "ErrNotFound = AppError CodeNotFound 404 ''resource not found'' [] None"

definition ErrConflict :: app_error where
  "ErrConflict = AppError CodeConflict 409 ''resource conflict'' [] None"

definition ErrInternal :: app_error where
  "ErrInternal = AppError CodeInternal 500 ''internal server error'' [] None"

definition ErrUnauthorized :: app_error where
  "ErrUnauthorized = AppError CodeUnauthorized 401 ''authentication required'' [] None"

definition ErrInvalidCredential :: app_error where
  "ErrInvalidCredential =
     AppError CodeInvalidCredential 401 ''invalid username or password'' [] None"

lemmas catalogue_defs =
  ErrInvalidRequest_def ErrNotFound_def ErrConflict_def ErrInternal_def ErrUnauthorized_def
  ErrInvalidCredential_def

definition NewBadRequest :: "string \<Rightarrow> Detail list \<Rightarrow> app_error" where
  "NewBadRequest msg details = AppError CodeInvalidRequest 400 msg details None"

definition NewValidation :: "Detail list \<Rightarrow> app_error" where
  "NewValidation details = AppError CodeInvalidRequest 422 ''validation failed'' details None"

section \<open>Methods of AppError\<close>

text \<open>\<open>WithCause\<close> copies the error and sets the cause of the copy.\<close>

definition WithCause :: "app_error \<Rightarrow> goerr \<Rightarrow> app_error" where
  "WithCause e c = AppError (Code e) (Status e) (Message e) (Details e) (Some c)"

lemma WithCause_sel [simp]:
  "Code (WithCause e c) = Code e" "Status (WithCause e c) = Status e"
  "Message (WithCause e c) = Message e" "Details (WithCause e c) = Details e"
  "err (WithCause e c) = Some c"
  by (simp_all add: WithCause_def)

text \<open>The text of an error: \<open>AppError.Error()\<close> and what the other types print.\<close>

fun Error :: "goerr \<Rightarrow> string" where
  "Error (AppErr (AppError c s m d None)) = m @ '' ('' @ c @ '')''"
| "Error (AppErr (AppError c s m d (Some e))) = m @ '' ('' @ c @ ''): '' @ Error e"
| "Error (FiberErr c m) = m"
| "Error (ValidationErrs vs m) = m"
| "Error (WrapErr m e) = m"
| "Error (JoinErr m es) = m"
| "Error (SentinelErr ErrRecordNotFound) = ''record not found''"
| "Error (SentinelErr ErrNoChange) = ''no change''"
| "Error (SentinelErr ErrNotExist) = ''file does not exist''"
| "Error (SentinelErr ErrInvalidToken) = ''invalid token''"
| "Error (OpaqueErr m) = m"

text \<open>\<open>Unwrap\<close>, of \<open>AppError\<close> and of the wrapping types of the standard library.\<close>

fun Unwrap :: "goerr \<Rightarrow> goerr list" where
  "Unwrap (AppErr e) = (case err e of None \<Rightarrow> [] | Some c \<Rightarrow> [c])"
| "Unwrap (WrapErr m e) = [e]"
| "Unwrap (JoinErr m es) = es"
| "Unwrap _ = []"

text \<open>\<open>AppError.Is\<close>: the target is a \<open>*AppError\<close> with the same code.\<close>

fun AppError_Is :: "app_error \<Rightarrow> goerr \<Rightarrow> bool" where
  "AppError_Is e (AppErr t) \<longleftrightarrow> Code e = Code t"
| "AppError_Is e _ \<longleftrightarrow> False"

section \<open>errors.Is and errors.As\<close>

text \<open>
  Both walk the tree of an error depth first, the error itself before what it unwraps to, and
  stop at the first hit.
\<close>

fun err_find :: "(goerr \<Rightarrow> 'a option) \<Rightarrow> goerr \<Rightarrow> 'a option"
and errs_find :: "(goerr \<Rightarrow> 'a option) \<Rightarrow> goerr list \<Rightarrow> 'a option" where
  "err_find p (AppErr (AppError c s m d (Some e))) =
     (case p (AppErr (AppError c s m d (Some e))) of Some x \<Rightarrow> Some x | None \<Rightarrow> err_find p e)"
| "err_find p (WrapErr m e) =
     (case p (WrapErr m e) of Some x \<Rightarrow> Some x | None \<Rightarrow> err_find p e)"
| "err_find p (JoinErr m es) =
     (case p (JoinErr m es) of Some x \<Rightarrow> Some x | None \<Rightarrow> errs_find p es)"
| "err_find p e = p e"
| "errs_find p [] = None"
| "errs_find p (e # es) =
     (case err_find p e of Some x \<Rightarrow> Some x | None \<Rightarrow> errs_find p es)"

lemma err_find_unwrap:
  "err_find p e = (case p e of Some x \<Rightarrow> Some x | None \<Rightarrow> errs_find p (Unwrap e))"
proof (cases e)
  case (AppErr a)
  then show ?thesis
    by (cases a; cases "err a") (auto split: option.split)
qed (auto split: option.split)

lemma err_find_AppErr:
  "err_find p (AppErr a) =
     (case p (AppErr a) of Some x \<Rightarrow> Some x
      | None \<Rightarrow> (case err a of None \<Rightarrow> None | Some c \<Rightarrow> err_find p c))"
  by (cases a; cases "err a") (auto split: option.split)

text \<open>
  The code calls \<open>errors.Is\<close> with an \<open>*AppError\<close> or a sentinel as its target. Two equal
  \<open>*AppError\<close> pointers have equal codes, so the identity test adds nothing to \<open>AppError.Is\<close>.
\<close>

fun err_matches :: "goerr \<Rightarrow> goerr \<Rightarrow> bool" where
  "err_matches target (AppErr a) \<longleftrightarrow> AppError_Is a target"
| "err_matches target (SentinelErr s) \<longleftrightarrow> target = SentinelErr s"
| "err_matches target _ \<longleftrightarrow> False"

definition errors_Is :: "goerr \<Rightarrow> goerr \<Rightarrow> bool" where
  "errors_Is e target \<longleftrightarrow>
     err_find (\<lambda>x. if err_matches target x then Some () else None) e \<noteq> None"

fun get_app :: "goerr \<Rightarrow> app_error option" where
  "get_app (AppErr a) = Some a"
| "get_app _ = None"

fun get_fiber :: "goerr \<Rightarrow> (int \<times> string) option" where
  "get_fiber (FiberErr c m) = Some (c, m)"
| "get_fiber _ = None"

fun get_valerrs :: "goerr \<Rightarrow> (string \<times> string) list option" where
  "get_valerrs (ValidationErrs vs m) = Some vs"
| "get_valerrs _ = None"

definition as_app :: "goerr \<Rightarrow> app_error option" where
  "as_app = err_find get_app"

definition as_fiber :: "goerr \<Rightarrow> (int \<times> string) option" where
  "as_fiber = err_find get_fiber"

definition as_valerrs :: "goerr \<Rightarrow> (string \<times> string) list option" where
  "as_valerrs = err_find get_valerrs"

lemma errors_Is_simps [simp, err_simps]:
  "errors_Is (WrapErr m e) t = errors_Is e t"
  "errors_Is (SentinelErr s) t = (t = SentinelErr s)"
  "errors_Is (FiberErr i m) t = False"
  "errors_Is (ValidationErrs vs m) t = False"
  "errors_Is (OpaqueErr m) t = False"
  "errors_Is (AppErr a) t =
     (AppError_Is a t \<or> (case err a of None \<Rightarrow> False | Some c \<Rightarrow> errors_Is c t))"
  "errors_Is (JoinErr m es) t = (\<exists>e \<in> set es. errors_Is e t)"
proof -
  have "errs_find (\<lambda>x. if err_matches t x then Some () else None) es \<noteq> None \<longleftrightarrow>
      (\<exists>e \<in> set es. errors_Is e t)" for es
    by (induction es) (auto simp: errors_Is_def split: option.splits)
  then show "errors_Is (JoinErr m es) t = (\<exists>e \<in> set es. errors_Is e t)"
    by (simp add: errors_Is_def)
  show "errors_Is (AppErr a) t =
      (AppError_Is a t \<or> (case err a of None \<Rightarrow> False | Some c \<Rightarrow> errors_Is c t))"
    by (simp add: errors_Is_def err_find_AppErr split: option.split)
qed (simp_all add: errors_Is_def)

lemma as_app_simps [simp, err_simps]:
  "as_app (AppErr a) = Some a" "as_app (WrapErr m e) = as_app e"
  "as_app (FiberErr i m) = None" "as_app (ValidationErrs vs m) = None"
  "as_app (SentinelErr s) = None" "as_app (OpaqueErr m) = None"
  by (simp_all add: as_app_def err_find_AppErr split: option.split)

lemma as_fiber_simps [simp, err_simps]:
  "as_fiber (FiberErr i m) = Some (i, m)" "as_fiber (WrapErr m e) = as_fiber e"
  "as_fiber (ValidationErrs vs m) = None"
  "as_fiber (SentinelErr s) = None" "as_fiber (OpaqueErr m) = None"
  "as_fiber (AppErr a) = (case err a of None \<Rightarrow> None | Some c \<Rightarrow> as_fiber c)"
  by (simp_all add: as_fiber_def err_find_AppErr split: option.split)

lemma as_valerrs_simps [simp, err_simps]:
  "as_valerrs (ValidationErrs vs m) = Some vs" "as_valerrs (WrapErr t e) = as_valerrs e"
  "as_valerrs (FiberErr i t) = None"
  "as_valerrs (SentinelErr s) = None" "as_valerrs (OpaqueErr t) = None"
  "as_valerrs (AppErr a) = (case err a of None \<Rightarrow> None | Some c \<Rightarrow> as_valerrs c)"
  by (simp_all add: as_valerrs_def err_find_AppErr split: option.split)

definition AsAppError :: "goerr \<Rightarrow> app_error" where
  "AsAppError e = (case as_app e of Some a \<Rightarrow> a | None \<Rightarrow> WithCause ErrInternal e)"

section \<open>What survives wrapping\<close>

text \<open>
  The layers hand an error up by wrapping it: \<open>WithCause\<close> puts a cause below an \<open>*AppError\<close>,
  \<open>fmt.Errorf\<close> with \<open>%w\<close> puts a text on top of an error.
\<close>

definition wraps :: "string list \<Rightarrow> goerr \<Rightarrow> goerr" where
  "wraps ms e = foldr WrapErr ms e"

lemma as_wraps [simp]:
  "as_app (wraps ms e) = as_app e" "as_fiber (wraps ms e) = as_fiber e"
  "as_valerrs (wraps ms e) = as_valerrs e" "errors_Is (wraps ms e) t = errors_Is e t"
  by (induction ms) (simp_all add: wraps_def)

lemma AsAppError_AppErr [simp]: "AsAppError (AppErr a) = a"
  by (simp add: AsAppError_def)

lemma AsAppError_WrapErr_Some [simp]:
  "as_app e = Some a \<Longrightarrow> AsAppError e = a"
  by (simp add: AsAppError_def)

lemma AsAppError_None:
  "as_app e = None \<Longrightarrow> AsAppError e = WithCause ErrInternal e"
  by (simp add: AsAppError_def)

text \<open>An error that carries no \<open>*AppError\<close> and no \<open>*fiber.Error\<close>: one of a driver or library.\<close>

definition foreign :: "goerr \<Rightarrow> bool" where
  "foreign e \<longleftrightarrow> as_app e = None \<and> as_fiber e = None"

lemma foreign_simps [simp]:
  "foreign (OpaqueErr m)" "foreign (SentinelErr s)" "\<not> foreign (AppErr a)"
  "\<not> foreign (FiberErr c m)" "foreign (WrapErr m e) = foreign e" "foreign (ValidationErrs vs m)"
  by (simp_all add: foreign_def)

lemma err_find_mono:
  assumes "\<And>x. p x \<noteq> None \<Longrightarrow> q x \<noteq> None"
  shows "err_find p e \<noteq> None \<Longrightarrow> err_find q e \<noteq> None"
    and "errs_find p es \<noteq> None \<Longrightarrow> errs_find q es \<noteq> None"
  using assms
  by (induction q e and q es rule: err_find_errs_find.induct) (force split: option.splits)+

lemma foreign_not_Is_App: "as_app e = None \<Longrightarrow> \<not> errors_Is e (AppErr t)"
proof -
  let ?p = "\<lambda>x. if err_matches (AppErr t) x then Some () else None"
  have "get_app x \<noteq> None" if "?p x \<noteq> None" for x
    using that by (cases x) auto
  from err_find_mono(1) [of ?p get_app e, OF this] show "as_app e = None \<Longrightarrow> \<not> errors_Is e (AppErr t)"
    by (auto simp: as_app_def errors_Is_def)
qed

text \<open>C34: An error keeps its identity and its public face on the way up. Whatever causes and
  texts the layers add to a catalogue error, \<open>errors.Is\<close> still matches it, and \<open>AsAppError\<close>
  gives back its code, status, message and details.\<close>

theorem wrapped_error_keeps_face:
  fixes e :: app_error and c :: goerr and ms :: "string list"
  defines "up \<equiv> wraps ms (AppErr (WithCause e c))"
  shows "errors_Is up (AppErr e) \<and>
         Code (AsAppError up) = Code e \<and> Status (AsAppError up) = Status e \<and>
         Message (AsAppError up) = Message e \<and> Details (AsAppError up) = Details e"
  by (simp_all add: up_def)

end
