(* ===== verification/Paging.thy ===== *)
theory Paging
  imports Go_Std
begin

text \<open>
  The package \<open>internal/pagination\<close>: the query a list request asks for, the offset it starts
  at and the meta block of the response. All numbers are 64-bit words, so the multiplication
  in \<open>Offset\<close> and the addition in \<open>NewPageMeta\<close> wrap around as they do in Go. The lemmas give
  the bounds that the clamping establishes, the exact values where nothing wraps, the pages
  as a partition of the rows, and what happens to a page number that makes the offset wrap.
\<close>

definition DefaultPage :: go_int where "DefaultPage = 1"
definition DefaultLimit :: go_int where "DefaultLimit = 20"
definition MaxLimit :: go_int where "MaxLimit = 100"

record PageQuery =
  Page :: go_int
  Limit :: go_int

definition Offset :: "PageQuery \<Rightarrow> go_int" where
  "Offset p = (Page p - 1) * Limit p"

definition NewPageQuery :: "go_int \<Rightarrow> go_int \<Rightarrow> PageQuery" where
  "NewPageQuery page limit =
     (let page = (if sint page < sint DefaultPage then DefaultPage else page);
          limit = (if sint limit < 1 then DefaultLimit else limit);
          limit = (if sint limit > sint MaxLimit then MaxLimit else limit)
      in \<lparr>Page = page, Limit = limit\<rparr>)"

record PageMeta =
  mt_Page :: go_int
  mt_Limit :: go_int
  TotalCount :: go_int
  TotalPages :: go_int

text \<open>\<open>None\<close> stands for the run-time panic of a division by zero.\<close>

definition NewPageMeta :: "PageQuery \<Rightarrow> go_int \<Rightarrow> PageMeta option" where
  "NewPageMeta q cnt =
     (if Limit q = 0 then None
      else Some \<lparr>mt_Page = Page q, mt_Limit = Limit q, TotalCount = cnt,
                 TotalPages = go_div (cnt + Limit q - 1) (Limit q)\<rparr>)"

lemmas paging_consts = DefaultPage_def DefaultLimit_def MaxLimit_def

section \<open>Bounds\<close>

lemma NewPageQuery_bounds:
  "1 \<le> sint (Page (NewPageQuery p l))"
  "1 \<le> sint (Limit (NewPageQuery p l))" "sint (Limit (NewPageQuery p l)) \<le> 100"
  by (auto simp: NewPageQuery_def Let_def paging_consts)

lemma Limit_NewPageQuery_neq_0 [simp]: "Limit (NewPageQuery p l) \<noteq> 0"
  using NewPageQuery_bounds(2) [of p l] by auto

lemma Offset_exact:
  assumes "1 \<le> sint (Page q)" and "1 \<le> sint (Limit q)"
    and "(sint (Page q) - 1) * sint (Limit q) < 2 ^ 63"
  shows "sint (Offset q) = (sint (Page q) - 1) * sint (Limit q)"
proof -
  have page: "sint (Page q - 1) = sint (Page q) - 1"
    using assms(1) sint64_upper [of "Page q"] by (subst sint64_sub) simp_all
  have "0 \<le> (sint (Page q) - 1) * sint (Limit q)"
    using assms(1,2) by simp
  then have "- (2 ^ 63) \<le> (sint (Page q) - 1) * sint (Limit q)"
    by (rule order_trans [rotated]) simp
  with assms(3) show ?thesis
    unfolding Offset_def by (subst sint64_mult) (simp_all add: page)
qed

lemma TotalPages_exact:
  assumes "1 \<le> sint (Limit q)" and "sint (Limit q) \<le> 100"
    and "0 \<le> sint cnt" and "sint cnt < 2 ^ 63 - 100" and "NewPageMeta q cnt = Some m"
  shows "sint (TotalPages m) = (sint cnt + sint (Limit q) - 1) div sint (Limit q)"
proof -
  have sum: "sint (cnt + Limit q) = sint cnt + sint (Limit q)"
    using assms by (subst sint64_add) simp_all
  then have diff: "sint (cnt + Limit q - 1) = sint cnt + sint (Limit q) - 1"
    using assms by (subst sint64_sub) simp_all
  have "TotalPages m = go_div (cnt + Limit q - 1) (Limit q)"
    using assms(5) by (auto simp: NewPageMeta_def split: if_splits)
  then show ?thesis
    using assms by (simp add: sint_go_div diff)
qed

section \<open>The pages of a list\<close>

text \<open>
  The rows a query selects: SQL's \<open>LIMIT n OFFSET k\<close>. An offset that is not positive is left
  out of the statement.
\<close>

definition page_slice :: "PageQuery \<Rightarrow> 'a list \<Rightarrow> 'a list" where
  "page_slice q xs = take (nat (sint (Limit q))) (drop (nat (sint (Offset q))) xs)"

lemma length_page_slice: "length (page_slice (NewPageQuery p l) xs) \<le> 100"
proof -
  have "nat (sint (Limit (NewPageQuery p l))) \<le> 100"
    using NewPageQuery_bounds(3) [of p l] by linarith
  then show ?thesis by (simp add: page_slice_def min_le_iff_disj)
qed

lemma concat_slices: "concat (map (\<lambda>i. take k (drop (i * k) xs)) [0..<n]) = take (n * k) xs"
proof (induction n)
  case (Suc n)
  have "Suc n * k = n * k + k" by simp
  with Suc show ?case by (simp only: take_add) simp
qed simp

lemma NewPageQuery_Page [simp]:
  "1 \<le> sint p \<Longrightarrow> Page (NewPageQuery p l) = p"
  by (simp add: NewPageQuery_def Let_def paging_consts)

lemma Limit_NewPageQuery_any: "Limit (NewPageQuery p l) = Limit (NewPageQuery p' l)"
  by (simp add: NewPageQuery_def Let_def)

lemma page_slice_nth:
  assumes "i * nat (sint (Limit (NewPageQuery p l))) < 2 ^ 63" and "i < 2 ^ 62"
    and q: "q = NewPageQuery (of_nat (i + 1)) l"
  shows "page_slice q xs =
    take (nat (sint (Limit (NewPageQuery p l)))) (drop (i * nat (sint (Limit (NewPageQuery p l)))) xs)"
proof -
  let ?k = "sint (Limit (NewPageQuery p l))"
  have k: "1 \<le> ?k" by (rule NewPageQuery_bounds)
  have lim: "Limit q = Limit (NewPageQuery p l)"
    unfolding q by (rule Limit_NewPageQuery_any)
  have page: "sint (of_nat (i + 1) :: go_int) = int i + 1"
    using assms(2) by (subst sint64_of_nat) simp_all
  then have "Page q = of_nat (i + 1)" unfolding q by (intro NewPageQuery_Page) simp
  then have pq: "sint (Page q) = int i + 1" using page by simp
  have "int (i * nat ?k) < 2 ^ 63"
    using assms(1) by (simp only: of_nat_less_numeral_power_cancel_iff)
  then have "int i * ?k < 2 ^ 63" using k by simp
  then have "sint (Offset q) = int i * ?k"
    using k pq lim by (subst Offset_exact) simp_all
  then have "nat (sint (Offset q)) = i * nat ?k"
    by (simp add: nat_mult_distrib)
  with lim show ?thesis by (simp add: page_slice_def)
qed

text \<open>The slice of a page whose offset does not overflow, and the number of pages.\<close>

lemma page_slice_exact:
  assumes "q = NewPageQuery p l" and "(sint (Page q) - 1) * sint (Limit q) < 2 ^ 63"
  shows "0 \<le> sint (Offset q)"
    and "page_slice q xs = take (nat (sint (Limit q))) (drop (nat ((sint (Page q) - 1) * sint (Limit q))) xs)"
proof -
  note bounds = NewPageQuery_bounds [of p l, folded assms(1)]
  have "sint (Offset q) = (sint (Page q) - 1) * sint (Limit q)"
    using Offset_exact [OF bounds(1,2) assms(2)] .
  with bounds show "0 \<le> sint (Offset q)"
    and "page_slice q xs = take (nat (sint (Limit q))) (drop (nat ((sint (Page q) - 1) * sint (Limit q))) xs)"
    by (simp_all add: page_slice_def)
qed

lemma TotalPages_NewPageQuery:
  assumes "n < 2 ^ 62" and m: "NewPageMeta (NewPageQuery page limit) (of_nat n) = Some m"
  shows "nat (sint (TotalPages m)) = (n + nat (sint (Limit (NewPageQuery page limit))) - 1)
    div nat (sint (Limit (NewPageQuery page limit)))"
proof -
  let ?k = "nat (sint (Limit (NewPageQuery page limit)))"
  note lim = NewPageQuery_bounds(2,3) [of page limit]
  have cnt: "sint (of_nat n :: go_int) = int n"
    using assms(1) by (intro sint64_of_nat) simp
  have len: "int n < 2 ^ 62"
    using assms(1) by (simp only: of_nat_less_numeral_power_cancel_iff)
  have "sint (TotalPages m) = (int n + sint (Limit (NewPageQuery page limit)) - 1)
      div sint (Limit (NewPageQuery page limit))"
    using TotalPages_exact [OF lim _ _ m] cnt len by simp
  also have "\<dots> = int ((n + ?k - 1) div ?k)"
    using lim by (simp add: zdiv_int)
  finally show ?thesis by simp
qed

text \<open>C26: The pages cut the rows without gap or overlap: for every table of fewer than 2 ^ 62 rows
  and every requested page size, the pages 1 to \<open>TotalPages\<close> of the response's meta block, one
  after the other, are exactly the rows.\<close>

theorem pages_partition_rows:
  assumes "length xs < 2 ^ 62"
  shows "\<exists>m. NewPageMeta (NewPageQuery page limit) (of_nat (length xs)) = Some m \<and>
    concat (map (\<lambda>i. page_slice (NewPageQuery (of_nat (i + 1)) limit) xs)
      [0..<nat (sint (TotalPages m))]) = xs"
proof -
  let ?q = "NewPageQuery page limit"
  let ?k = "nat (sint (Limit ?q))"
  obtain m where m: "NewPageMeta ?q (of_nat (length xs)) = Some m"
    by (simp add: NewPageMeta_def)
  note lim = NewPageQuery_bounds(2,3) [of page limit]
  let ?n = "nat (sint (TotalPages m))"
  have n: "?n = (length xs + ?k - 1) div ?k"
    by (rule TotalPages_NewPageQuery [OF assms m])
  have k: "1 \<le> ?k" "?k \<le> 100" using lim by simp_all
  have slices: "page_slice (NewPageQuery (of_nat (i + 1)) limit) xs = take ?k (drop (i * ?k) xs)"
    if "i < ?n" for i
  proof (rule page_slice_nth [OF _ _ refl])
    have "i * ?k < length xs"
      using that n less_ceil_div_iff [OF k(1), of i] by simp
    then show "i * ?k < 2 ^ 63" "i < 2 ^ 62"
      using assms k by (simp_all add: order_le_less_trans [of i "i * ?k"])
  qed
  have all: "length xs \<le> ?n * ?k"
    using le_ceil_div [OF k(1), of "length xs"] n by simp
  have "map (\<lambda>i. page_slice (NewPageQuery (of_nat (i + 1)) limit) xs) [0..<?n] =
      map (\<lambda>i. take ?k (drop (i * ?k) xs)) [0..<?n]"
    by (intro map_cong refl slices) simp
  then have "concat (map (\<lambda>i. page_slice (NewPageQuery (of_nat (i + 1)) limit) xs) [0..<?n]) = xs"
    by (simp only: concat_slices take_all [OF all])
  with m show ?thesis by blast
qed

theorem pages_partition_rows_witness:
  "\<exists>m. NewPageMeta (NewPageQuery 1 2) 3 = Some m \<and>
    concat (map (\<lambda>i. page_slice (NewPageQuery (of_nat (i + 1)) 2) ''abc'') [0..<nat (sint (TotalPages m))]) = ''abc''"
  using pages_partition_rows [of "''abc''" 1 2] by simp

text \<open>A page number beyond the last page is not always an empty page. \<open>(Page - 1) * Limit\<close> wraps
  around, so page 2 ^ 62 + 1 with 100 rows per page starts at offset 0 and is the first page, while
  the meta block still reports the page that was asked for.\<close>

theorem far_page_wraps_to_first:
  "page_slice (NewPageQuery 4611686018427387905 100) xs = page_slice (NewPageQuery 1 100) xs \<and>
   (\<exists>m. NewPageMeta (NewPageQuery 4611686018427387905 100) cnt = Some m \<and>
        mt_Page m = 4611686018427387905)"
  by (simp add: page_slice_def NewPageQuery_def Offset_def NewPageMeta_def paging_consts)

end
