(* ===== verification/Http.thy ===== *)
theory Http
  imports App_Error Paging
begin

text \<open>
  The data that crosses the HTTP boundary: the task model and its data transfer objects
  (\<open>internal/modules/task/model.go\<close> and \<open>dto.go\<close>), the login response and the identity of
  \<open>internal/modules/auth\<close>, the response envelope and helpers of \<open>internal/httpx\<close>, and the
  part of a \<open>fiber.Ctx\<close> that the program reads and writes.
\<close>

section \<open>The task model and its data transfer objects\<close>

record Task =
  ID :: go_uint
  Title :: string
  Done :: bool
  DueDate :: "gotime option"
  CreatedAt :: gotime
  UpdatedAt :: gotime
  DeletedAt :: "gotime option"

definition TableName :: string where "TableName = ''tasks''"

record CreateRequest =
  Title_c :: string
  DueDate_c :: "gotime option"

text \<open>\<open>NullableTime\<close> tells an absent field, an explicit null and a value apart.\<close>

record NullableTime =
  Set_n :: bool
  Null_n :: bool
  Value_n :: gotime

definition zero_NullableTime :: NullableTime where
  "zero_NullableTime = \<lparr>Set_n = False, Null_n = False, Value_n = 0\<rparr>"

text \<open>
  \<open>UnmarshalJSON\<close>; \<open>unmarshal\<close> stands for \<open>json.Unmarshal\<close> into the \<open>time.Time\<close> field. The
  receiver is updated even when the value does not parse.
\<close>

definition UnmarshalJSON ::
  "(string \<Rightarrow> goerr + gotime) \<Rightarrow> string \<Rightarrow> NullableTime \<Rightarrow> goerr option \<times> NullableTime" where
  "UnmarshalJSON unmarshal data n =
     (let n = n\<lparr>Set_n := True\<rparr>
      in if data = ''null'' then (None, n\<lparr>Null_n := True\<rparr>)
         else case unmarshal data of
                Inl e \<Rightarrow> (Some e, n)
              | Inr v \<Rightarrow> (None, n\<lparr>Value_n := v\<rparr>))"

record UpdateRequest =
  Title_u :: "string option"
  Done_u :: "bool option"
  DueDate_u :: NullableTime

record Response =
  ID_r :: go_uint
  Title_r :: string
  Done_r :: bool
  DueDate_r :: "gotime option"
  CreatedAt_r :: gotime
  UpdatedAt_r :: gotime

definition toResponse :: "Task \<Rightarrow> Response" where
  "toResponse t =
     \<lparr>ID_r = ID t, Title_r = Title t, Done_r = Done t, DueDate_r = DueDate t,
      CreatedAt_r = CreatedAt t, UpdatedAt_r = UpdatedAt t\<rparr>"

fun toResponses_loop :: "Response list \<Rightarrow> Task list \<Rightarrow> Response list" where
  "toResponses_loop out [] = out"
| "toResponses_loop out (t # tasks) = toResponses_loop (out @ [toResponse t]) tasks"

definition toResponses :: "Task list \<Rightarrow> Response list" where
  "toResponses tasks = toResponses_loop [] tasks"

lemma toResponses_map: "toResponses tasks = map toResponse tasks"
proof -
  have "toResponses_loop out tasks = out @ map toResponse tasks" for out
    by (induction tasks arbitrary: out) simp_all
  then show ?thesis by (simp add: toResponses_def)
qed

lemma toResponse_sel [simp]:
  "ID_r (toResponse t) = ID t" "Title_r (toResponse t) = Title t"
  "Done_r (toResponse t) = Done t" "DueDate_r (toResponse t) = DueDate t"
  "CreatedAt_r (toResponse t) = CreatedAt t" "UpdatedAt_r (toResponse t) = UpdatedAt t"
  by (simp_all add: toResponse_def)

text \<open>The three JSON forms of \<open>due_date\<close> stay apart after decoding: a field that is absent, one
  that is \<open>null\<close> and one that holds a value are told apart by \<open>Set\<close> and \<open>Null\<close>, and a value is
  kept.\<close>

theorem nullable_time_three_states:
  fixes dec :: "string option \<Rightarrow> goerr option \<times> NullableTime"
    and unmarshal :: "string \<Rightarrow> goerr + gotime"
  defines "dec \<equiv> \<lambda>raw. case raw of None \<Rightarrow> (None, zero_NullableTime)
                                   | Some d \<Rightarrow> UnmarshalJSON unmarshal d zero_NullableTime"
  assumes "d \<noteq> ''null''" and "unmarshal d = Inr v"
  shows "fst (dec None) = None \<and> \<not> Set_n (snd (dec None)) \<and>
         fst (dec (Some ''null'')) = None \<and> Set_n (snd (dec (Some ''null''))) \<and>
         Null_n (snd (dec (Some ''null''))) \<and>
         fst (dec (Some d)) = None \<and> Set_n (snd (dec (Some d))) \<and>
         \<not> Null_n (snd (dec (Some d))) \<and> Value_n (snd (dec (Some d))) = v"
  using assms(2,3) by (simp add: dec_def UnmarshalJSON_def zero_NullableTime_def)

theorem nullable_time_three_states_witness:
  "Value_n (snd (UnmarshalJSON (\<lambda>d. Inr 5) ''5'' zero_NullableTime)) = 5"
  using nullable_time_three_states [of "''5''" "\<lambda>d. Inr 5" 5] by simp

section \<open>Login\<close>

record Identity =
  Username :: string

record LoginRequest =
  Username_l :: string
  Password_l :: string

record LoginResponse =
  Token :: string
  TokenType :: string
  ExpiresAt :: gotime

section \<open>Envelopes\<close>

text \<open>The values the handlers put into \<open>Envelope.Data\<close>.\<close>

datatype payload = TaskData Response | TaskList "Response list" | LoginData LoginResponse

record ErrorInfo =
  ei_Code :: string
  ei_Message :: string
  ei_Details :: "Detail list"

record Envelope =
  Success :: bool
  Data :: "payload option"
  Error_env :: "ErrorInfo option"
  Meta :: "PageMeta option"

definition ErrorBody :: "app_error \<Rightarrow> Envelope" where
  "ErrorBody appErr =
     \<lparr>Success = False, Data = None,
      Error_env = Some \<lparr>ei_Code = Code appErr, ei_Message = Message appErr,
                        ei_Details = Details appErr\<rparr>,
      Meta = None\<rparr>"

text \<open>
  What a response carries: nothing, an envelope, the JSON object of a probe or bytes under a content type.
\<close>

datatype json =
    JNull
  | JBool bool
  | JNum int
  | JStr string
  | JArr "json list"
  | JObj "(string \<times> json) list"

datatype http_body =
    EmptyBody
  | JSONEnvelope Envelope
  | JSONProbe json
  | RawBody string string

section \<open>Contexts\<close>

text \<open>
  The part of a \<open>fiber.Ctx\<close> the program uses: the request (method, path, query, path
  parameters, headers, body, client address and the request id), the pattern of the matched
  route, the response as far as it has been written, and the identity in \<open>Locals\<close>.
\<close>

record Ctx =
  Method :: string
  Path :: string
  Query :: "string \<Rightarrow> string"
  Params :: "string \<Rightarrow> string"
  Header :: "string \<Rightarrow> string"
  ReqBody :: string
  IP :: string
  RequestID :: string
  RoutePath :: string
  StatusCode :: int
  RespBody :: http_body
  Locals :: "Identity option"

text \<open>A handler returns an error (\<open>None\<close> for nil) and leaves a context and a state.\<close>

type_synonym 's outcome = "goerr option \<times> Ctx \<times> 's"
type_synonym 's handler = "Ctx \<Rightarrow> 's \<Rightarrow> 's outcome"

definition set_status :: "int \<Rightarrow> Ctx \<Rightarrow> Ctx" where
  [http_defs]: "set_status n c = c\<lparr>StatusCode := n\<rparr>"

definition send_json :: "http_body \<Rightarrow> Ctx \<Rightarrow> Ctx" where
  [http_defs]: "send_json b c = c\<lparr>RespBody := b\<rparr>"

definition OK :: "Ctx \<Rightarrow> payload \<Rightarrow> 's \<Rightarrow> 's outcome" where
  [http_defs]: "OK c data s =
     (None,
      send_json (JSONEnvelope \<lparr>Success = True, Data = Some data, Error_env = None, Meta = None\<rparr>) c,
      s)"

definition Created :: "Ctx \<Rightarrow> payload \<Rightarrow> 's \<Rightarrow> 's outcome" where
  [http_defs]: "Created c data s =
     (None,
      send_json (JSONEnvelope \<lparr>Success = True, Data = Some data, Error_env = None, Meta = None\<rparr>)
        (set_status 201 c),
      s)"

definition OKWithMeta :: "Ctx \<Rightarrow> payload \<Rightarrow> PageMeta \<Rightarrow> 's \<Rightarrow> 's outcome" where
  [http_defs]: "OKWithMeta c data meta s =
     (None,
      send_json
        (JSONEnvelope \<lparr>Success = True, Data = Some data, Error_env = None, Meta = Some meta\<rparr>) c,
      s)"

definition NoContent :: "Ctx \<Rightarrow> 's \<Rightarrow> 's outcome" where
  [http_defs]: "NoContent c s = (None, send_json EmptyBody (set_status 204 c), s)"

end
