(* ===== verification/Middleware.thy ===== *)
theory Middleware
  imports Http
begin

text \<open>
  The package \<open>internal/middleware\<close>: the status that a request will have been answered with
  (\<open>effective_status.go\<close>), the metrics (\<open>prometheus.go\<close>) and the request log
  (\<open>requestlogger.go\<close>), over the clock of \<open>clock.go\<close>.

  The state is the record \<open>server\<close>: the store of the application, what the libraries keep (the
  windows of the rate limiters), the log that has been
  written, the two metrics as functions of their labels, and the time. A middleware takes the
  handler that \<open>c.Next()\<close> runs.
\<close>

section \<open>The state of a server\<close>

datatype log_level = LDebug | LInfo | LWarn | LError

instantiation log_level :: linorder
begin

fun slog_level :: "log_level \<Rightarrow> int" where
  "slog_level LDebug = - 4"
| "slog_level LInfo = 0"
| "slog_level LWarn = 4"
| "slog_level LError = 8"

definition less_eq_log_level :: "log_level \<Rightarrow> log_level \<Rightarrow> bool" where
  "less_eq_log_level a b \<longleftrightarrow> slog_level a \<le> slog_level b"

definition less_log_level :: "log_level \<Rightarrow> log_level \<Rightarrow> bool" where
  "less_log_level a b \<longleftrightarrow> slog_level a < slog_level b"

instance
proof
  fix a b c :: log_level
  show "a < b \<longleftrightarrow> a \<le> b \<and> \<not> b \<le> a" by (auto simp: less_eq_log_level_def less_log_level_def)
  show "a \<le> a" by (simp add: less_eq_log_level_def)
  show "a \<le> b \<Longrightarrow> b \<le> c \<Longrightarrow> a \<le> c" by (simp add: less_eq_log_level_def)
  show "a \<le> b \<Longrightarrow> b \<le> a \<Longrightarrow> a = b"
    by (cases a; cases b) (simp_all add: less_eq_log_level_def)
  show "a \<le> b \<or> b \<le> a" by (auto simp: less_eq_log_level_def)
qed

end

text \<open>The attribute values the code logs; \<open>AMillis\<close> is a number of microseconds over 1000.\<close>

datatype attr = AStr string | AInt int | AMillis int

record log_entry =
  le_level :: log_level
  le_msg :: string
  le_attrs :: "(string \<times> attr) list"

record ('d, 'l) server =
  Store :: 'd
  LibState :: 'l
  Logs :: "log_entry list"
  RequestsTotal :: "string \<times> string \<times> string \<Rightarrow> nat"
  Durations :: "string \<times> string \<Rightarrow> duration list"
  Now :: gotime

type_synonym 's middleware = "'s handler \<Rightarrow> 's handler"

text \<open>A handler that only touches the store.\<close>

definition on_store :: "'d handler \<Rightarrow> ('d, 'l) server handler" where
  [http_defs]: "on_store h c s = (case h c (Store s) of (e, c', d) \<Rightarrow> (e, c', s\<lparr>Store := d\<rparr>))"

text \<open>\<open>clock.go\<close>: both read the clock of the state.\<close>

definition timeNow :: "('d, 'l) server \<Rightarrow> gotime" where
  "timeNow s = Now s"

definition timeSince :: "gotime \<Rightarrow> ('d, 'l) server \<Rightarrow> duration" where
  "timeSince t s = Now s - t"

definition write_log :: "log_level \<Rightarrow> string \<Rightarrow> (string \<times> attr) list \<Rightarrow> ('d, 'l) server \<Rightarrow> ('d, 'l) server" where
  [http_defs]: "write_log l msg attrs s =
     s\<lparr>Logs := Logs s @ [\<lparr>le_level = l, le_msg = msg, le_attrs = attrs\<rparr>]\<rparr>"

section \<open>The effective status\<close>

definition EffectiveStatus :: "Ctx \<Rightarrow> goerr option \<Rightarrow> int" where
  "EffectiveStatus c e =
     (case e of
        None \<Rightarrow> StatusCode c
      | Some e \<Rightarrow>
          (case as_fiber e of
             Some (code, m) \<Rightarrow> code
           | None \<Rightarrow>
               let status = Status (AsAppError e)
               in if status \<ge> 500 then 500 else status))"

section \<open>Metrics\<close>

text \<open>
  What is handed to \<open>MustRegister\<close>: the registry is the list of its collectors. The counts themselves
  are \<open>RequestsTotal\<close> and \<open>Durations\<close> of the state. Buckets are in milliseconds.
\<close>

datatype collector =
    GoCollector
  | ProcessCollector
  | CounterVec string "string list"
  | HistogramVec string "string list" "nat list"

type_synonym registry = "collector list"

definition metricsNamespace :: string where "metricsNamespace = ''http''"

record Prometheus =
  requestsTotal :: collector
  duration_p :: collector

definition NewPrometheus :: "registry \<Rightarrow> Prometheus \<times> registry" where
  "NewPrometheus reg =
     (let p = \<lparr>requestsTotal = CounterVec (metricsNamespace @ ''_requests_total'') [''method'', ''route'', ''status''],
               duration_p = HistogramVec (metricsNamespace @ ''_request_duration_seconds'') [''method'', ''route'']
                 [5, 10, 25, 50, 100, 250, 500, 1000, 2500, 5000]\<rparr>
      in (p, reg @ [requestsTotal p, duration_p p]))"

definition route_label :: "Ctx \<Rightarrow> string" where
  "route_label c = (let route = RoutePath c in if route = [] then ''unmatched'' else route)"

definition prom_Handler :: "('d, 'l) server middleware" where
  "prom_Handler next c s =
     (let start = timeNow s;
          (e, c', s') = next c s;
          route = route_label c';
          status = Itoa (EffectiveStatus c' e);
          k = (Method c', route, status);
          s1 = s'\<lparr>RequestsTotal := (RequestsTotal s')(k := RequestsTotal s' k + 1)\<rparr>;
          d = (Method c', route)
      in (e, c', s1\<lparr>Durations := (Durations s1)(d := Durations s1 d @ [timeSince start s1])\<rparr>))"

section \<open>The request log\<close>

definition level_of :: "int \<Rightarrow> log_level" where
  "level_of status = (if status \<ge> 500 then LError else if status \<ge> 400 then LWarn else LInfo)"

definition RequestLogger :: "('d, 'l) server middleware" where
  "RequestLogger next c s =
     (let start = timeNow s;
          (e, c', s') = next c s;
          reqID = RequestID c';
          status = EffectiveStatus c' e;
          fields = [(''method'', AStr (Method c')), (''path'', AStr (Path c')),
                    (''status'', AInt status),
                    (''latency_ms'', AMillis (timeSince start s' sdiv 1000)),
                    (''ip'', AStr (IP c'))];
          fields = (if reqID \<noteq> [] then fields @ [(''request_id'', AStr reqID)] else fields)
      in (e, c', write_log (level_of status) ''http_request'' fields s'))"

text \<open>A request and a server without history, for the witnesses.\<close>

definition plain_ctx :: Ctx where
  "plain_ctx =
     \<lparr>Method = ''GET'', Path = ''/'', Query = (\<lambda>_. []), Params = (\<lambda>_. []), Header = (\<lambda>_. []),
      ReqBody = [], IP = ''10.0.0.9'', RequestID = ''r1'', RoutePath = [], StatusCode = 200,
      RespBody = EmptyBody, Locals = None\<rparr>"

definition plain_server :: "(unit, unit) server" where
  "plain_server =
     \<lparr>Store = (), LibState = (), Logs = [], RequestsTotal = (\<lambda>_. 0), Durations = (\<lambda>_. []), Now = 0\<rparr>"

text \<open>The request log has exactly one more entry after each request, at the level that the status
  calls for, and the entry names the effective status; it never changes what the handler
  returned, its context or the store.\<close>

theorem request_log_one_entry:
  assumes "next c s = (e, c', s')" and "RequestLogger next c s = (e2, c2, s2)"
  shows "e2 = e \<and> c2 = c' \<and> Store s2 = Store s' \<and>
    (\<exists>le. Logs s2 = Logs s' @ [le] \<and> (''status'', AInt (EffectiveStatus c' e)) \<in> set (le_attrs le) \<and>
      (le_level le = LError \<longleftrightarrow> 500 \<le> EffectiveStatus c' e) \<and>
      (LWarn \<le> le_level le \<longleftrightarrow> 400 \<le> EffectiveStatus c' e))"
  using assms
  by (auto simp: RequestLogger_def Let_def write_log_def level_of_def less_eq_log_level_def)

theorem request_log_one_entry_witness:
  "\<exists>e c s. RequestLogger (\<lambda>c s. (Some (AppErr ErrNotFound), c, s)) plain_ctx plain_server = (e, c, s) \<and>
     (\<exists>le. Logs s = [le] \<and> le_level le \<noteq> LError \<and> LWarn \<le> le_level le)"
proof -
  obtain e c s where run: "RequestLogger (\<lambda>c s. (Some (AppErr ErrNotFound), c, s)) plain_ctx plain_server = (e, c, s)"
    by (cases "RequestLogger (\<lambda>c s. (Some (AppErr ErrNotFound), c, s)) plain_ctx plain_server")
  show ?thesis
    using request_log_one_entry [OF refl run] run
    by (auto simp: EffectiveStatus_def ErrNotFound_def plain_server_def)
qed

text \<open>A request adds one to exactly one series of \<open>http_requests_total\<close>, the one of its method, its
  route pattern and the decimal form of its effective status, and one observation to exactly one
  series of the latencies; everything else is handed through.\<close>

theorem prometheus_counts_once:
  assumes "next c s = (e, c', s')" and "prom_Handler next c s = (e2, c2, s2)"
  shows "e2 = e \<and> c2 = c' \<and> Store s2 = Store s' \<and> Logs s2 = Logs s' \<and>
    (\<forall>k. RequestsTotal s2 k = RequestsTotal s' k +
       (if k = (Method c', route_label c', Itoa (EffectiveStatus c' e)) then 1 else 0)) \<and>
    (\<forall>k. length (Durations s2 k) = length (Durations s' k) +
       (if k = (Method c', route_label c') then 1 else 0))"
  using assms by (auto simp: prom_Handler_def Let_def)

theorem prometheus_counts_once_witness:
  "\<exists>e c s. prom_Handler (\<lambda>c s. (Some (AppErr ErrNotFound), c, s)) plain_ctx plain_server = (e, c, s) \<and>
     RequestsTotal s (''GET'', ''unmatched'', Itoa 404) = 1"
proof -
  obtain e c s where run: "prom_Handler (\<lambda>c s. (Some (AppErr ErrNotFound), c, s)) plain_ctx plain_server = (e, c, s)"
    by (cases "prom_Handler (\<lambda>c s. (Some (AppErr ErrNotFound), c, s)) plain_ctx plain_server")
  show ?thesis
    using prometheus_counts_once [OF refl run] run
    by (simp add: EffectiveStatus_def ErrNotFound_def plain_server_def plain_ctx_def route_label_def)
qed

end
