(* ===== verification/Net_Std.thy ===== *)
theory Net_Std
  imports Go_Std
begin

text \<open>
  The parts of Go's packages \<open>net\<close> and \<open>net/netip\<close> that the configuration uses: whether a string
  is an IP address (\<open>net.ParseIP\<close>) or a CIDR block (\<open>net.ParseCIDR\<close>). The parsers follow the
  library's; they keep the width of the address and the zone, which is all the callers look at,
  and drop the bytes of the address.
\<close>

section \<open>IPv4\<close>

text \<open>
  \<open>parseIPv4Fields\<close>: \<open>first\<close> says whether nothing has been read, \<open>prevdot\<close> whether the last
  character was a dot, \<open>digLen\<close>, \<open>val\<close> and \<open>pos\<close> are the library's.
\<close>

fun ipv4_fields :: "bool \<Rightarrow> bool \<Rightarrow> nat \<Rightarrow> nat \<Rightarrow> nat \<Rightarrow> string \<Rightarrow> bool" where
  "ipv4_fields first prevdot digLen val pos [] = (3 \<le> pos)"
| "ipv4_fields first prevdot digLen val pos (c # s) =
     (case digit_val c of
        Some d \<Rightarrow>
          if digLen = 1 \<and> val = 0 then False
          else let val = val * 10 + d
               in if val > 255 then False else ipv4_fields False False (digLen + 1) val pos s
      | None \<Rightarrow>
          if c = CHR ''.'' then
            (if first \<or> s = [] \<or> prevdot then False
             else if pos = 3 then False
             else ipv4_fields False True 0 0 (pos + 1) s)
          else False)"

definition parseIPv4Fields :: "string \<Rightarrow> bool" where
  "parseIPv4Fields s = ipv4_fields True False 0 0 0 s"

section \<open>IPv6\<close>

definition hex_val :: "char \<Rightarrow> nat option" where
  "hex_val c =
     (let n = of_char c
      in if 48 \<le> n \<and> n \<le> 57 then Some (n - 48)
         else if 97 \<le> n \<and> n \<le> 102 then Some (n - 87)
         else if 65 \<le> n \<and> n \<le> 70 then Some (n - 55) else None)"

definition is_hex :: "char \<Rightarrow> bool" where
  "is_hex c \<longleftrightarrow> hex_val c \<noteq> None"

text \<open>
  The loop of \<open>parseIPv6\<close>: \<open>i\<close> counts the bytes filled, \<open>ell\<close> says whether \<open>::\<close> was seen. A group
  has one to four hexadecimal digits, which never exceed 16 bits. Each round consumes a digit.
\<close>

definition ipv6_done :: "nat \<Rightarrow> bool \<Rightarrow> string \<Rightarrow> bool" where
  "ipv6_done i ell s \<longleftrightarrow> s = [] \<and> (if i < 16 then ell else \<not> ell)"

function ipv6_groups :: "nat \<Rightarrow> bool \<Rightarrow> string \<Rightarrow> bool" where
  "ipv6_groups i ell s =
     (if \<not> i < 16 then ipv6_done i ell s
      else
        let grp = takeWhile is_hex s; rest = dropWhile is_hex s
        in if grp = [] \<or> 4 < length grp then False
           else case rest of
             [] \<Rightarrow> ipv6_done (i + 2) ell []
           | c # cs \<Rightarrow>
               if c = CHR ''.'' then
                 (if \<not> ell \<and> i \<noteq> 12 then False else if i + 4 > 16 then False
                  else if parseIPv4Fields s then ipv6_done (i + 4) ell [] else False)
               else if c \<noteq> CHR '':'' then False
               else (case cs of
                       [] \<Rightarrow> False
                     | d # ds \<Rightarrow>
                         if d = CHR '':'' then
                           (if ell then False
                            else if ds = [] then ipv6_done (i + 2) True []
                            else ipv6_groups (i + 2) True ds)
                         else ipv6_groups (i + 2) ell cs))"
  by pat_completeness auto

termination
  by (relation "measure (\<lambda>(i, ell, s). 16 - i)") auto

declare ipv6_groups.simps [simp del]

text \<open>\<open>strings.Cut\<close> at a character.\<close>

fun cut_at :: "char \<Rightarrow> string \<Rightarrow> (string \<times> string) option" where
  "cut_at x [] = None"
| "cut_at x (c # s) =
     (if c = x then Some ([], s)
      else case cut_at x s of None \<Rightarrow> None | Some (a, b) \<Rightarrow> Some (c # a, b))"

definition parseIPv6 :: "string \<Rightarrow> (nat \<times> string) option" where
  "parseIPv6 inp =
     (let (s, zone, ok) = (case cut_at (CHR ''%'') inp of
                             None \<Rightarrow> (inp, [], True)
                           | Some (s, zone) \<Rightarrow> (s, zone, zone \<noteq> []))
      in if \<not> ok then None
         else if HasPrefix s ''::'' then
           (if drop 2 s = [] \<or> ipv6_groups 0 True (drop 2 s) then Some (128, zone) else None)
         else if ipv6_groups 0 False s then Some (128, zone) else None)"

section \<open>Addresses and blocks\<close>

text \<open>\<open>netip.ParseAddr\<close>: the first dot, colon or percent sign decides. The result is the width of
  the address in bits and its zone.\<close>

fun ParseAddr_loop :: "string \<Rightarrow> string \<Rightarrow> (nat \<times> string) option" where
  "ParseAddr_loop s [] = None"
| "ParseAddr_loop s (c # t) =
     (if c = CHR ''.'' then (if parseIPv4Fields s then Some (32, []) else None)
      else if c = CHR '':'' then parseIPv6 s
      else if c = CHR ''%'' then None
      else ParseAddr_loop s t)"

definition ParseAddr :: "string \<Rightarrow> (nat \<times> string) option" where
  "ParseAddr s = ParseAddr_loop s s"

definition ParseIP :: "string \<Rightarrow> bool" where
  "ParseIP s = (case ParseAddr s of None \<Rightarrow> False | Some (bits, zone) \<Rightarrow> zone = [])"

text \<open>\<open>dtoi\<close> gives up at \<open>0xFFFFFF\<close>. The result is the number and what follows its digits.\<close>

fun dtoi_loop :: "nat \<Rightarrow> string \<Rightarrow> (nat \<times> string) option" where
  "dtoi_loop n [] = Some (n, [])"
| "dtoi_loop n (c # s) =
     (case digit_val c of
        None \<Rightarrow> Some (n, c # s)
      | Some d \<Rightarrow> let n = n * 10 + d in if n \<ge> 0xFFFFFF then None else dtoi_loop n s)"

definition dtoi :: "string \<Rightarrow> (nat \<times> string) option" where
  "dtoi s = (if s = [] \<or> digit_val (hd s) = None then None else dtoi_loop 0 s)"

definition ParseCIDR :: "string \<Rightarrow> bool" where
  "ParseCIDR s =
     (case cut_at (CHR ''/'') s of
        None \<Rightarrow> False
      | Some (addr, msk) \<Rightarrow>
          (case ParseAddr addr of
             None \<Rightarrow> False
           | Some (bits, zone) \<Rightarrow>
               if zone \<noteq> [] then False
               else case dtoi msk of
                      None \<Rightarrow> False
                    | Some (n, rest) \<Rightarrow> rest = [] \<and> n \<le> bits))"

section \<open>Examples\<close>

lemmas net_eval =
  ParseIP_def ParseAddr_def ParseCIDR_def parseIPv4Fields_def parseIPv6_def dtoi_def
  digit_val_def is_hex_def hex_val_def ipv6_done_def ipv6_groups.simps Let_def HasPrefix_def

lemma ParseIP_examples:
  "ParseIP ''10.0.0.1''" "\<not> ParseIP ''10.0.0.01''" "\<not> ParseIP ''10.0.0''" "\<not> ParseIP ''10.0.0.256''"
  "ParseIP ''::1''" "ParseIP ''fe80::1:2''" "\<not> ParseIP ''fe80::1%eth0''" "ParseIP ''::ffff:10.0.0.1''"
  "\<not> ParseIP ''1:2:3:4:5:6:7''" "ParseIP ''1:2:3:4:5:6:7:8''" "\<not> ParseIP ''1::2::3''" "\<not> ParseIP ''''"
  "ParseIP ''::''" "\<not> ParseIP '':::''" "\<not> ParseIP ''1:2:3:4:5:6:7::8''"
  by (simp_all add: net_eval)

lemma ParseCIDR_examples:
  "ParseCIDR ''10.0.0.0/8''" "\<not> ParseCIDR ''10.0.0.0/33''" "ParseCIDR ''fd00::/8''"
  "\<not> ParseCIDR ''10.0.0.0/''" "\<not> ParseCIDR ''10.0.0.0''" "\<not> ParseCIDR ''10.0.0.0/8x''"
  by (simp_all add: net_eval)

end
