(* ===== verification/Config.thy ===== *)
theory Config
  imports App_Error Net_Std
begin

text \<open>
  The package \<open>internal/config\<close>: the record \<open>Config\<close> with the rules \<open>Validate\<close> checks, and \<open>Load\<close>.
  \<open>Validate\<close> collects its findings as (format, arguments) pairs, in the order of the code;
  \<open>fmt.Sprintf\<close> is the parameter \<open>sprintf\<close>. The environment parser is a parameter of \<open>Load\<close>.
\<close>

section \<open>The configuration\<close>

definition EnvLocal :: string where "EnvLocal = ''local''"
definition EnvDev :: string where "EnvDev = ''dev''"
definition EnvProd :: string where "EnvProd = ''prod''"

definition DBDriverPostgres :: string where "DBDriverPostgres = ''postgres''"
definition DBDriverMySQL :: string where "DBDriverMySQL = ''mysql''"
definition DBDriverSQLite :: string where "DBDriverSQLite = ''sqlite''"

definition DefaultDemoUsername :: string where "DefaultDemoUsername = ''admin''"
definition DefaultDemoPassword :: string where "DefaultDemoPassword = ''admin123''"

lemmas config_consts =
  EnvLocal_def EnvDev_def EnvProd_def DBDriverPostgres_def DBDriverMySQL_def DBDriverSQLite_def
  DefaultDemoUsername_def DefaultDemoPassword_def

record Config =
  AppName :: string
  Env :: string
  Port :: int
  LogLevel :: string
  DBDriver :: string
  DBDSN :: string
  DBMaxOpenConns :: int
  DBMaxIdleConns :: int
  DBConnMaxLifetime :: duration
  DBAutoMigrate :: bool
  DBSlowQueryThreshold :: duration
  CORSAllowedOrigins :: "string list"
  RateLimitPerMinute :: int
  AuthRateLimitPerMinute :: int
  TrustProxy :: bool
  TrustProxyProxies :: "string list"
  TrustProxyHeader :: string
  ReadTimeout :: duration
  WriteTimeout :: duration
  IdleTimeout :: duration
  ShutdownGracePeriod :: duration
  AuthEnabled :: bool
  AuthJWTSecret :: string
  AuthTokenTTL :: duration
  AuthDemoUsername :: string
  AuthDemoPassword :: string
  BuildCommit :: string

definition IsProd :: "Config \<Rightarrow> bool" where
  "IsProd c \<longleftrightarrow> Env c = EnvProd"

definition isValidPort :: "int \<Rightarrow> bool" where
  "isValidPort p \<longleftrightarrow> p \<ge> 1024 \<and> p \<le> 65535"

section \<open>Validation\<close>

datatype fmt_arg = ArgS string | ArgI int | ArgD duration

type_synonym problem = "string \<times> fmt_arg list"

text \<open>The loops over the proxies and over the timeouts.\<close>

fun proxy_problems :: "problem list \<Rightarrow> string list \<Rightarrow> problem list" where
  "proxy_problems ps [] = ps"
| "proxy_problems ps (p # rest) =
     (if \<not> ParseIP p \<and> \<not> ParseCIDR p
      then proxy_problems
             (ps @ [(''TRUST_PROXY_PROXIES entry %q is not a valid IP or CIDR'', [ArgS p])]) rest
      else proxy_problems ps rest)"

fun timeout_problems :: "problem list \<Rightarrow> (string \<times> duration) list \<Rightarrow> problem list" where
  "timeout_problems ps [] = ps"
| "timeout_problems ps ((name, val) # rest) =
     (if val \<le> 0
      then timeout_problems (ps @ [(''%s must be positive, got %s'', [ArgS name, ArgD val])]) rest
      else timeout_problems ps rest)"

definition addf :: "bool \<Rightarrow> string \<Rightarrow> fmt_arg list \<Rightarrow> problem list \<Rightarrow> problem list" where
  "addf b format args ps = (if b then ps @ [(format, args)] else ps)"

definition Validate_problems :: "Config \<Rightarrow> problem list" where
  "Validate_problems c =
     (let ps = [];
          ps = addf (AppName c = []) ''APP_NAME must not be empty'' [] ps;
          ps = addf (\<not> isValidPort (Port c)) ''APP_PORT %d is out of range [1024, 65535]''
                 [ArgI (Port c)] ps;
          ps = addf (Env c \<notin> {EnvLocal, EnvDev, EnvProd})
                 ''APP_ENV %q must be one of local|dev|prod'' [ArgS (Env c)] ps;
          ps = addf (ToLower (LogLevel c) \<notin> {''debug'', ''info'', ''warn'', ''error''})
                 ''LOG_LEVEL %q must be one of debug|info|warn|error'' [ArgS (LogLevel c)] ps;
          ps = addf (DBDriver c \<notin> {DBDriverPostgres, DBDriverMySQL, DBDriverSQLite})
                 ''DB_DRIVER %q must be one of postgres|mysql|sqlite'' [ArgS (DBDriver c)] ps;
          ps = addf (DBDSN c = []) ''DB_DSN must not be empty'' [] ps;
          ps = addf (DBDriver c = DBDriverSQLite \<and> Env c = EnvProd)
                 ''DB_DRIVER=sqlite is not allowed with APP_ENV=prod (use postgres or mysql)'' [] ps;
          ps = addf (DBMaxOpenConns c < 1) ''DB_MAX_OPEN_CONNS must be >= 1, got %d''
                 [ArgI (DBMaxOpenConns c)] ps;
          ps = addf (DBMaxIdleConns c < 0 \<or> DBMaxIdleConns c > DBMaxOpenConns c)
                 ''DB_MAX_IDLE_CONNS must be in [0, DB_MAX_OPEN_CONNS], got %d''
                 [ArgI (DBMaxIdleConns c)] ps;
          ps = addf (RateLimitPerMinute c < 1) ''RATE_LIMIT_PER_MINUTE must be >= 1, got %d''
                 [ArgI (RateLimitPerMinute c)] ps;
          ps = addf (IsProd c \<and> ''*'' \<in> set (CORSAllowedOrigins c))
                 ''CORS_ALLOWED_ORIGINS must not contain \"*\" when APP_ENV=prod (list explicit origins)''
                 [] ps;
          ps = addf (AuthRateLimitPerMinute c < 1)
                 ''AUTH_RATE_LIMIT_PER_MINUTE must be >= 1, got %d'' [ArgI (AuthRateLimitPerMinute c)] ps;
          ps = addf (AuthRateLimitPerMinute c > RateLimitPerMinute c)
                 ''AUTH_RATE_LIMIT_PER_MINUTE (%d) must be <= RATE_LIMIT_PER_MINUTE (%d); otherwise the global limiter caps it first''
                 [ArgI (AuthRateLimitPerMinute c), ArgI (RateLimitPerMinute c)] ps;
          ps = addf (TrustProxy c \<and> length (TrustProxyProxies c) = 0)
                 ''TRUST_PROXY_PROXIES must not be empty when TRUST_PROXY=true (an allowlist is required to prevent header spoofing)''
                 [] ps;
          ps = proxy_problems ps (TrustProxyProxies c);
          ps = addf (TrustProxy c \<and> TrustProxyHeader c = [])
                 ''TRUST_PROXY_HEADER must not be empty when TRUST_PROXY=true'' [] ps;
          ps = addf (\<not> TrustProxy c \<and> length (TrustProxyProxies c) > 0)
                 ''TRUST_PROXY_PROXIES must not be set when TRUST_PROXY=false (ineffective configuration)''
                 [] ps;
          ps = (if AuthEnabled c then
                  (let ps = addf (length (AuthJWTSecret c) < 32)
                         ''AUTH_JWT_SECRET must be >= 32 bytes when AUTH_ENABLED=true (got %d bytes)''
                         [ArgI (int (length (AuthJWTSecret c)))] ps;
                       ps = addf (AuthTokenTTL c \<le> 0) ''AUTH_TOKEN_TTL must be positive, got %s''
                         [ArgD (AuthTokenTTL c)] ps
                   in addf (Env c = EnvProd \<and> (AuthDemoUsername c = DefaultDemoUsername \<or>
                                                AuthDemoPassword c = DefaultDemoPassword))
                         ''AUTH_DEMO_USERNAME/AUTH_DEMO_PASSWORD defaults are forbidden when APP_ENV=prod (set explicit credentials or replace the demo authenticator)''
                         [] ps)
                else ps)
      in timeout_problems ps
           [(''HTTP_READ_TIMEOUT'', ReadTimeout c), (''HTTP_WRITE_TIMEOUT'', WriteTimeout c),
            (''HTTP_IDLE_TIMEOUT'', IdleTimeout c), (''SHUTDOWN_GRACE_PERIOD'', ShutdownGracePeriod c)])"

text \<open>The error: the lines joined by newlines.\<close>

fun join_lines :: "string list \<Rightarrow> string" where
  "join_lines [] = []"
| "join_lines [x] = x"
| "join_lines (x # y # xs) = x @ [CHR 0x0A] @ join_lines (y # xs)"

definition Validate :: "(string \<Rightarrow> fmt_arg list \<Rightarrow> string) \<Rightarrow> Config \<Rightarrow> goerr option" where
  "Validate sprintf c =
     (let problems = map (\<lambda>(format, args). ''  - '' @ sprintf format args) (Validate_problems c)
      in if length problems > 0 then Some (OpaqueErr (join_lines problems)) else None)"

text \<open>\<open>Load\<close>; \<open>env_parse\<close> is what reading \<open>.env\<close> and the environment gives.\<close>

definition Load :: "(string \<Rightarrow> fmt_arg list \<Rightarrow> string) \<Rightarrow> (goerr + Config) \<Rightarrow> goerr + Config" where
  "Load sprintf env_parse =
     (case env_parse of
        Inl e \<Rightarrow> Inl (WrapErr (''parse env: '' @ Error e) e)
      | Inr cfg \<Rightarrow>
          (case Validate sprintf cfg of
             Some e \<Rightarrow> Inl (WrapErr (''invalid configuration:'' @ [CHR 0x0A] @ Error e) e)
           | None \<Rightarrow> Inr cfg))"

section \<open>What a valid configuration is\<close>

text \<open>The rules, as a predicate.\<close>

definition proxies_ok :: "Config \<Rightarrow> bool" where
  "proxies_ok c \<longleftrightarrow>
     (TrustProxy c \<longleftrightarrow> TrustProxyProxies c \<noteq> []) \<and>
     list_all (\<lambda>p. ParseIP p \<or> ParseCIDR p) (TrustProxyProxies c) \<and>
     (TrustProxy c \<longrightarrow> TrustProxyHeader c \<noteq> [])"

definition auth_ok :: "Config \<Rightarrow> bool" where
  "auth_ok c \<longleftrightarrow>
     (AuthEnabled c \<longrightarrow> 32 \<le> length (AuthJWTSecret c) \<and> 0 < AuthTokenTTL c \<and>
        (IsProd c \<longrightarrow> AuthDemoUsername c \<noteq> DefaultDemoUsername \<and>
           AuthDemoPassword c \<noteq> DefaultDemoPassword))"

definition database_ok :: "Config \<Rightarrow> bool" where
  "database_ok c \<longleftrightarrow>
     DBDriver c \<in> {DBDriverPostgres, DBDriverMySQL, DBDriverSQLite} \<and> DBDSN c \<noteq> [] \<and>
     \<not> (DBDriver c = DBDriverSQLite \<and> IsProd c) \<and>
     1 \<le> DBMaxOpenConns c \<and> 0 \<le> DBMaxIdleConns c \<and> DBMaxIdleConns c \<le> DBMaxOpenConns c"

definition server_ok :: "Config \<Rightarrow> bool" where
  "server_ok c \<longleftrightarrow>
     AppName c \<noteq> [] \<and> 1024 \<le> Port c \<and> Port c \<le> 65535 \<and> Env c \<in> {EnvLocal, EnvDev, EnvProd} \<and>
     ToLower (LogLevel c) \<in> {''debug'', ''info'', ''warn'', ''error''} \<and>
     1 \<le> AuthRateLimitPerMinute c \<and> AuthRateLimitPerMinute c \<le> RateLimitPerMinute c \<and>
     (IsProd c \<longrightarrow> ''*'' \<notin> set (CORSAllowedOrigins c)) \<and>
     0 < ReadTimeout c \<and> 0 < WriteTimeout c \<and> 0 < IdleTimeout c \<and> 0 < ShutdownGracePeriod c"

definition config_ok :: "Config \<Rightarrow> bool" where
  "config_ok c \<longleftrightarrow> server_ok c \<and> database_ok c \<and> proxies_ok c \<and> auth_ok c"

lemma addf_Nil [simp]: "addf b format args ps = [] \<longleftrightarrow> \<not> b \<and> ps = []"
  by (simp add: addf_def)

lemma proxy_problems_Nil [simp]:
  "proxy_problems ps xs = [] \<longleftrightarrow> ps = [] \<and> list_all (\<lambda>p. ParseIP p \<or> ParseCIDR p) xs"
  by (induction ps xs rule: proxy_problems.induct) auto

lemma timeout_problems_Nil [simp]:
  "timeout_problems ps xs = [] \<longleftrightarrow> ps = [] \<and> list_all (\<lambda>(name, val). 0 < val) xs"
  by (induction ps xs rule: timeout_problems.induct) auto

lemma if_Nil: "(if b then xs else ys) = [] \<longleftrightarrow> (b \<longrightarrow> xs = []) \<and> (\<not> b \<longrightarrow> ys = [])"
  by simp

lemma Validate_problems_Nil: "Validate_problems c = [] \<longleftrightarrow> config_ok c"
  unfolding Validate_problems_def Let_def timeout_problems_Nil if_Nil addf_Nil proxy_problems_Nil
    config_ok_def server_ok_def database_ok_def proxies_ok_def auth_ok_def isValidPort_def IsProd_def
  using order_trans [of 1 "AuthRateLimitPerMinute c" "RateLimitPerMinute c"]
  by (simp only: not_less not_le list.pred_inject prod.case length_greater_0_conv length_0_conv
      de_Morgan_conj de_Morgan_disj not_not HOL.simp_thms) argo

lemma Load_config_ok: "Load sprintf env_parse = Inr cfg \<Longrightarrow> config_ok cfg"
  using Validate_problems_Nil
  by (auto simp: Load_def Validate_def Let_def split: sum.splits option.splits if_splits)

lemma Load_unchanged: "Load sprintf env_parse = Inr cfg \<Longrightarrow> env_parse = Inr cfg"
  by (auto simp: Load_def split: sum.splits option.splits)

text \<open>C20: \<open>Load\<close> hands out a configuration exactly when the environment parses and the configuration
  keeps every rule: it is the conjunction of the rules for the server, the database, the trusted
  proxies and authentication, and nothing weaker or stronger. The configuration is not changed.\<close>

theorem Load_accepts_exactly:
  "Load sprintf env_parse = Inr cfg \<longleftrightarrow> env_parse = Inr cfg \<and> config_ok cfg"
  using Validate_problems_Nil
  by (auto simp: Load_def Validate_def Let_def split: sum.splits option.splits if_splits)

text \<open>C22: No production server starts on unsafe settings. A configuration that \<open>Load\<close> hands out with
  \<open>APP_ENV=prod\<close> does not use sqlite, does not allow every CORS origin, and trusts proxy headers only
  from listed proxies. If authentication is on, it has a secret of at least 32 bytes, tokens that
  expire, and neither of the published demo credentials; with authentication off, when there is no
  login, the credentials are not checked.\<close>

theorem production_is_safe:
  assumes "Load sprintf env_parse = Inr cfg" and "IsProd cfg"
  shows "DBDriver cfg \<in> {DBDriverPostgres, DBDriverMySQL} \<and> ''*'' \<notin> set (CORSAllowedOrigins cfg) \<and>
    (AuthEnabled cfg \<longrightarrow> 32 \<le> length (AuthJWTSecret cfg) \<and> 0 < AuthTokenTTL cfg \<and>
      AuthDemoUsername cfg \<noteq> DefaultDemoUsername \<and> AuthDemoPassword cfg \<noteq> DefaultDemoPassword) \<and>
    (TrustProxy cfg \<longrightarrow> TrustProxyProxies cfg \<noteq> [])"
  using Load_config_ok [OF assms(1)] assms(2)
  by (auto simp: config_ok_def server_ok_def database_ok_def proxies_ok_def auth_ok_def)

text \<open>A production configuration for the witnesses.\<close>

definition prod_config :: Config where
  "prod_config =
     \<lparr>AppName = ''go-fiber-starter'', Env = ''prod'', Port = 8080, LogLevel = ''INFO'',
      DBDriver = ''postgres'', DBDSN = ''postgres://app@db:5432/app'', DBMaxOpenConns = 25,
      DBMaxIdleConns = 5, DBConnMaxLifetime = 1800000000000, DBAutoMigrate = False,
      DBSlowQueryThreshold = 500000000, CORSAllowedOrigins = [''https://app.example''],
      RateLimitPerMinute = 120, AuthRateLimitPerMinute = 10, TrustProxy = True,
      TrustProxyProxies = [''10.0.0.0/8'', ''::1''], TrustProxyHeader = ''X-Forwarded-For'',
      ReadTimeout = 15000000000, WriteTimeout = 15000000000, IdleTimeout = 60000000000,
      ShutdownGracePeriod = 10000000000, AuthEnabled = True,
      AuthJWTSecret = ''0123456789abcdef0123456789abcdef'', AuthTokenTTL = 3600000000000,
      AuthDemoUsername = ''ops'', AuthDemoPassword = ''correct horse'', BuildCommit = ''abc''\<rparr>"

lemma prod_config_ok: "config_ok prod_config"
  by (simp add: config_ok_def server_ok_def database_ok_def proxies_ok_def auth_ok_def IsProd_def
      prod_config_def config_consts net_eval lower_byte_def char_of_def bit_iff_odd)

lemma Load_prod_config: "Load sprintf (Inr prod_config) = Inr prod_config"
  using prod_config_ok Validate_problems_Nil [of prod_config] by (simp add: Load_def Validate_def)

theorem production_is_safe_witness:
  "DBDriver prod_config \<in> {DBDriverPostgres, DBDriverMySQL} \<and> AuthEnabled prod_config \<and>
   AuthDemoPassword prod_config \<noteq> DefaultDemoPassword"
proof -
  have prod: "IsProd prod_config" and auth: "AuthEnabled prod_config"
    by (simp_all add: IsProd_def prod_config_def EnvProd_def)
  show ?thesis
    using production_is_safe [OF Load_prod_config prod] auth by blast
qed

end
