(* ===== verification/Task_Repo.thy ===== *)
theory Task_Repo
  imports Http
begin

text \<open>
  The task repository: the interface \<open>Repository\<close> of \<open>internal/modules/task/service.go\<close> and its
  implementation \<open>gormRepository\<close> in \<open>repository.go\<close>, with the domain error of \<open>errors.go\<close>.

  GORM and the database behind it are not part of the repository: the record \<open>gorm\<close> holds the
  calls the code makes, over an abstract database state, and the locale \<open>gorm_contract\<close> states
  what GORM documents about them, in terms of the rows that are not soft-deleted. The locale
  \<open>task_repository\<close> is the contract that the service relies on; \<open>gormRepository\<close> is proved to
  keep it over every GORM that keeps its own.
\<close>

section \<open>The domain error\<close>

definition CodeTaskNotFound :: string where "CodeTaskNotFound = ''TASK_NOT_FOUND''"

definition ErrTaskNotFound :: app_error where
  "ErrTaskNotFound = AppError CodeTaskNotFound 404 ''task not found'' [] None"

section \<open>GORM, as the code calls it\<close>

text \<open>
  \<open>g_name\<close> is the name of the dialect, \<open>g_first\<close> takes whether the row is locked \<open>FOR
  UPDATE\<close>, \<open>g_find\<close> a limit and an offset (the order is \<open>id DESC\<close>), \<open>g_delete\<close> returns the
  number of affected rows, and \<open>g_tx\<close> is \<open>Transaction\<close>.
\<close>

record 's gorm =
  g_name :: string
  g_create :: "Task \<Rightarrow> 's \<Rightarrow> (goerr + Task) \<times> 's"
  g_first :: "bool \<Rightarrow> go_uint \<Rightarrow> 's \<Rightarrow> (goerr + Task) \<times> 's"
  g_count :: "'s \<Rightarrow> (goerr + go_int) \<times> 's"
  g_find :: "go_int \<Rightarrow> go_int \<Rightarrow> 's \<Rightarrow> (goerr + Task list) \<times> 's"
  g_save :: "Task \<Rightarrow> 's \<Rightarrow> (goerr + Task) \<times> 's"
  g_delete :: "go_uint \<Rightarrow> 's \<Rightarrow> (goerr + go_int) \<times> 's"
  g_tx :: "('s \<Rightarrow> (goerr + Task) \<times> 's) \<Rightarrow> 's \<Rightarrow> (goerr + Task) \<times> 's"

section \<open>The repository\<close>

text \<open>An interface value: one function per method.\<close>

record 's Repository =
  r_Create :: "Task \<Rightarrow> 's \<Rightarrow> (goerr + Task) \<times> 's"
  r_FindByID :: "go_uint \<Rightarrow> 's \<Rightarrow> (goerr + Task) \<times> 's"
  r_List :: "PageQuery \<Rightarrow> 's \<Rightarrow> (goerr + Task list \<times> go_int) \<times> 's"
  r_Update :: "go_uint \<Rightarrow> (Task \<Rightarrow> Task) \<Rightarrow> 's \<Rightarrow> (goerr + Task) \<times> 's"
  r_Delete :: "go_uint \<Rightarrow> 's \<Rightarrow> goerr option \<times> 's"

definition repo_Create :: "'s gorm \<Rightarrow> Task \<Rightarrow> 's \<Rightarrow> (goerr + Task) \<times> 's" where
  [repo_defs]: "repo_Create db t s = g_create db t s"

definition repo_FindByID :: "'s gorm \<Rightarrow> go_uint \<Rightarrow> 's \<Rightarrow> (goerr + Task) \<times> 's" where
  [repo_defs]: "repo_FindByID db i s =
     (case g_first db False i s of
        (Inl e, s') \<Rightarrow>
          if errors_Is e (SentinelErr ErrRecordNotFound)
          then (Inl (AppErr ErrTaskNotFound), s') else (Inl e, s')
      | (Inr t, s') \<Rightarrow> (Inr t, s'))"

definition repo_List :: "'s gorm \<Rightarrow> PageQuery \<Rightarrow> 's \<Rightarrow> (goerr + Task list \<times> go_int) \<times> 's" where
  [repo_defs]: "repo_List db q s =
     (case g_count db s of
        (Inl e, s') \<Rightarrow> (Inl e, s')
      | (Inr cnt, s') \<Rightarrow>
          (case g_find db (Limit q) (Offset q) s' of
             (Inl e, s'') \<Rightarrow> (Inl e, s'')
           | (Inr tasks, s'') \<Rightarrow> (Inr (tasks, cnt), s'')))"

text \<open>Whether the row is locked: every dialect but sqlite gets \<open>FOR UPDATE\<close>.\<close>

definition applyRowLock :: "'s gorm \<Rightarrow> bool" where
  [repo_defs]: "applyRowLock tx = (if g_name tx = ''sqlite'' then False else True)"

definition update_body :: "'s gorm \<Rightarrow> go_uint \<Rightarrow> (Task \<Rightarrow> Task) \<Rightarrow> 's \<Rightarrow> (goerr + Task) \<times> 's" where
  [repo_defs]: "update_body tx i mutate s =
     (case g_first tx (applyRowLock tx) i s of
        (Inl e, s') \<Rightarrow>
          if errors_Is e (SentinelErr ErrRecordNotFound)
          then (Inl (AppErr ErrNotFound), s') else (Inl e, s')
      | (Inr t, s') \<Rightarrow> g_save tx (mutate t) s')"

definition repo_Update :: "'s gorm \<Rightarrow> go_uint \<Rightarrow> (Task \<Rightarrow> Task) \<Rightarrow> 's \<Rightarrow> (goerr + Task) \<times> 's" where
  "repo_Update db i mutate s = g_tx db (update_body db i mutate) s"

definition repo_Delete :: "'s gorm \<Rightarrow> go_uint \<Rightarrow> 's \<Rightarrow> goerr option \<times> 's" where
  [repo_defs]: "repo_Delete db i s =
     (case g_delete db i s of
        (Inl e, s') \<Rightarrow> (Some e, s')
      | (Inr affected, s') \<Rightarrow>
          if affected = 0 then (Some (AppErr ErrTaskNotFound), s') else (None, s'))"

definition NewRepository :: "'s gorm \<Rightarrow> 's Repository" where
  "NewRepository db =
     \<lparr>r_Create = repo_Create db, r_FindByID = repo_FindByID db, r_List = repo_List db,
      r_Update = repo_Update db, r_Delete = repo_Delete db\<rparr>"

section \<open>The contract of the repository\<close>

text \<open>
  The abstract store is a finite map from ids to tasks. \<open>newest_first\<close> is the order in which a
  listing shows it. \<open>same_fields\<close> relates a task with the struct that GORM leaves behind: it may
  set the time stamps, nothing else.
\<close>

definition newest_first :: "(go_uint \<rightharpoonup> Task) \<Rightarrow> Task list" where
  "newest_first m = map (\<lambda>i. the (m i)) (rev (sorted_list_of_set (dom m)))"

definition same_fields :: "Task \<Rightarrow> Task \<Rightarrow> bool" where
  "same_fields t t' \<longleftrightarrow>
     ID t' = ID t \<and> Title t' = Title t \<and> Done t' = Done t \<and> DueDate t' = DueDate t \<and>
     DeletedAt t' = DeletedAt t"

definition stored_as :: "(gotime \<Rightarrow> gotime) \<Rightarrow> Task \<Rightarrow> Task" where
  "stored_as col t =
     t\<lparr>DueDate := map_option col (DueDate t), CreatedAt := col (CreatedAt t), UpdatedAt := col (UpdatedAt t)\<rparr>"

lemma stored_as_sel [simp]:
  "ID (stored_as col t) = ID t" "Title (stored_as col t) = Title t" "Done (stored_as col t) = Done t"
  "DueDate (stored_as col t) = map_option col (DueDate t)" "CreatedAt (stored_as col t) = col (CreatedAt t)"
  "UpdatedAt (stored_as col t) = col (UpdatedAt t)" "DeletedAt (stored_as col t) = DeletedAt t"
  by (simp_all add: stored_as_def)

lemma stored_as_kept:
  "stored_as col t = t \<Longrightarrow> map_option col (DueDate t) = DueDate t"
  "stored_as col t = t \<Longrightarrow> col (CreatedAt t) = CreatedAt t"
  by (metis stored_as_sel(4), metis stored_as_sel(5))

text \<open>The functions an update may apply: those that leave identity and bookkeeping alone.\<close>

definition only_content :: "(Task \<Rightarrow> Task) \<Rightarrow> bool" where
  "only_content f \<longleftrightarrow>
     (\<forall>t. ID (f t) = ID t \<and> DeletedAt (f t) = DeletedAt t \<and> CreatedAt (f t) = CreatedAt t)"

definition store_ok :: "(go_uint \<rightharpoonup> Task) \<Rightarrow> bool" where
  "store_ok m \<longleftrightarrow> finite (dom m) \<and> (\<forall>i t. m i = Some t \<longrightarrow> ID t = i \<and> i \<noteq> 0 \<and> DeletedAt t = None)"

locale task_repository =
  fixes repo :: "'s Repository"
    and rows :: "'s \<Rightarrow> go_uint \<rightharpoonup> Task"
    and inv :: "'s \<Rightarrow> bool"
    and col :: "gotime \<Rightarrow> gotime"
  assumes store: "inv s \<Longrightarrow> store_ok (rows s)"
    and near: "\<bar>col x - x\<bar> < second"
    and kept: "inv s \<Longrightarrow> rows s i = Some t \<Longrightarrow> stored_as col t = t"
    and create_ok: "inv s \<Longrightarrow> ID t = 0 \<Longrightarrow> DeletedAt t = None \<Longrightarrow>
      r_Create repo t s = (Inr t', s') \<Longrightarrow>
      inv s' \<and> ID t' \<noteq> 0 \<and> rows s (ID t') = None \<and> rows s' = (rows s)(ID t' \<mapsto> stored_as col t') \<and>
      same_fields (t\<lparr>ID := ID t'\<rparr>) t'"
    and create_err: "inv s \<Longrightarrow> ID t = 0 \<Longrightarrow> DeletedAt t = None \<Longrightarrow>
      r_Create repo t s = (Inl e, s') \<Longrightarrow> inv s' \<and> rows s' = rows s \<and> foreign e"
    and find_ok: "inv s \<Longrightarrow> r_FindByID repo i s = (Inr t, s') \<Longrightarrow>
      inv s' \<and> rows s' = rows s \<and> rows s i = Some t"
    and find_err: "inv s \<Longrightarrow> r_FindByID repo i s = (Inl e, s') \<Longrightarrow>
      inv s' \<and> rows s' = rows s \<and> (e = AppErr ErrTaskNotFound \<and> rows s i = None \<or> foreign e)"
    and update_ok: "inv s \<Longrightarrow> only_content f \<Longrightarrow> r_Update repo i f s = (Inr t', s') \<Longrightarrow>
      inv s' \<and> rows s' = (rows s)(i \<mapsto> stored_as col t') \<and>
      (\<exists>t. rows s i = Some t \<and> same_fields (f t) t' \<and> CreatedAt t' = CreatedAt t)"
    and update_err: "inv s \<Longrightarrow> only_content f \<Longrightarrow> r_Update repo i f s = (Inl e, s') \<Longrightarrow>
      inv s' \<and> rows s' = rows s \<and> (e = AppErr ErrNotFound \<and> rows s i = None \<or> foreign e)"
    and delete_ok: "inv s \<Longrightarrow> r_Delete repo i s = (None, s') \<Longrightarrow>
      inv s' \<and> rows s i \<noteq> None \<and> rows s' = (rows s)(i := None)"
    and delete_err: "inv s \<Longrightarrow> r_Delete repo i s = (Some e, s') \<Longrightarrow>
      inv s' \<and> rows s' = rows s \<and> (e = AppErr ErrTaskNotFound \<and> rows s i = None \<or> foreign e)"

text \<open>Listing. The page is known for offsets that did not wrap to a negative number.\<close>

locale task_listing = task_repository +
  assumes list_ok: "inv s \<Longrightarrow> 0 < sint (Limit q) \<Longrightarrow>
      r_List repo q s = (Inr (tasks, cnt), s') \<Longrightarrow>
      inv s' \<and> rows s' = rows s \<and> cnt = of_nat (card (dom (rows s))) \<and>
      (0 \<le> sint (Offset q) \<longrightarrow> tasks = page_slice q (newest_first (rows s)))"
    and list_frame: "inv s \<Longrightarrow> r_List repo q s = (r, s') \<Longrightarrow> inv s' \<and> rows s' = rows s"
    and list_err: "inv s \<Longrightarrow> r_List repo q s = (Inl e, s') \<Longrightarrow> foreign e"

section \<open>The contract of GORM\<close>

text \<open>
  What the code relies on. \<open>rows\<close> are the rows with a null \<open>deleted_at\<close>; their times are as the
  columns keep them, less than a second from those of the struct that was written (\<open>col\<close>, see
  \<open>stored_as\<close>), and a time that came out of a column goes back unchanged. A statement that
  fails changes nothing and reports an error of the driver or of GORM, which carries no error
  type of this program. \<open>Transaction\<close> runs its body on a state with the same rows; it ends
  with the body's rows, or with the old ones when the body, the begin or the commit fails.
\<close>

locale gorm_contract =
  fixes db :: "'s gorm"
    and rows :: "'s \<Rightarrow> go_uint \<rightharpoonup> Task"
    and inv :: "'s \<Rightarrow> bool"
    and col :: "gotime \<Rightarrow> gotime"
  assumes g_store: "inv s \<Longrightarrow> store_ok (rows s)"
    and g_near: "\<bar>col x - x\<bar> < second"
    and g_kept: "inv s \<Longrightarrow> rows s i = Some t \<Longrightarrow> stored_as col t = t"
    and g_create_ok: "inv s \<Longrightarrow> ID t = 0 \<Longrightarrow> DeletedAt t = None \<Longrightarrow>
      g_create db t s = (Inr t', s') \<Longrightarrow>
      inv s' \<and> ID t' \<noteq> 0 \<and> rows s (ID t') = None \<and> rows s' = (rows s)(ID t' \<mapsto> stored_as col t') \<and>
      same_fields (t\<lparr>ID := ID t'\<rparr>) t'"
    and g_create_err: "inv s \<Longrightarrow> ID t = 0 \<Longrightarrow> DeletedAt t = None \<Longrightarrow>
      g_create db t s = (Inl e, s') \<Longrightarrow> inv s' \<and> rows s' = rows s \<and> foreign e"
    and g_first_ok: "inv s \<Longrightarrow> g_first db lock i s = (Inr t, s') \<Longrightarrow>
      inv s' \<and> rows s' = rows s \<and> rows s i = Some t"
    and g_first_err: "inv s \<Longrightarrow> g_first db lock i s = (Inl e, s') \<Longrightarrow>
      inv s' \<and> rows s' = rows s \<and> foreign e \<and>
      (errors_Is e (SentinelErr ErrRecordNotFound) \<longrightarrow> rows s i = None)"
    and g_count_ok: "inv s \<Longrightarrow> g_count db s = (Inr cnt, s') \<Longrightarrow>
      inv s' \<and> rows s' = rows s \<and> cnt = of_nat (card (dom (rows s)))"
    and g_count_err: "inv s \<Longrightarrow> g_count db s = (Inl e, s') \<Longrightarrow>
      inv s' \<and> rows s' = rows s \<and> foreign e"
    and g_find_ok: "inv s \<Longrightarrow> 0 \<le> sint off \<Longrightarrow> 0 < sint lim \<Longrightarrow>
      g_find db lim off s = (Inr tasks, s') \<Longrightarrow>
      tasks = take (nat (sint lim)) (drop (nat (sint off)) (newest_first (rows s)))"
    and g_find_err: "inv s \<Longrightarrow> g_find db lim off s = (Inl e, s') \<Longrightarrow> foreign e"
    and g_find_frame: "inv s \<Longrightarrow> g_find db lim off s = (found, s') \<Longrightarrow> inv s' \<and> rows s' = rows s"
    and g_save_ok: "inv s \<Longrightarrow> rows s (ID t) \<noteq> None \<Longrightarrow> DeletedAt t = None \<Longrightarrow>
      g_save db t s = (Inr t', s') \<Longrightarrow>
      inv s' \<and> rows s' = (rows s)(ID t \<mapsto> stored_as col t') \<and> same_fields t t' \<and> CreatedAt t' = CreatedAt t"
    and g_save_err: "inv s \<Longrightarrow> rows s (ID t) \<noteq> None \<Longrightarrow> DeletedAt t = None \<Longrightarrow>
      g_save db t s = (Inl e, s') \<Longrightarrow> inv s' \<and> foreign e"
    and g_delete_ok: "inv s \<Longrightarrow> g_delete db i s = (Inr affected, s') \<Longrightarrow>
      inv s' \<and> rows s' = (rows s)(i := None) \<and>
      affected = (if rows s i = None then 0 else 1)"
    and g_delete_err: "inv s \<Longrightarrow> g_delete db i s = (Inl e, s') \<Longrightarrow>
      inv s' \<and> rows s' = rows s \<and> foreign e"
    and g_tx_law: "inv s \<Longrightarrow> (\<And>u r u'. inv u \<Longrightarrow> body u = (r, u') \<Longrightarrow> inv u') \<Longrightarrow>
      g_tx db body s = (r, s') \<Longrightarrow>
      inv s' \<and>
      ((\<exists>e. r = Inl e \<and> foreign e \<and> rows s' = rows s) \<or>
       (\<exists>u e u'. inv u \<and> rows u = rows s \<and> body u = (Inl e, u') \<and> r = Inl e \<and> rows s' = rows s) \<or>
       (\<exists>u t u'. inv u \<and> rows u = rows s \<and> body u = (Inr t, u') \<and> r = Inr t \<and> rows s' = rows u'))"
begin

lemma stored:
  assumes "inv s" and "rows s i = Some t"
  shows "ID t = i" and "i \<noteq> 0" and "DeletedAt t = None"
  using g_store [OF assms(1)] assms(2) by (auto simp: store_ok_def)

lemma update_body_cases:
  assumes "inv u" and "only_content f" and "update_body db i f u = (r, u')"
  obtains (missing) "r = Inl (AppErr ErrNotFound)" "rows u i = None" "inv u'"
  | (failed) e where "r = Inl e" "foreign e" "inv u'"
  | (saved) t t' where "r = Inr t'" "rows u i = Some t" "same_fields (f t) t'"
      "CreatedAt t' = CreatedAt t" "rows u' = (rows u)(i \<mapsto> stored_as col t')" "inv u'"
proof -
  obtain r1 u1 where first: "g_first db (applyRowLock db) i u = (r1, u1)"
    by fastforce
  show thesis
  proof (cases r1)
    case (Inl e)
    note law = g_first_err [OF assms(1) first [unfolded Inl]]
    have "(r, u') = (if errors_Is e (SentinelErr ErrRecordNotFound)
        then (Inl (AppErr ErrNotFound), u1) else (Inl e, u1))"
      using assms(3) first Inl by (simp add: update_body_def)
    with law show thesis
      by (cases "errors_Is e (SentinelErr ErrRecordNotFound)") (auto intro: missing failed)
  next
    case (Inr t)
    note law = g_first_ok [OF assms(1) first [unfolded Inr]]
    then have inv1: "inv u1" and same: "rows u1 = rows u" and row: "rows u i = Some t"
      by simp_all
    have ft: "ID (f t) = i" "DeletedAt (f t) = None" "CreatedAt (f t) = CreatedAt t"
      using assms(2) stored [OF assms(1) row] by (simp_all add: only_content_def)
    have there: "rows u1 (ID (f t)) \<noteq> None"
      using row same ft(1) by simp
    have save: "g_save db (f t) u1 = (r, u')"
      using assms(3) first Inr by (simp add: update_body_def)
    show thesis
    proof (cases r)
      case (Inl e)
      then show thesis
        using g_save_err [OF inv1 there ft(2)] save failed by blast
    next
      case (Inr t')
      then show thesis
        using g_save_ok [OF inv1 there ft(2)] save row same ft saved by auto
    qed
  qed
qed

lemma update_body_inv: "inv u \<Longrightarrow> only_content f \<Longrightarrow> update_body db i f u = (r, u') \<Longrightarrow> inv u'"
  by (erule (2) update_body_cases)

lemma repo_Update_cases:
  assumes inv: "inv s" and f: "only_content f" and upd: "repo_Update db i f s = (r, s')"
  shows "inv s'"
    and "r = Inr t' \<Longrightarrow> rows s' = (rows s)(i \<mapsto> stored_as col t') \<and>
      (\<exists>t. rows s i = Some t \<and> same_fields (f t) t' \<and> CreatedAt t' = CreatedAt t)"
    and "r = Inl e \<Longrightarrow> rows s' = rows s \<and> (e = AppErr ErrNotFound \<and> rows s i = None \<or> foreign e)"
proof -
  have tx: "g_tx db (update_body db i f) s = (r, s')"
    using upd by (simp add: repo_Update_def)
  note cases = update_body_cases [OF _ f]
  have "inv s' \<and>
      ((\<exists>e. r = Inl e \<and> foreign e \<and> rows s' = rows s) \<or>
       (\<exists>u e u'. inv u \<and> rows u = rows s \<and> update_body db i f u = (Inl e, u') \<and> r = Inl e \<and>
          rows s' = rows s) \<or>
       (\<exists>u t u'. inv u \<and> rows u = rows s \<and> update_body db i f u = (Inr t, u') \<and> r = Inr t \<and>
          rows s' = rows u'))"
    by (rule g_tx_law [OF inv _ tx]) (rule update_body_inv [OF _ f])
  then consider e where "r = Inl e" "foreign e" "inv s'" "rows s' = rows s"
    | u e u' where "inv u" "rows u = rows s" "update_body db i f u = (Inl e, u')" "r = Inl e"
        "inv s'" "rows s' = rows s"
    | u t u' where "inv u" "rows u = rows s" "update_body db i f u = (Inr t, u')" "r = Inr t"
        "inv s'" "rows s' = rows u'"
    by blast
  note outcome = this
  show "inv s'" by (cases rule: outcome)
  show "rows s' = (rows s)(i \<mapsto> stored_as col t') \<and>
      (\<exists>t. rows s i = Some t \<and> same_fields (f t) t' \<and> CreatedAt t' = CreatedAt t)"
    if "r = Inr t'"
    by (cases rule: outcome) (use that in \<open>auto elim: cases\<close>)
  show "rows s' = rows s \<and> (e = AppErr ErrNotFound \<and> rows s i = None \<or> foreign e)"
    if "r = Inl e"
    by (cases rule: outcome) (use that in \<open>auto elim: cases\<close>)
qed

lemma repo_Delete_err:
  assumes inv: "inv s" and del: "repo_Delete db i s = (Some e, s')"
  shows "inv s' \<and> rows s' = rows s \<and> (e = AppErr ErrTaskNotFound \<and> rows s i = None \<or> foreign e)"
proof -
  obtain n u where n: "g_delete db i s = (n, u)" by fastforce
  have r: "(Some e, s') = (case n of Inl e \<Rightarrow> (Some e, u)
      | Inr affected \<Rightarrow> if affected = 0 then (Some (AppErr ErrTaskNotFound), u) else (None, u))"
    using del by (simp add: repo_Delete_def n split: sum.splits)
  show ?thesis
  proof (cases n)
    case (Inl e')
    then show ?thesis using g_delete_err [OF inv n [unfolded Inl]] r by simp
  next
    case (Inr affected)
    then show ?thesis
      using g_delete_ok [OF inv n [unfolded Inr]] r by (auto split: if_splits)
  qed
qed

lemma repo_List_cases:
  assumes inv: "inv s" and list: "repo_List db q s = (r, s')"
  shows "inv s'" and "rows s' = rows s" and "r = Inl e \<Longrightarrow> foreign e"
    and "0 < sint (Limit q) \<Longrightarrow> r = Inr (tasks, cnt) \<Longrightarrow>
      cnt = of_nat (card (dom (rows s))) \<and>
      (0 \<le> sint (Offset q) \<longrightarrow> tasks = page_slice q (newest_first (rows s)))"
proof -
  obtain n u where count: "g_count db s = (n, u)" by fastforce
  obtain f v where find: "g_find db (Limit q) (Offset q) u = (f, v)" by fastforce
  have "inv u \<and> rows u = rows s"
    using g_count_ok [OF inv, of _ u] g_count_err [OF inv, of _ u] count by (cases n) blast+
  then have u: "inv u" "rows u = rows s" by blast+
  note v = g_find_frame [OF u(1) find]
  have r: "(r, s') = (case n of Inl e \<Rightarrow> (Inl e, u)
      | Inr cnt \<Rightarrow> (case f of Inl e \<Rightarrow> (Inl e, v) | Inr tasks \<Rightarrow> (Inr (tasks, cnt), v)))"
    using list by (simp add: repo_List_def count find split: sum.splits)
  then show "inv s'" and "rows s' = rows s"
    using u v by (cases n; cases f; simp)+
  show "foreign e" if "r = Inl e"
  proof -
    have "n = Inl e \<or> f = Inl e" using r that by (cases n; cases f; simp)
    then show ?thesis
      using g_count_err [OF inv, of e u] g_find_err [OF u(1), of _ _ e v] count find by blast
  qed
  show "cnt = of_nat (card (dom (rows s))) \<and>
      (0 \<le> sint (Offset q) \<longrightarrow> tasks = page_slice q (newest_first (rows s)))"
    if lim: "0 < sint (Limit q)" and "r = Inr (tasks, cnt)"
  proof -
    have "n = Inr cnt" "f = Inr tasks" using r that(2) by (auto split: sum.splits)
    then show ?thesis
      using g_count_ok [OF inv, of cnt u] g_find_ok [OF u(1) _ lim, of "Offset q" tasks v] count find u(2)
      unfolding page_slice_def by simp
  qed
qed

end

sublocale gorm_contract \<subseteq> task_listing "NewRepository db" rows inv col
proof
  fix s s' e and t t' :: Task
  assume inv: "inv s" and t: "ID t = 0" "DeletedAt t = None"
  show "inv s' \<and> ID t' \<noteq> 0 \<and> rows s (ID t') = None \<and> rows s' = (rows s)(ID t' \<mapsto> stored_as col t') \<and>
      same_fields (t\<lparr>ID := ID t'\<rparr>) t'" if "r_Create (NewRepository db) t s = (Inr t', s')"
    using g_create_ok [OF inv t] that by (simp add: NewRepository_def repo_Create_def)
  show "inv s' \<and> rows s' = rows s \<and> foreign e" if "r_Create (NewRepository db) t s = (Inl e, s')"
    using g_create_err [OF inv t] that by (simp add: NewRepository_def repo_Create_def)
next
  fix s i t s' assume "inv s" and "r_FindByID (NewRepository db) i s = (Inr t, s')"
  then show "inv s' \<and> rows s' = rows s \<and> rows s i = Some t"
    using g_first_ok [of s False i]
    by (auto simp: NewRepository_def repo_FindByID_def split: prod.splits sum.splits if_splits)
next
  fix s i e s' assume "inv s" and "r_FindByID (NewRepository db) i s = (Inl e, s')"
  then show "inv s' \<and> rows s' = rows s \<and> (e = AppErr ErrTaskNotFound \<and> rows s i = None \<or> foreign e)"
    using g_first_err [of s False i]
    by (auto simp: NewRepository_def repo_FindByID_def split: prod.splits sum.splits if_splits)
next
  fix s i f s' t' assume "inv s" and "only_content f"
    and "r_Update (NewRepository db) i f s = (Inr t', s')"
  then show "inv s' \<and> rows s' = (rows s)(i \<mapsto> stored_as col t') \<and>
      (\<exists>t. rows s i = Some t \<and> same_fields (f t) t' \<and> CreatedAt t' = CreatedAt t)"
    using repo_Update_cases(1,2) [where i = i and r = "Inr t'"] by (simp add: NewRepository_def)
next
  fix s i f s' e assume "inv s" and "only_content f"
    and "r_Update (NewRepository db) i f s = (Inl e, s')"
  then show "inv s' \<and> rows s' = rows s \<and> (e = AppErr ErrNotFound \<and> rows s i = None \<or> foreign e)"
    using repo_Update_cases(1,3) [where i = i and r = "Inl e"] by (simp add: NewRepository_def)
next
  fix s i s' assume "inv s" and "r_Delete (NewRepository db) i s = (None, s')"
  then show "inv s' \<and> rows s i \<noteq> None \<and> rows s' = (rows s)(i := None)"
    using g_delete_ok [of s i]
    by (auto simp: NewRepository_def repo_Delete_def split: prod.splits sum.splits if_splits)
next
  fix s i e s' assume "inv s" and "r_Delete (NewRepository db) i s = (Some e, s')"
  then show "inv s' \<and> rows s' = rows s \<and> (e = AppErr ErrTaskNotFound \<and> rows s i = None \<or> foreign e)"
    using repo_Delete_err by (simp add: NewRepository_def)
next
  fix s q r s' assume "inv s" and "r_List (NewRepository db) q s = (r, s')"
  then show "inv s' \<and> rows s' = rows s"
    using repo_List_cases(1,2) [of s q r s'] by (simp add: NewRepository_def)
next
  fix s q tasks cnt s'
  assume "inv s" and "0 < sint (Limit q)"
    and list: "r_List (NewRepository db) q s = (Inr (tasks, cnt), s')"
  moreover have "repo_List db q s = (Inr (tasks, cnt), s')"
    using list by (simp add: NewRepository_def)
  ultimately show "inv s' \<and> rows s' = rows s \<and> cnt = of_nat (card (dom (rows s))) \<and>
      (0 \<le> sint (Offset q) \<longrightarrow> tasks = page_slice q (newest_first (rows s)))"
    using repo_List_cases(1,2) [of s q _ s'] repo_List_cases(4) [of s q _ s' tasks cnt] by blast
next
  fix s q e s' assume "inv s" and "r_List (NewRepository db) q s = (Inl e, s')"
  then show "foreign e"
    using repo_List_cases(3) [where r = "Inl e", of s q s' e] by (simp add: NewRepository_def)
qed (rule g_store g_near g_kept; assumption?)+

context gorm_contract begin

lemma repository_keeps_contract: "task_listing (NewRepository db) rows inv col"
  by (rule task_listing_axioms)

end

lemmas gorm_repository = gorm_contract.repository_keeps_contract

end
