(* ===== verification/Task_Service.thy ===== *)
theory Task_Service
  imports Task_Repo
begin

text \<open>
  The task service, \<open>internal/modules/task/service.go\<close>: the five operations over a
  \<open>Repository\<close>, with the texts they put on the errors they hand up. The lemmas are proved in
  the locale \<open>task_listing\<close>, that is for every repository that keeps the contract; they make
  the service a refinement of \<open>task_spec\<close>, a map from ids to tasks.
\<close>

section \<open>The operations\<close>

definition zero_Task :: Task where
  "zero_Task = \<lparr>ID = 0, Title = [], Done = False, DueDate = None, CreatedAt = 0, UpdatedAt = 0,
               DeletedAt = None\<rparr>"

text \<open>\<open>fmt.Errorf(text + ": %w", err)\<close>\<close>

definition Errorf_w :: "string \<Rightarrow> goerr \<Rightarrow> goerr" where
  "Errorf_w text e = WrapErr (text @ '': '' @ Error e) e"

text \<open>The service holds nothing but the repository.\<close>

type_synonym 's Service = "'s Repository"

definition NewService :: "'s Repository \<Rightarrow> 's Service" where
  [simp]: "NewService repo = repo"

definition svc_Create :: "'s Repository \<Rightarrow> CreateRequest \<Rightarrow> 's \<Rightarrow> (goerr + Response) \<times> 's" where
  "svc_Create repo req s =
     (let t = zero_Task\<lparr>Title := Title_c req, DueDate := DueDate_c req\<rparr>
      in case r_Create repo t s of
           (Inl e, s') \<Rightarrow> (Inl (Errorf_w ''create task'' e), s')
         | (Inr t', s') \<Rightarrow> (Inr (toResponse t'), s'))"

definition svc_Get :: "'s Repository \<Rightarrow> go_uint \<Rightarrow> 's \<Rightarrow> (goerr + Response) \<times> 's" where
  "svc_Get repo i s =
     (case r_FindByID repo i s of
        (Inl e, s') \<Rightarrow> (Inl (Errorf_w (''get task '' @ FormatUint i) e), s')
      | (Inr t, s') \<Rightarrow> (Inr (toResponse t), s'))"

text \<open>
  A panic of \<open>NewPageMeta\<close> (a division by zero) would reach the recover middleware as an error;
  \<open>svc_List_no_panic\<close> shows that it cannot happen.
\<close>

definition divide_panic :: goerr where
  "divide_panic = OpaqueErr ''runtime error: integer divide by zero''"

definition svc_List ::
  "'s Repository \<Rightarrow> go_int \<Rightarrow> go_int \<Rightarrow> 's \<Rightarrow> (goerr + Response list \<times> PageMeta) \<times> 's" where
  "svc_List repo page limit s =
     (let q = NewPageQuery page limit
      in case r_List repo q s of
           (Inl e, s') \<Rightarrow> (Inl (Errorf_w ''list tasks'' e), s')
         | (Inr (tasks, cnt), s') \<Rightarrow>
             (case NewPageMeta q cnt of
                None \<Rightarrow> (Inl divide_panic, s')
              | Some m \<Rightarrow> (Inr (toResponses tasks, m), s')))"

text \<open>The closure \<open>mutate\<close> of \<open>Update\<close>: only the fields that are present change.\<close>

definition mutate :: "UpdateRequest \<Rightarrow> Task \<Rightarrow> Task" where
  "mutate req t =
     (let t = (case Title_u req of None \<Rightarrow> t | Some title \<Rightarrow> t\<lparr>Title := title\<rparr>);
          t = (case Done_u req of None \<Rightarrow> t | Some b \<Rightarrow> t\<lparr>Done := b\<rparr>)
      in if Set_n (DueDate_u req)
         then (if Null_n (DueDate_u req) then t\<lparr>DueDate := None\<rparr>
               else t\<lparr>DueDate := Some (Value_n (DueDate_u req))\<rparr>)
         else t)"

definition svc_Update ::
  "'s Repository \<Rightarrow> go_uint \<Rightarrow> UpdateRequest \<Rightarrow> 's \<Rightarrow> (goerr + Response) \<times> 's" where
  "svc_Update repo i req s =
     (case r_Update repo i (mutate req) s of
        (Inl e, s') \<Rightarrow>
          if errors_Is e (AppErr ErrNotFound) then (Inl (AppErr ErrTaskNotFound), s')
          else (Inl (Errorf_w (''update task '' @ FormatUint i) e), s')
      | (Inr t, s') \<Rightarrow> (Inr (toResponse t), s'))"

definition svc_Delete :: "'s Repository \<Rightarrow> go_uint \<Rightarrow> 's \<Rightarrow> goerr option \<times> 's" where
  "svc_Delete repo i s =
     (case r_Delete repo i s of
        (Some e, s') \<Rightarrow>
          if errors_Is e (AppErr ErrNotFound) then (Some (AppErr ErrTaskNotFound), s')
          else (Some (Errorf_w (''delete task '' @ FormatUint i) e), s')
      | (None, s') \<Rightarrow> (None, s'))"

lemmas svc_defs = svc_Create_def svc_Get_def svc_List_def svc_Update_def svc_Delete_def

section \<open>Basic facts\<close>

lemma Errorf_w_simps [simp, err_simps]:
  "as_app (Errorf_w m e) = as_app e" "as_fiber (Errorf_w m e) = as_fiber e"
  "errors_Is (Errorf_w m e) t = errors_Is e t" "as_valerrs (Errorf_w m e) = as_valerrs e"
  "foreign (Errorf_w m e) = foreign e" "AsAppError (Errorf_w m e) =
     (case as_app e of Some a \<Rightarrow> a | None \<Rightarrow> WithCause ErrInternal (Errorf_w m e))"
  by (simp_all add: Errorf_w_def AsAppError_def split: option.split)

lemma mutate_sel [simp]:
  "Title (mutate req t) = (case Title_u req of None \<Rightarrow> Title t | Some x \<Rightarrow> x)"
  "Done (mutate req t) = (case Done_u req of None \<Rightarrow> Done t | Some b \<Rightarrow> b)"
  "DueDate (mutate req t) =
     (if Set_n (DueDate_u req) then if Null_n (DueDate_u req) then None
        else Some (Value_n (DueDate_u req)) else DueDate t)"
  "ID (mutate req t) = ID t" "CreatedAt (mutate req t) = CreatedAt t"
  "UpdatedAt (mutate req t) = UpdatedAt t" "DeletedAt (mutate req t) = DeletedAt t"
  by (simp_all add: mutate_def Let_def split: option.split)

lemma mutate_only_content [simp]: "only_content (mutate req)"
  by (simp add: only_content_def)

lemma ErrTaskNotFound_sel [simp]:
  "err ErrTaskNotFound = None" "Status ErrTaskNotFound = 404"
  "Code ErrTaskNotFound = CodeTaskNotFound" "Code ErrTaskNotFound \<noteq> Code ErrNotFound"
  by (simp_all add: ErrTaskNotFound_def ErrNotFound_def CodeTaskNotFound_def CodeNotFound_def)

lemma Is_ErrNotFound [simp]:
  "errors_Is (AppErr ErrTaskNotFound) (AppErr ErrNotFound) = False"
  "errors_Is (AppErr ErrNotFound) (AppErr ErrNotFound) = True"
  by (simp_all del: ErrTaskNotFound_sel add: ErrTaskNotFound_def ErrNotFound_def CodeTaskNotFound_def CodeNotFound_def)

lemma foreign_Is [simp]: "foreign e \<Longrightarrow> errors_Is e (AppErr a) = False"
  by (simp add: foreign_def foreign_not_Is_App)

lemma svc_List_no_panic:
  assumes "svc_List repo page limit s = (Inl e, s')"
  shows "\<exists>e'. r_List repo (NewPageQuery page limit) s = (Inl e', s') \<and>
    e = Errorf_w ''list tasks'' e'"
  using assms
  by (auto simp: svc_List_def NewPageMeta_def Let_def split: prod.splits sum.splits option.splits if_splits)

section \<open>The abstract service\<close>

datatype svc_call =
    CallCreate CreateRequest
  | CallGet go_uint
  | CallList go_int go_int
  | CallUpdate go_uint UpdateRequest
  | CallDelete go_uint

datatype svc_reply = Replied Response | Listed "Response list" PageMeta | Removed | Failed goerr

fun run_call :: "'s Repository \<Rightarrow> svc_call \<Rightarrow> 's \<Rightarrow> svc_reply \<times> 's" where
  "run_call repo (CallCreate req) s =
     (case svc_Create repo req s of (Inl e, s') \<Rightarrow> (Failed e, s') | (Inr r, s') \<Rightarrow> (Replied r, s'))"
| "run_call repo (CallGet i) s =
     (case svc_Get repo i s of (Inl e, s') \<Rightarrow> (Failed e, s') | (Inr r, s') \<Rightarrow> (Replied r, s'))"
| "run_call repo (CallList page limit) s =
     (case svc_List repo page limit s of
        (Inl e, s') \<Rightarrow> (Failed e, s') | (Inr (rs, m), s') \<Rightarrow> (Listed rs m, s'))"
| "run_call repo (CallUpdate i req) s =
     (case svc_Update repo i req s of
        (Inl e, s') \<Rightarrow> (Failed e, s') | (Inr r, s') \<Rightarrow> (Replied r, s'))"
| "run_call repo (CallDelete i) s =
     (case svc_Delete repo i s of (Some e, s') \<Rightarrow> (Failed e, s') | (None, s') \<Rightarrow> (Removed, s'))"

text \<open>The id a call addresses.\<close>

fun addresses :: "svc_call \<Rightarrow> go_uint option" where
  "addresses (CallGet i) = Some i"
| "addresses (CallUpdate i req) = Some i"
| "addresses (CallDelete i) = Some i"
| "addresses _ = None"

text \<open>
  What the service promises, over a map from ids to tasks. A call that addresses a missing
  task fails with \<open>ErrTaskNotFound\<close>, whichever layer noticed; a call may fail with an error of
  the database; in both cases nothing changes. A reply shows the struct that was written, the
  map holds the row that the columns keep of it (\<open>stored_as\<close>).
\<close>

inductive task_spec ::
  "(gotime \<Rightarrow> gotime) \<Rightarrow> (go_uint \<rightharpoonup> Task) \<Rightarrow> svc_call \<Rightarrow> svc_reply \<Rightarrow> (go_uint \<rightharpoonup> Task) \<Rightarrow> bool"
  for col where
  spec_create: "m i = None \<Longrightarrow> i \<noteq> 0 \<Longrightarrow> ID t = i \<Longrightarrow> Title t = Title_c req \<Longrightarrow>
    DueDate t = DueDate_c req \<Longrightarrow> \<not> Done t \<Longrightarrow> DeletedAt t = None \<Longrightarrow>
    task_spec col m (CallCreate req) (Replied (toResponse t)) (m(i \<mapsto> stored_as col t))"
| spec_get: "m i = Some t \<Longrightarrow> task_spec col m (CallGet i) (Replied (toResponse t)) m"
| spec_list: "q = NewPageQuery page limit \<Longrightarrow> NewPageMeta q (of_nat (card (dom m))) = Some mt \<Longrightarrow>
    0 \<le> sint (Offset q) \<longrightarrow> rs = map toResponse (page_slice q (newest_first m)) \<Longrightarrow>
    task_spec col m (CallList page limit) (Listed rs mt) m"
| spec_update: "m i = Some t \<Longrightarrow> same_fields (mutate req t) t' \<Longrightarrow> CreatedAt t' = CreatedAt t \<Longrightarrow>
    task_spec col m (CallUpdate i req) (Replied (toResponse t')) (m(i \<mapsto> stored_as col t'))"
| spec_delete: "m i = Some t \<Longrightarrow> task_spec col m (CallDelete i) Removed (m(i := None))"
| spec_missing: "addresses c = Some i \<Longrightarrow> m i = None \<Longrightarrow> as_fiber e = None \<Longrightarrow>
    as_app e = Some ErrTaskNotFound \<Longrightarrow> task_spec col m c (Failed e) m"
| spec_fault: "foreign e \<Longrightarrow> task_spec col m c (Failed e) m"

inductive_cases task_spec_getE: "task_spec col m (CallGet i) r m'"
inductive_cases task_spec_createE: "task_spec col m (CallCreate req) r m'"
inductive_cases task_spec_listE: "task_spec col m (CallList page limit) r m'"
inductive_cases task_spec_updateE: "task_spec col m (CallUpdate i req) r m'"
inductive_cases task_spec_deleteE: "task_spec col m (CallDelete i) r m'"

text \<open>The outcomes of each call, by name.\<close>

lemma task_spec_create_cases:
  assumes "task_spec col m (CallCreate req) r m'"
  obtains (made) t where "r = Replied (toResponse t)" "m (ID t) = None" "ID t \<noteq> 0"
      "Title t = Title_c req" "DueDate t = DueDate_c req" "\<not> Done t" "m' = m(ID t \<mapsto> stored_as col t)"
  | (fault) e where "r = Failed e" "foreign e" "m' = m"
  using assms by (cases rule: task_spec_createE) auto

lemma task_spec_get_cases:
  assumes "task_spec col m (CallGet i) r m'"
  obtains (found) t where "r = Replied (toResponse t)" "m i = Some t" "m' = m"
  | (missing) e where "r = Failed e" "m i = None" "as_fiber e = None" "as_app e = Some ErrTaskNotFound"
      "m' = m"
  | (fault) e where "r = Failed e" "foreign e" "m' = m"
  using assms by (cases rule: task_spec_getE) auto

lemma task_spec_list_cases:
  assumes "task_spec col m (CallList page limit) r m'"
  obtains (listed) mt rs where "r = Listed rs mt" "m' = m"
      "NewPageMeta (NewPageQuery page limit) (of_nat (card (dom m))) = Some mt"
      "0 \<le> sint (Offset (NewPageQuery page limit)) \<longrightarrow> rs = map toResponse (page_slice (NewPageQuery page limit) (newest_first m))"
  | (fault) e where "r = Failed e" "foreign e" "m' = m"
  using assms by (cases rule: task_spec_listE) auto

lemma task_spec_update_cases:
  assumes "task_spec col m (CallUpdate i req) r m'"
  obtains (changed) t t' where "r = Replied (toResponse t')" "m i = Some t"
      "same_fields (mutate req t) t'" "CreatedAt t' = CreatedAt t" "m' = m(i \<mapsto> stored_as col t')"
  | (missing) e where "r = Failed e" "m i = None" "as_fiber e = None" "as_app e = Some ErrTaskNotFound"
      "m' = m"
  | (fault) e where "r = Failed e" "foreign e" "m' = m"
  using assms by (cases rule: task_spec_updateE) auto

lemma task_spec_delete_cases:
  assumes "task_spec col m (CallDelete i) r m'"
  obtains (removed) t where "r = Removed" "m i = Some t" "m' = m(i := None)"
  | (missing) e where "r = Failed e" "m i = None" "as_fiber e = None" "as_app e = Some ErrTaskNotFound"
      "m' = m"
  | (fault) e where "r = Failed e" "foreign e" "m' = m"
  using assms by (cases rule: task_spec_deleteE) auto

lemma spec_missing_or_fault:
  assumes "addresses c = Some i" and "e = AppErr ErrTaskNotFound \<and> m i = None \<or> foreign e"
  shows "task_spec col m c (Failed (Errorf_w text e)) m"
  using assms(2)
proof (elim disjE conjE)
  assume "e = AppErr ErrTaskNotFound" "m i = None"
  then show ?thesis using assms(1) by (intro spec_missing [of c i]) simp_all
next
  assume "foreign e"
  then show ?thesis by (intro spec_fault) simp
qed

section \<open>The service refines its specification\<close>

context task_listing begin

lemma svc_Create_refines:
  assumes "inv s" and "run_call repo (CallCreate req) s = (r, s')"
  shows "inv s' \<and> task_spec col (rows s) (CallCreate req) r (rows s')"
proof -
  define t where "t = zero_Task\<lparr>Title := Title_c req, DueDate := DueDate_c req\<rparr>"
  have t: "ID t = 0" "DeletedAt t = None" "Title t = Title_c req" "DueDate t = DueDate_c req"
    "Done t = False"
    by (simp_all add: t_def zero_Task_def)
  obtain x u where x: "r_Create repo t s = (x, u)" by fastforce
  show ?thesis
  proof (cases x)
    case (Inl e)
    with x assms(2) have "r = Failed (Errorf_w ''create task'' e)" "s' = u"
      by (simp_all add: svc_Create_def t_def)
    then show ?thesis
      using create_err [OF assms(1) t(1,2) x [unfolded Inl]] by (auto intro: spec_fault)
  next
    case (Inr t')
    with x assms(2) have "r = Replied (toResponse t')" "s' = u"
      by (simp_all add: svc_Create_def t_def)
    then show ?thesis
      using create_ok [OF assms(1) t(1,2) x [unfolded Inr]] t
      by (auto intro!: spec_create simp: same_fields_def)
  qed
qed

lemma svc_Get_refines:
  assumes "inv s" and "run_call repo (CallGet i) s = (r, s')"
  shows "inv s' \<and> task_spec col (rows s) (CallGet i) r (rows s')"
proof -
  obtain x u where x: "r_FindByID repo i s = (x, u)" by fastforce
  show ?thesis
  proof (cases x)
    case (Inl e)
    with x assms(2) have "r = Failed (Errorf_w (''get task '' @ FormatUint i) e)" "s' = u"
      by (simp_all add: svc_Get_def)
    then show ?thesis
      using find_err [OF assms(1) x [unfolded Inl]] by (simp add: spec_missing_or_fault [where i = i])
  next
    case (Inr t)
    with x assms(2) have "r = Replied (toResponse t)" "s' = u" by (simp_all add: svc_Get_def)
    then show ?thesis
      using find_ok [OF assms(1) x [unfolded Inr]] by (auto intro: spec_get)
  qed
qed

lemma svc_List_refines:
  assumes "inv s" and "run_call repo (CallList page limit) s = (r, s')"
  shows "inv s' \<and> task_spec col (rows s) (CallList page limit) r (rows s')"
proof -
  define q where "q = NewPageQuery page limit"
  have lim: "0 < sint (Limit q)" using NewPageQuery_bounds(2) [of page limit] by (simp add: q_def)
  obtain x u where x: "r_List repo q s = (x, u)" by fastforce
  note frame = list_frame [OF assms(1) x]
  show ?thesis
  proof (cases x)
    case (Inl e)
    with x assms(2) have "r = Failed (Errorf_w ''list tasks'' e)" "s' = u"
      by (simp_all add: svc_List_def q_def)
    then show ?thesis
      using list_err [OF assms(1) x [unfolded Inl]] frame by (auto intro: spec_fault)
  next
    case (Inr y)
    obtain tasks cnt where y: "y = (tasks, cnt)" by fastforce
    obtain m where m: "NewPageMeta q cnt = Some m" by (simp add: NewPageMeta_def q_def)
    have res: "r = Listed (map toResponse tasks) m" "s' = u"
      using x assms(2) Inr y m by (simp_all add: svc_List_def q_def toResponses_map)
    have "0 \<le> sint (Offset q) \<longrightarrow> tasks = page_slice q (newest_first (rows s))"
      and "NewPageMeta q (of_nat (card (dom (rows s)))) = Some m"
      using list_ok [OF assms(1) lim x [unfolded Inr y]] m by simp_all
    then show ?thesis
      using frame res by (auto intro!: spec_list simp: q_def)
  qed
qed

lemma svc_Update_refines:
  assumes "inv s" and "run_call repo (CallUpdate i req) s = (r, s')"
  shows "inv s' \<and> task_spec col (rows s) (CallUpdate i req) r (rows s')"
proof -
  obtain x u where x: "r_Update repo i (mutate req) s = (x, u)" by fastforce
  show ?thesis
  proof (cases x)
    case (Inl e)
    note law = update_err [OF assms(1) mutate_only_content x [unfolded Inl]]
    show ?thesis
    proof (cases "foreign e")
      case True
      then have "r = Failed (Errorf_w (''update task '' @ FormatUint i) e)" "s' = u"
        using x assms(2) Inl by (simp_all add: svc_Update_def)
      then show ?thesis using law True by (auto intro: spec_fault)
    next
      case False
      then have "e = AppErr ErrNotFound" "rows s i = None" using law by auto
      moreover from this have "r = Failed (AppErr ErrTaskNotFound)" "s' = u"
        using x assms(2) Inl by (simp_all add: svc_Update_def)
      ultimately show ?thesis
        using law spec_missing [of "CallUpdate i req" i "rows s" "AppErr ErrTaskNotFound"] by simp
    qed
  next
    case (Inr t)
    with x assms(2) have "r = Replied (toResponse t)" "s' = u" by (simp_all add: svc_Update_def)
    then show ?thesis
      using update_ok [OF assms(1) mutate_only_content x [unfolded Inr]]
      by (auto intro: spec_update)
  qed
qed

lemma svc_Delete_refines:
  assumes "inv s" and "run_call repo (CallDelete i) s = (r, s')"
  shows "inv s' \<and> task_spec col (rows s) (CallDelete i) r (rows s')"
proof -
  obtain x u where x: "r_Delete repo i s = (x, u)" by fastforce
  show ?thesis
  proof (cases x)
    case None
    with x assms(2) have "r = Removed" "s' = u" by (simp_all add: svc_Delete_def)
    then show ?thesis
      using delete_ok [OF assms(1) x [unfolded None]] by (auto intro: spec_delete)
  next
    case (Some e)
    note law = delete_err [OF assms(1) x [unfolded Some]]
    then have "\<not> errors_Is e (AppErr ErrNotFound)"
      by (elim conjE disjE) (simp_all del: errors_Is_simps)
    then have "r = Failed (Errorf_w (''delete task '' @ FormatUint i) e)" "s' = u"
      using x assms(2) Some by (simp_all add: svc_Delete_def)
    then show ?thesis
      using law by (simp add: spec_missing_or_fault [where i = i])
  qed
qed

lemma run_call_refines:
  assumes "inv s" and "run_call repo c s = (r, s')"
  shows "inv s' \<and> task_spec col (rows s) c r (rows s')"
  using assms
  by (cases c)
    (auto dest: svc_Create_refines svc_Get_refines svc_List_refines svc_Update_refines
      svc_Delete_refines simp del: run_call.simps)

end

end
