(* ===== verification/Task_Handler.thy ===== *)
theory Task_Handler
  imports Task_Service
begin

text \<open>
  The HTTP side of the task module: \<open>parseID\<close> and \<open>atoiDefault\<close>, the conversion of bind errors
  of \<open>internal/validator/bind.go\<close>, and the five handlers of \<open>internal/modules/task/handler.go\<close>.
  Fiber's \<open>Bind().Body\<close>, which decodes a body and runs the \<open>validate\<close> tags on it, is not part
  of the repository: the record \<open>bind_body\<close> holds it, and \<open>bind_contract\<close> states what the tags
  of the request types ensure of a bound request.
\<close>

section \<open>Numbers from paths and queries\<close>

definition parseID :: "string \<Rightarrow> goerr + go_uint" where
  "parseID raw =
     (case ParseUint raw of
        Inl e \<Rightarrow> Inl (AppErr (NewBadRequest ''path parameter 'id' must be a positive integer'' []))
      | Inr i \<Rightarrow>
          if i = 0
          then Inl (AppErr (NewBadRequest ''path parameter 'id' must be a positive integer'' []))
          else Inr i)"

definition atoiDefault :: "string \<Rightarrow> go_int \<Rightarrow> go_int" where
  "atoiDefault raw def =
     (case Atoi raw of Inl e \<Rightarrow> def | Inr n \<Rightarrow> if sint n < 1 then def else n)"

text \<open>C28: \<open>parseID\<close> accepts exactly the non-empty strings of decimal digits whose value fits in 64
  bits and is not zero, and returns that value; everything else is the 400 of the error contract.
  Signs, spaces, underscores and prefixes are refused, leading zeros are not.\<close>

theorem parseID_accepts_exactly:
  "parseID raw =
     (if raw \<noteq> [] \<and> list_all is_digit raw \<and> 0 < dec_value raw \<and> dec_value raw < 2 ^ 64
      then Inr (of_nat (dec_value raw))
      else Inl (AppErr (AppError CodeInvalidRequest 400
                 ''path parameter 'id' must be a positive integer'' [] None)))"
proof (cases "ParseUint raw")
  case (Inl e)
  then have "\<not> (raw \<noteq> [] \<and> list_all is_digit raw \<and> dec_value raw < 2 ^ 64)"
    using ParseUint_Inr [of raw "of_nat (dec_value raw)"] by auto
  with Inl show ?thesis by (auto simp: parseID_def NewBadRequest_def)
next
  case (Inr w)
  then have w: "raw \<noteq> []" "list_all is_digit raw" "dec_value raw < 2 ^ 64" "w = of_nat (dec_value raw)"
    by (simp_all add: ParseUint_Inr)
  have "w = 0 \<longleftrightarrow> dec_value raw = 0"
    using unat64_eq_iff [of w 0] unat64_eq_iff [of w "dec_value raw"] w by auto
  with w Inr show ?thesis by (simp add: parseID_def NewBadRequest_def)
qed

text \<open>A client gets back to a task through the id the API printed: reading the decimal form of an
  id that is not zero yields the id.\<close>

theorem parseID_printed_id:
  assumes "i \<noteq> 0"
  shows "parseID (FormatUint i) = Inr i"
  using assms by (simp add: parseID_def ParseUint_FormatUint)

theorem parseID_printed_id_witness: "parseID ''42'' = Inr 42"
proof -
  have "FormatUint 42 = ''42''"
    by (simp add: FormatUint_def dec_digits.simps digit_char_def char_of_def bit_iff_odd)
  then show ?thesis using parseID_printed_id [of 42] by simp
qed

text \<open>C30: A page or limit query is used when it is a decimal number, with or without a sign, from 1 to
  2 ^ 63 - 1; the default is used otherwise, also for an absent query, a number out of range and
  anything that is not a number.\<close>

theorem atoiDefault_accepts_exactly:
  "atoiDefault raw def =
     (case signed_value raw of
        Some v \<Rightarrow> if 1 \<le> v \<and> v < 2 ^ 63 then word_of_int v else def
      | None \<Rightarrow> def)"
proof (cases "Atoi raw")
  case (Inl e)
  have "\<not> (1 \<le> v \<and> v < 2 ^ 63)" if "signed_value raw = Some v" for v
    using Atoi_Inr [of raw "word_of_int v"] Inl that sint64_of_int [of v] by auto
  then show ?thesis using Inl by (auto simp: atoiDefault_def split: option.split)
next
  case (Inr n)
  then obtain v where v: "signed_value raw = Some v" "v < 2 ^ 63" "sint n = v"
    by (auto simp: Atoi_Inr)
  then have "n = word_of_int v" by auto
  with v Inr show ?thesis by (auto simp: atoiDefault_def)
qed

lemma atoiDefault_positive: "1 \<le> sint def \<Longrightarrow> 1 \<le> sint (atoiDefault raw def)"
  by (auto simp: atoiDefault_def split: sum.split)

section \<open>Binding requests\<close>

record bind_body =
  b_create :: "Ctx \<Rightarrow> goerr + CreateRequest"
  b_update :: "Ctx \<Rightarrow> goerr + UpdateRequest"
  b_login :: "Ctx \<Rightarrow> goerr + LoginRequest"

text \<open>The tags \<open>required,min=1,max=200\<close> of a title.\<close>

definition title_ok :: "string \<Rightarrow> bool" where
  "title_ok s \<longleftrightarrow> s \<noteq> [] \<and> 1 \<le> RuneCountInString s \<and> RuneCountInString s \<le> 200"

locale bind_contract =
  fixes b :: bind_body
  assumes bound_create: "b_create b c = Inr req \<Longrightarrow> title_ok (Title_c req)"
    and bound_update: "b_update b c = Inr ureq \<Longrightarrow> Title_u ureq = Some title \<Longrightarrow> title_ok title"
    and bound_login: "b_login b c = Inr lreq \<Longrightarrow> Username_l lreq \<noteq> [] \<and> Password_l lreq \<noteq> []"

text \<open>\<open>BindErrorToAppError\<close>, with its loop over the violated fields.\<close>

fun details_loop :: "Detail list \<Rightarrow> (string \<times> string) list \<Rightarrow> Detail list" where
  "details_loop details [] = details"
| "details_loop details ((field, tag) # ves) =
     details_loop (details @ [\<lparr>Field = field, Reason = tag\<rparr>]) ves"

definition BindErrorToAppError :: "goerr \<Rightarrow> app_error" where
  "BindErrorToAppError e =
     (case as_valerrs e of
        Some valErrs \<Rightarrow> WithCause (NewValidation (details_loop [] valErrs)) e
      | None \<Rightarrow> WithCause (NewBadRequest ''malformed request body'' []) e)"

lemma details_loop_map:
  "details_loop details ves = details @ map (\<lambda>(f, t). \<lparr>Field = f, Reason = t\<rparr>) ves"
  by (induction details ves rule: details_loop.induct) simp_all

section \<open>The handlers\<close>

text \<open>The handler holds nothing but the service.\<close>

type_synonym 's task_handlers = "'s Service"

definition NewHandler :: "'s Service \<Rightarrow> 's task_handlers" where
  [simp]: "NewHandler svc = svc"

definition task_Create :: "bind_body \<Rightarrow> 's Repository \<Rightarrow> 's handler" where
  [http_defs]: "task_Create b repo c s =
     (case b_create b c of
        Inl e \<Rightarrow> (Some (AppErr (BindErrorToAppError e)), c, s)
      | Inr req \<Rightarrow>
          (case svc_Create repo req s of
             (Inl e, s') \<Rightarrow> (Some e, c, s')
           | (Inr res, s') \<Rightarrow> Created c (TaskData res) s'))"

definition task_List :: "'s Repository \<Rightarrow> 's handler" where
  [http_defs]: "task_List repo c s =
     (let page = atoiDefault (Query c ''page'') DefaultPage;
          limit = atoiDefault (Query c ''limit'') DefaultLimit
      in case svc_List repo page limit s of
           (Inl e, s') \<Rightarrow> (Some e, c, s')
         | (Inr (items, meta), s') \<Rightarrow> OKWithMeta c (TaskList items) meta s')"

definition task_Get :: "'s Repository \<Rightarrow> 's handler" where
  [http_defs]: "task_Get repo c s =
     (case parseID (Params c ''id'') of
        Inl e \<Rightarrow> (Some e, c, s)
      | Inr i \<Rightarrow>
          (case svc_Get repo i s of
             (Inl e, s') \<Rightarrow> (Some e, c, s')
           | (Inr res, s') \<Rightarrow> OK c (TaskData res) s'))"

definition task_Update :: "bind_body \<Rightarrow> 's Repository \<Rightarrow> 's handler" where
  [http_defs]: "task_Update b repo c s =
     (case parseID (Params c ''id'') of
        Inl e \<Rightarrow> (Some e, c, s)
      | Inr i \<Rightarrow>
          (case b_update b c of
             Inl e \<Rightarrow> (Some (AppErr (BindErrorToAppError e)), c, s)
           | Inr req \<Rightarrow>
               (case svc_Update repo i req s of
                  (Inl e, s') \<Rightarrow> (Some e, c, s')
                | (Inr res, s') \<Rightarrow> OK c (TaskData res) s')))"

definition task_Delete :: "'s Repository \<Rightarrow> 's handler" where
  [http_defs]: "task_Delete repo c s =
     (case parseID (Params c ''id'') of
        Inl e \<Rightarrow> (Some e, c, s)
      | Inr i \<Rightarrow>
          (case svc_Delete repo i s of
             (Some e, s') \<Rightarrow> (Some e, c, s')
           | (None, s') \<Rightarrow> NoContent c s'))"

end
