(* ===== verification/Auth.thy ===== *)
theory Auth
  imports Config Task_Handler
begin

text \<open>
  The package \<open>internal/modules/auth\<close>: the demo authenticator, issuing and verifying tokens, the
  login handler and the guard of protected routes.

  The JWT library is a parameter, the record \<open>jwt\<close>; the locale \<open>jwt_contract\<close> states what it
  documents about the three calls the code makes. The predicate \<open>signed\<close> of the contract says
  that a token is the one that a method, a key and claims sign to. The service's clock \<open>au_now\<close>
  reads the state; the library checks expiry against its own clock, the argument \<open>now\<close>.
\<close>

section \<open>The JWT library\<close>

record claims =
  Subject :: string
  ExpiresAt_cl :: "gotime option"
  NotBefore_cl :: "gotime option"
  IssuedAt_cl :: "gotime option"

text \<open>
  \<open>j_numeric\<close> is \<open>jwt.NewNumericDate\<close>; \<open>j_sign alg key claims\<close> signs; \<open>j_parse methods
  exp_required key now token\<close> is \<open>ParseWithClaims\<close> with the options \<open>WithValidMethods\<close> and
  \<open>WithExpirationRequired\<close>.
\<close>

record jwt =
  j_numeric :: "gotime \<Rightarrow> gotime"
  j_sign :: "string \<Rightarrow> string \<Rightarrow> claims \<Rightarrow> goerr + string"
  j_parse :: "string list \<Rightarrow> bool \<Rightarrow> string \<Rightarrow> gotime \<Rightarrow> string \<Rightarrow> goerr + claims"

text \<open>Not before the start that the claims may name.\<close>

definition started :: "gotime \<Rightarrow> claims \<Rightarrow> bool" where
  "started now cl \<longleftrightarrow> (case NotBefore_cl cl of None \<Rightarrow> True | Some t \<Rightarrow> t \<le> now)"

locale jwt_contract =
  fixes j :: jwt
    and signed :: "string \<Rightarrow> string \<Rightarrow> claims \<Rightarrow> string \<Rightarrow> bool"
  assumes numeric: "j_numeric j t = t - t mod second"
    and sign_ok: "j_sign j alg key cl = Inr tok \<Longrightarrow> signed alg key cl tok"
    and sign_err: "j_sign j alg key cl = Inl e \<Longrightarrow> foreign e"
    and sign_plain: "signed alg key cl tok \<Longrightarrow> TrimSpace tok \<noteq> []"
    and sign_unique: "signed alg key cl tok \<Longrightarrow> signed alg' key cl' tok \<Longrightarrow> alg' = alg \<and> cl' = cl"
    and parse_iff: "j_parse j methods True key now tok = Inr cl \<longleftrightarrow>
      (\<exists>alg exp. alg \<in> set methods \<and> signed alg key cl tok \<and> ExpiresAt_cl cl = Some exp \<and> now < exp \<and>
         started now cl)"

section \<open>The authenticator\<close>

record demoAuthenticator =
  username_d :: string
  password_d :: string

definition NewDemoAuthenticator :: "Config \<Rightarrow> demoAuthenticator" where
  "NewDemoAuthenticator cfg =
     \<lparr>username_d = AuthDemoUsername cfg, password_d = AuthDemoPassword cfg\<rparr>"

definition demo_Verify :: "demoAuthenticator \<Rightarrow> string \<Rightarrow> string \<Rightarrow> goerr + Identity" where
  "demo_Verify d username password =
     (let userOK = (ConstantTimeCompare username (username_d d) = 1);
          passOK = (ConstantTimeCompare password (password_d d) = 1)
      in if \<not> userOK \<or> \<not> passOK then Inl (AppErr ErrInvalidCredential)
         else Inr \<lparr>Username = username\<rparr>)"

lemma demo_Verify_iff:
  "demo_Verify d u p =
     (if u = username_d d \<and> p = password_d d then Inr \<lparr>Username = u\<rparr>
      else Inl (AppErr ErrInvalidCredential))"
  by (simp add: demo_Verify_def Let_def)

section \<open>The service\<close>

text \<open>The interface \<open>Authenticator\<close> is its method.\<close>

type_synonym Authenticator = "string \<Rightarrow> string \<Rightarrow> goerr + Identity"

record 's AuthService =
  au_verify :: Authenticator
  au_secret :: string
  au_ttl :: duration
  au_now :: "'s \<Rightarrow> gotime \<times> 's"

definition NewAuthService ::
  "Authenticator \<Rightarrow> string \<Rightarrow> duration \<Rightarrow> ('s \<Rightarrow> gotime \<times> 's) \<Rightarrow> 's AuthService" where
  "NewAuthService auth secret ttl time_Now =
     \<lparr>au_verify = auth, au_secret = secret, au_ttl = ttl, au_now = time_Now\<rparr>"

definition Issue ::
  "jwt \<Rightarrow> 's AuthService \<Rightarrow> string \<Rightarrow> string \<Rightarrow> 's \<Rightarrow> (goerr + string \<times> gotime) \<times> 's" where
  "Issue j svc username password s =
     (case au_verify svc username password of
        Inl e \<Rightarrow> (Inl e, s)
      | Inr i \<Rightarrow>
          let (t1, s1) = au_now svc s;
              expiresAt = t1 + au_ttl svc;
              (t2, s2) = au_now svc s1;
              cl = \<lparr>Subject = Username i, ExpiresAt_cl = Some (j_numeric j expiresAt),
                    NotBefore_cl = None, IssuedAt_cl = Some (j_numeric j t2)\<rparr>
          in case j_sign j ''HS256'' (au_secret svc) cl of
               Inl e \<Rightarrow> (Inl (WrapErr (''sign token: '' @ Error e) e), s2)
             | Inr token \<Rightarrow> (Inr (token, expiresAt), s2))"

definition errInvalidToken :: goerr where
  [simp]: "errInvalidToken = SentinelErr ErrInvalidToken"

definition Verify :: "jwt \<Rightarrow> 's AuthService \<Rightarrow> gotime \<Rightarrow> string \<Rightarrow> goerr + Identity" where
  "Verify j svc now tok =
     (case j_parse j [''HS256''] True (au_secret svc) now tok of
        Inl e \<Rightarrow> Inl (AppErr (WithCause ErrUnauthorized
                   (WrapErr (''invalid token: '' @ Error e) errInvalidToken)))
      | Inr cl \<Rightarrow>
          if Subject cl = []
          then Inl (AppErr (WithCause ErrUnauthorized errInvalidToken))
          else Inr \<lparr>Username = Subject cl\<rparr>)"

section \<open>The handlers\<close>

text \<open>The login handler holds nothing but the service.\<close>

type_synonym 's auth_handlers = "'s AuthService"

definition auth_NewHandler :: "'s AuthService \<Rightarrow> 's auth_handlers" where
  [simp]: "auth_NewHandler svc = svc"

definition auth_Login :: "bind_body \<Rightarrow> jwt \<Rightarrow> 's AuthService \<Rightarrow> 's handler" where
  [http_defs]: "auth_Login b j svc c s =
     (case b_login b c of
        Inl e \<Rightarrow> (Some (AppErr (BindErrorToAppError e)), c, s)
      | Inr req \<Rightarrow>
          (case Issue j svc (Username_l req) (Password_l req) s of
             (Inl e, s') \<Rightarrow> (Some e, c, s')
           | (Inr (token, expiresAt), s') \<Rightarrow>
               OK c (LoginData \<lparr>Token = token, TokenType = ''Bearer'', ExpiresAt = expiresAt\<rparr>) s'))"

text \<open>The guard; \<open>time_Now\<close> is the clock the library reads.\<close>

definition RequireAuth :: "jwt \<Rightarrow> 's AuthService \<Rightarrow> ('s \<Rightarrow> gotime) \<Rightarrow> 's handler \<Rightarrow> 's handler" where
  "RequireAuth j svc time_Now next c s =
     (let hdr = Header c ''Authorization'';
          (token, ok) = CutPrefix hdr ''Bearer ''
      in if \<not> ok \<or> TrimSpace token = [] then (Some (AppErr ErrUnauthorized), c, s)
         else case Verify j svc (time_Now s) token of
                Inl e \<Rightarrow> (Some e, c, s)
              | Inr i \<Rightarrow> next (c\<lparr>Locals := Some i\<rparr>) s)"

section \<open>What the service guarantees\<close>

lemma Verify_err_status:
  "Verify j svc now tok = Inl e \<Longrightarrow>
   as_fiber e = None \<and> Status (AsAppError e) = 401 \<and> Code (AsAppError e) = CodeUnauthorized \<and>
   ErrorBody (AsAppError e) = ErrorBody ErrUnauthorized"
  by (auto simp: Verify_def ErrUnauthorized_def ErrorBody_def split: sum.splits if_splits)

context jwt_contract begin

lemma Verify_iff:
  "Verify j svc now tok = Inr i \<longleftrightarrow>
     (\<exists>cl exp. signed ''HS256'' (au_secret svc) cl tok \<and> ExpiresAt_cl cl = Some exp \<and> now < exp \<and>
        started now cl \<and> Subject cl \<noteq> [] \<and> i = \<lparr>Username = Subject cl\<rparr>)" (is "?l \<longleftrightarrow> ?r")
proof
  assume ?l
  then obtain cl where "j_parse j [''HS256''] True (au_secret svc) now tok = Inr cl"
    "Subject cl \<noteq> []" "i = \<lparr>Username = Subject cl\<rparr>"
    by (auto simp: Verify_def split: sum.splits if_splits)
  then show ?r by (auto simp: parse_iff)
next
  assume ?r
  then obtain cl where "j_parse j [''HS256''] True (au_secret svc) now tok = Inr cl"
    "Subject cl \<noteq> []" "i = \<lparr>Username = Subject cl\<rparr>"
    by (auto simp: parse_iff)
  then show ?l by (simp add: Verify_def)
qed

lemma numeric_bounds: "j_numeric j t \<le> t \<and> t < j_numeric j t + second"
  using pos_mod_bound [of second t] pos_mod_sign [of second t] by (simp add: numeric second_def)

lemma Issue_signed:
  assumes "Issue j svc u p s = (Inr (tok, expiresAt), s')"
  obtains i cl where "au_verify svc u p = Inr i" "signed ''HS256'' (au_secret svc) cl tok"
    "Subject cl = Username i" "ExpiresAt_cl cl = Some (j_numeric j expiresAt)"
    "NotBefore_cl cl = None" "expiresAt = fst (au_now svc s) + au_ttl svc"
proof -
  obtain i where i: "au_verify svc u p = Inr i"
    using assms by (cases "au_verify svc u p") (simp_all add: Issue_def)
  obtain t1 s1 where t1: "au_now svc s = (t1, s1)" by fastforce
  obtain t2 s2 where t2: "au_now svc s1 = (t2, s2)" by fastforce
  define cl where "cl = \<lparr>Subject = Username i, ExpiresAt_cl = Some (j_numeric j (t1 + au_ttl svc)),
    NotBefore_cl = None, IssuedAt_cl = Some (j_numeric j t2)\<rparr>"
  have "j_sign j ''HS256'' (au_secret svc) cl = Inr tok \<and> expiresAt = t1 + au_ttl svc"
  proof -
    have "Issue j svc u p s = (case j_sign j ''HS256'' (au_secret svc) cl of
        Inl e \<Rightarrow> (Inl (WrapErr (''sign token: '' @ Error e) e), s2)
      | Inr token \<Rightarrow> (Inr (token, t1 + au_ttl svc), s2))"
      unfolding Issue_def i cl_def by (simp only: t1 t2 Let_def prod.case sum.case)
    from this [symmetric] assms have issue: "(case j_sign j ''HS256'' (au_secret svc) cl of
        Inl e \<Rightarrow> (Inl (WrapErr (''sign token: '' @ Error e) e), s2)
      | Inr token \<Rightarrow> (Inr (token, t1 + au_ttl svc), s2)) = (Inr (tok, expiresAt), s')" by (rule trans)
    show ?thesis
    proof (cases "j_sign j ''HS256'' (au_secret svc) cl")
      case (Inl e)
      with issue show ?thesis by simp
    next
      case (Inr token)
      from issue [unfolded Inr] Inr show ?thesis by simp
    qed
  qed
  then show thesis
    using that [of i cl] i t1 sign_ok by (simp add: cl_def)
qed

lemma issued_token_verifies:
  assumes "Issue j svc u p s = (Inr (tok, expiresAt), s')" and "au_verify svc u p = Inr i"
    and "Username i \<noteq> []"
  shows "(Verify j svc now tok = Inr \<lparr>Username = Username i\<rparr> \<longleftrightarrow> now < j_numeric j expiresAt) \<and>
    (\<forall>i'. Verify j svc now tok = Inr i' \<longrightarrow> i' = \<lparr>Username = Username i\<rparr>)"
proof -
  obtain cl where cl: "signed ''HS256'' (au_secret svc) cl tok" "Subject cl = Username i"
    "ExpiresAt_cl cl = Some (j_numeric j expiresAt)" "NotBefore_cl cl = None"
    using Issue_signed [OF assms(1)] assms(2) by (metis sum.inject(2))
  have "signed ''HS256'' (au_secret svc) cl' tok \<longleftrightarrow> cl' = cl" for cl'
    using sign_unique [OF cl(1), of "''HS256''" cl'] cl(1) by auto
  then show ?thesis using cl assms(3) by (simp add: Verify_iff started_def)
qed

end

end
