(* ===== verification/Sample_Jwt.thy ===== *)
theory Sample_Jwt
  imports Auth
begin

text \<open>
  A token scheme over which the contract of the JWT library holds: a token spells out method,
  key, subject and times, each with its length in front, and parsing reads them back. It is no
  cryptography; it shows that the contract can hold and gives the witnesses something to
  compute with.
\<close>

section \<open>Tokens\<close>

definition frame :: "string \<Rightarrow> string" where
  "frame s = replicate (length s) (CHR ''a'') @ CHR ''b'' # s"

definition unframe :: "string \<Rightarrow> string \<times> string" where
  "unframe t =
     (let n = length (takeWhile (\<lambda>c. c = CHR ''a'') t); r = drop (n + 1) t in (take n r, drop n r))"

lemma unframe_frame [simp]: "unframe (frame s @ r) = (s, r)"
proof -
  have "takeWhile (\<lambda>c. c = CHR ''a'') (replicate n (CHR ''a'') @ CHR ''b'' # x) = replicate n (CHR ''a'')" for n x
    by (induction n) simp_all
  then show ?thesis by (simp add: unframe_def frame_def)
qed

fun frame_time :: "gotime option \<Rightarrow> string" where
  "frame_time None = frame []"
| "frame_time (Some t) = frame (Itoa t)"

definition token_of :: "string \<Rightarrow> string \<Rightarrow> claims \<Rightarrow> string" where
  "token_of alg key cl =
     CHR ''t'' # frame alg @ frame key @ frame (Subject cl) @ frame_time (ExpiresAt_cl cl) @
     frame_time (NotBefore_cl cl) @ frame_time (IssuedAt_cl cl)"

definition read_token :: "string \<Rightarrow> string \<times> string \<times> claims" where
  "read_token tok =
     (let (alg, r) = unframe (tl tok); (key, r) = unframe r; (sub, r) = unframe r;
          (exp, r) = unframe r; (nbf, r) = unframe r; (iat, r) = unframe r
      in (alg, key, \<lparr>Subject = sub, ExpiresAt_cl = signed_value exp,
          NotBefore_cl = signed_value nbf, IssuedAt_cl = signed_value iat\<rparr>))"

lemma signed_value_Itoa [simp]: "signed_value (Itoa i) = Some i"
proof -
  have digits: "list_all is_digit (dec_digits n)" "dec_value (dec_digits n) = n" for n
    using dec_digits_correct by simp_all
  show ?thesis
  proof (cases "i < 0")
    case False
    obtain c cs where c: "dec_digits (nat i) = c # cs"
      using dec_digits_nonempty by (cases "dec_digits (nat i)") auto
    then have "is_digit c" using digits(1) [of "nat i"] by simp
    then have "c \<noteq> CHR ''+''" "c \<noteq> CHR ''-''" by (auto dest: digit_not_sign)
    with c False digits [of "nat i"] show ?thesis by (simp add: Itoa_def signed_value_def Let_def)
  qed (simp add: Itoa_def signed_value_def digits)
qed

lemma unframe_time [simp]:
  "unframe (frame_time t @ r) = (case t of None \<Rightarrow> [] | Some i \<Rightarrow> Itoa i, r)"
  by (cases t) simp_all

lemma unframe_time' [simp]:
  "unframe (frame_time t) = (case t of None \<Rightarrow> [] | Some i \<Rightarrow> Itoa i, [])"
  using unframe_time [of t "[]"] by simp

lemma signed_value_time [simp]:
  "signed_value (case t of None \<Rightarrow> [] | Some i \<Rightarrow> Itoa i) = t"
  by (cases t) (simp_all add: signed_value_def [of "[]"])

lemma read_token_of: "read_token (token_of alg key cl) = (alg, key, cl)"
  by (simp add: read_token_def token_of_def)

lemma token_of_inject: "token_of alg key cl = token_of alg' key' cl' \<longleftrightarrow> alg = alg' \<and> key = key' \<and> cl = cl'"
  using read_token_of by (metis prod.inject)

definition sample_signed :: "string \<Rightarrow> string \<Rightarrow> claims \<Rightarrow> string \<Rightarrow> bool" where
  "sample_signed alg key cl tok \<longleftrightarrow> tok = token_of alg key cl"

definition sample_parse :: "string list \<Rightarrow> bool \<Rightarrow> string \<Rightarrow> gotime \<Rightarrow> string \<Rightarrow> goerr + claims" where
  "sample_parse methods exp_required key now tok =
     (let (alg, k, cl) = read_token tok
      in if tok \<noteq> token_of alg k cl then Inl (OpaqueErr ''token is malformed'')
         else if alg \<notin> set methods then Inl (OpaqueErr ''signing method is invalid'')
         else if k \<noteq> key then Inl (OpaqueErr ''signature is invalid'')
         else if \<not> started now cl then Inl (OpaqueErr ''token is not valid yet'')
         else case ExpiresAt_cl cl of
                None \<Rightarrow> if exp_required then Inl (OpaqueErr ''exp claim is required'') else Inr cl
              | Some e \<Rightarrow> if now < e then Inr cl else Inl (OpaqueErr ''token is expired''))"

definition sample_jwt :: jwt where
  "sample_jwt =
     \<lparr>j_numeric = (\<lambda>t. t - t mod second), j_sign = (\<lambda>alg key cl. Inr (token_of alg key cl)),
      j_parse = sample_parse\<rparr>"

interpretation sample_jwt: jwt_contract sample_jwt sample_signed
proof
  fix alg key cl tok
  show "TrimSpace tok \<noteq> []" if "sample_signed alg key cl tok"
    using that TrimSpace_keep [of "CHR ''t''" tok]
    by (simp add: sample_signed_def token_of_def space_runes_def)
  fix methods now
  show "j_parse sample_jwt methods True key now tok = Inr cl \<longleftrightarrow>
      (\<exists>alg exp. alg \<in> set methods \<and> sample_signed alg key cl tok \<and> ExpiresAt_cl cl = Some exp \<and>
         now < exp \<and> started now cl)"
    by (auto simp: sample_jwt_def sample_parse_def sample_signed_def read_token_of token_of_inject
        split: prod.splits option.splits if_splits)
qed (auto simp: sample_jwt_def sample_signed_def token_of_inject)

end
