(* ===== verification/Auth_Spec.thy ===== *)
theory Auth_Spec
  imports Sample_Jwt Middleware
begin

text \<open>
  What authentication guarantees from end to end: who gets past the guard, what a login hands
  out and for how long it is good. The statements hold for every JWT library that keeps
  \<open>jwt_contract\<close>; the witnesses run on the sample scheme.
\<close>

section \<open>The service of the program\<close>

text \<open>The service \<open>router.New\<close> builds: demo credentials, secret and lifetime from the configuration.\<close>

definition demo_service :: "Config \<Rightarrow> ('d, 'l) server AuthService" where
  "demo_service cfg =
     NewAuthService (demo_Verify (NewDemoAuthenticator cfg)) (AuthJWTSecret cfg) (AuthTokenTTL cfg)
       (\<lambda>s. (timeNow s, s))"

lemma demo_service_sel [simp]:
  "au_verify (demo_service cfg) = demo_Verify (NewDemoAuthenticator cfg)"
  "au_secret (demo_service cfg) = AuthJWTSecret cfg" "au_ttl (demo_service cfg) = AuthTokenTTL cfg"
  "au_now (demo_service cfg) = (\<lambda>s. (timeNow s, s))"
  by (simp_all add: demo_service_def NewAuthService_def)

text \<open>The bearer of a request: a token the secret signed with HS256, that is valid now and names
  a subject.\<close>

definition good_bearer ::
  "(string \<Rightarrow> string \<Rightarrow> claims \<Rightarrow> string \<Rightarrow> bool) \<Rightarrow> string \<Rightarrow> gotime \<Rightarrow> string \<Rightarrow> string \<Rightarrow> bool" where
  "good_bearer sig secret now hdr user \<longleftrightarrow>
     (\<exists>tok cl exp. hdr = ''Bearer '' @ tok \<and> sig ''HS256'' secret cl tok \<and>
        ExpiresAt_cl cl = Some exp \<and> now < exp \<and> started now cl \<and> Subject cl = user \<and> user \<noteq> [])"

lemma guard_lets_in:
  assumes "jwt_contract j sig"
    and "good_bearer sig (au_secret svc) (clk s) (Header c ''Authorization'') user"
  shows "RequireAuth j svc clk next c s = next (c\<lparr>Locals := Some \<lparr>Username = user\<rparr>\<rparr>) s"
proof -
  from assms(2) obtain tok cl exp where tok: "Header c ''Authorization'' = ''Bearer '' @ tok"
    "sig ''HS256'' (au_secret svc) cl tok" "ExpiresAt_cl cl = Some exp" "clk s < exp"
    "started (clk s) cl" "Subject cl = user" "user \<noteq> []"
    by (auto simp: good_bearer_def)
  then have "Verify j svc (clk s) tok = Inr \<lparr>Username = user\<rparr>"
    using jwt_contract.Verify_iff [OF assms(1), of svc "clk s" tok "\<lparr>Username = user\<rparr>"] by auto
  moreover have "TrimSpace tok \<noteq> []" using jwt_contract.sign_plain [OF assms(1) tok(2)] .
  ultimately show ?thesis
    by (simp add: RequireAuth_def tok(1) CutPrefix_append [of "''Bearer ''", simplified])
qed

lemma guard_answers:
  assumes "jwt_contract j sig"
    and bad: "\<nexists>user. good_bearer sig (au_secret svc) (clk s) (Header c ''Authorization'') user"
  shows "\<exists>e. RequireAuth j svc clk next c s = (Some e, c, s) \<and> as_fiber e = None \<and>
      Code (AsAppError e) = CodeUnauthorized \<and> Status (AsAppError e) = 401 \<and>
      ErrorBody (AsAppError e) = ErrorBody ErrUnauthorized"
proof -
  let ?h = "Header c ''Authorization''" and ?tok = "drop (length ''Bearer '') (Header c ''Authorization'')"
  show "\<exists>e. RequireAuth j svc clk next c s = (Some e, c, s) \<and> as_fiber e = None \<and>
      Code (AsAppError e) = CodeUnauthorized \<and> Status (AsAppError e) = 401 \<and>
      ErrorBody (AsAppError e) = ErrorBody ErrUnauthorized"
  proof (cases "HasPrefix ?h ''Bearer '' \<and> TrimSpace ?tok \<noteq> []")
    case False
    then have "RequireAuth j svc clk next c s = (Some (AppErr ErrUnauthorized), c, s)"
      by (auto simp: RequireAuth_def CutPrefix_def Let_def)
    then show ?thesis by (simp add: ErrUnauthorized_def)
  next
    case True
    then have h: "?h = ''Bearer '' @ ?tok" using HasPrefix_drop [of ?h "''Bearer ''"] by blast
    have "\<exists>e. Verify j svc (clk s) ?tok = Inl e"
    proof (cases "Verify j svc (clk s) ?tok")
      case (Inr i)
      then show ?thesis
        using bad h jwt_contract.Verify_iff [OF assms(1), of svc "clk s" ?tok i]
        by (auto simp: good_bearer_def)
    qed simp
    then obtain e where e: "Verify j svc (clk s) ?tok = Inl e" by blast
    have "RequireAuth j svc clk next c s = (Some e, c, s)"
      using True e by (simp add: RequireAuth_def CutPrefix_def)
    then show ?thesis using Verify_err_status [OF e] by blast
  qed
qed

text \<open>C5: The guard is exact. A request whose \<open>Authorization\<close> header is \<open>Bearer\<close> and a token signed with
  HS256 under the server's secret, valid at this time and with a subject, reaches the handler with that
  subject as its identity. Every other request is answered by the guard: the handler does not
  run, context and state are untouched, and the error is the 401 \<open>UNAUTHORIZED\<close>, whose envelope
  does not tell why the token was refused.\<close>

theorem guard_is_exact:
  assumes "jwt_contract j sig"
  shows "(\<forall>user. good_bearer sig (au_secret svc) (clk s) (Header c ''Authorization'') user \<longrightarrow>
            RequireAuth j svc clk next c s = next (c\<lparr>Locals := Some \<lparr>Username = user\<rparr>\<rparr>) s) \<and>
         ((\<nexists>user. good_bearer sig (au_secret svc) (clk s) (Header c ''Authorization'') user) \<longrightarrow>
            (\<exists>e. RequireAuth j svc clk next c s = (Some e, c, s) \<and> as_fiber e = None \<and>
               Code (AsAppError e) = CodeUnauthorized \<and> Status (AsAppError e) = 401 \<and>
               ErrorBody (AsAppError e) = ErrorBody ErrUnauthorized))"
  by (intro conjI allI impI guard_lets_in [OF assms] guard_answers [OF assms])

text \<open>The credentials are the only way in: a login is refused with the 401
  \<open>INVALID_CREDENTIALS\<close>, without touching the state, exactly when the pair is not the configured
  one. Whether the name or the password is wrong makes no difference.\<close>

theorem login_needs_both_credentials:
  "Issue j (demo_service cfg) u p s = (Inl (AppErr ErrInvalidCredential), s) \<longleftrightarrow>
     \<not> (u = AuthDemoUsername cfg \<and> p = AuthDemoPassword cfg)"
  by (auto simp: Issue_def demo_Verify_iff NewDemoAuthenticator_def Let_def split: sum.splits)

text \<open>C13: What a login hands out works, for as long as it should. The token of a successful login,
  sent as a bearer, gets the user past the guard with the name used at login, until the reported
  expiry cut to whole seconds and no longer; afterwards the guard answers 401. The reported expiry
  is the time of the login plus the configured lifetime, less than a second above the real one.\<close>

theorem login_token_opens_guard:
  fixes s d :: "('d, 'l) server" and clk :: "('d, 'l) server \<Rightarrow> gotime"
  assumes "jwt_contract j sig" and "u \<noteq> []"
    and "Issue j (demo_service cfg) u p s = (Inr (tok, exp), s')"
    and "Header c ''Authorization'' = ''Bearer '' @ tok"
  shows "(u = AuthDemoUsername cfg \<and> p = AuthDemoPassword cfg) \<and>
    exp = Now s + AuthTokenTTL cfg \<and> j_numeric j exp \<le> exp \<and> exp < j_numeric j exp + second \<and>
    (if clk d < j_numeric j exp
     then RequireAuth j (demo_service cfg) clk next c d = next (c\<lparr>Locals := Some \<lparr>Username = u\<rparr>\<rparr>) d
     else \<exists>e. RequireAuth j (demo_service cfg) clk next c d = (Some e, c, d) \<and>
            Status (AsAppError e) = 401)"
proof -
  let ?svc = "demo_service cfg :: ('d, 'l) server AuthService"
  obtain i cl where i: "au_verify ?svc u p = Inr i"
    and cl: "sig ''HS256'' (au_secret ?svc) cl tok"
    and exp: "exp = fst (au_now ?svc s) + au_ttl ?svc"
    by (rule jwt_contract.Issue_signed [OF assms(1,3)]) (rule that)
  have creds: "u = AuthDemoUsername cfg \<and> p = AuthDemoPassword cfg" "i = \<lparr>Username = u\<rparr>"
    using i by (auto simp: demo_Verify_iff NewDemoAuthenticator_def split: if_splits)
  have trim: "TrimSpace tok \<noteq> []" using jwt_contract.sign_plain [OF assms(1) cl] .
  have guard: "RequireAuth j ?svc clk next c d =
      (case Verify j ?svc (clk d) tok of Inl e \<Rightarrow> (Some e, c, d)
       | Inr i \<Rightarrow> next (c\<lparr>Locals := Some i\<rparr>) d)"
    using trim by (simp add: RequireAuth_def assms(4) CutPrefix_append [of "''Bearer ''", simplified])
  have "Verify j ?svc (clk d) tok = Inr \<lparr>Username = u\<rparr> \<longleftrightarrow> clk d < j_numeric j exp"
    "\<forall>i'. Verify j ?svc (clk d) tok = Inr i' \<longrightarrow> i' = \<lparr>Username = u\<rparr>"
    using jwt_contract.issued_token_verifies [OF assms(1,3) i] creds(2) assms(2) by simp_all
  then have "if clk d < j_numeric j exp
     then RequireAuth j ?svc clk next c d = next (c\<lparr>Locals := Some \<lparr>Username = u\<rparr>\<rparr>) d
     else \<exists>e. RequireAuth j ?svc clk next c d = (Some e, c, d) \<and> Status (AsAppError e) = 401"
    using Verify_err_status [of j ?svc "clk d" tok] guard
    by (cases "Verify j ?svc (clk d) tok") auto
  then show ?thesis
    using creds(1) exp jwt_contract.numeric_bounds [OF assms(1), of exp] by (simp add: timeNow_def)
qed

section \<open>The hypotheses can hold\<close>

definition sample_ctx :: "string \<Rightarrow> string \<Rightarrow> Ctx" where
  "sample_ctx mth path =
     \<lparr>Method = mth, Path = path, Query = (\<lambda>_. []), Params = (\<lambda>_. []), Header = (\<lambda>_. []),
      ReqBody = [], IP = ''10.0.0.9'', RequestID = ''r1'', RoutePath = [], StatusCode = 200,
      RespBody = EmptyBody, Locals = None\<rparr>"

definition sample_server :: "'d \<Rightarrow> ('d, nat) server" where
  "sample_server d =
     \<lparr>Store = d, LibState = 0, Logs = [], RequestsTotal = (\<lambda>_. 0), Durations = (\<lambda>_. []), Now = 0\<rparr>"

theorem guard_is_exact_witness:
  "\<exists>e. RequireAuth sample_jwt (demo_service prod_config) timeNow (\<lambda>c s. (None, c, s))
        (sample_ctx ''GET'' ''/api/v1/tasks'') (sample_server ()) =
      (Some e, sample_ctx ''GET'' ''/api/v1/tasks'', sample_server ()) \<and>
     Status (AsAppError e) = 401"
  using guard_is_exact [OF sample_jwt.jwt_contract_axioms, of "demo_service prod_config" timeNow
      "sample_server ()" "sample_ctx ''GET'' ''/api/v1/tasks''" "\<lambda>c s. (None, c, s)"]
  by (fastforce simp: good_bearer_def sample_ctx_def)

theorem login_token_opens_guard_witness:
  "\<exists>tok exp. Issue sample_jwt (demo_service prod_config) ''ops'' ''correct horse'' (sample_server ()) =
      (Inr (tok, exp), sample_server ()) \<and>
    (let c = (sample_ctx ''GET'' ''/api/v1/tasks'')\<lparr>Header := (\<lambda>_. ''Bearer '' @ tok)\<rparr>
     in RequireAuth sample_jwt (demo_service prod_config) timeNow (\<lambda>c s. (None, c, s)) c
          (sample_server ()) =
        (None, c\<lparr>Locals := Some \<lparr>Username = ''ops''\<rparr>\<rparr>, sample_server ()))"
proof -
  obtain tok exp where issue:
    "Issue sample_jwt (demo_service prod_config) ''ops'' ''correct horse'' (sample_server ()) =
      (Inr (tok, exp), sample_server ())"
    by (simp add: Issue_def demo_Verify_iff NewDemoAuthenticator_def prod_config_def sample_jwt_def Let_def)
  let ?c = "(sample_ctx ''GET'' ''/api/v1/tasks'')\<lparr>Header := (\<lambda>_. ''Bearer '' @ tok)\<rparr>"
  have hdr: "Header ?c ''Authorization'' = ''Bearer '' @ tok" by simp
  note law = login_token_opens_guard [OF sample_jwt.jwt_contract_axioms _ issue hdr,
      of timeNow "sample_server ()" "\<lambda>c s. (None, c, s)"]
  have "exp = 3600000000000" using law by (simp add: sample_server_def prod_config_def)
  then show ?thesis
    using law issue by (auto simp: sample_server_def timeNow_def sample_jwt_def second_def Let_def)
qed

end
