(* ===== verification/Router.thy ===== *)
theory Router
  imports Middleware Auth Auth_Spec
begin

text \<open>
  The package \<open>internal/router\<close> and the probes of \<open>internal/modules/health\<close>: the error handler
  that turns every error into an envelope, the stack of middlewares and routes that \<open>New\<close>
  builds, and how a request runs through it.

  Fiber and its middlewares are the record \<open>libs\<close>. Fiber runs the handlers of an app in the
  order they were registered: \<open>Use\<close> entries whose prefix matches the path, route entries whose
  method and pattern match; \<open>c.Next()\<close> goes on with the rest, and when nothing is left it
  returns fiber's own error. What matches is the library's to say.
\<close>

section \<open>Errors\<close>

definition ErrRateLimited :: app_error where
  "ErrRateLimited = AppError ''RATE_LIMITED'' 429 ''too many requests'' [] None"

definition mapFiberError :: "int \<times> string \<Rightarrow> app_error" where
  "mapFiberError fe =
     (let (code, msg) = fe; cause = FiberErr code msg
      in if code = 404 then WithCause ErrNotFound cause
         else if code = 429 then WithCause ErrRateLimited cause
         else if code = 413 then AppError ''PAYLOAD_TOO_LARGE'' code ''request body too large'' [] None
         else AppError (''HTTP_'' @ Itoa code) code msg [] None)"

text \<open>\<open>c.Status(n).JSON(body)\<close>\<close>

definition respond :: "int \<Rightarrow> Envelope \<Rightarrow> Ctx \<Rightarrow> Ctx" where
  [http_defs]: "respond n body c = send_json (JSONEnvelope body) (set_status n c)"

definition errorHandler :: "goerr \<Rightarrow> Ctx \<Rightarrow> ('d, 'l) server \<Rightarrow> Ctx \<times> ('d, 'l) server" where
  "errorHandler e c s =
     (case as_fiber e of
        Some fe \<Rightarrow> (respond (fst fe) (ErrorBody (mapFiberError fe)) c, s)
      | None \<Rightarrow>
          let appErr = AsAppError e;
              fields = [(''error'', AStr (Error e)), (''method'', AStr (Method c)),
                        (''path'', AStr (Path c)), (''request_id'', AStr (RequestID c))]
          in if Status appErr \<ge> 500 then
               (respond (Status ErrInternal) (ErrorBody ErrInternal) c,
                write_log LError ''request failed'' fields s)
             else
               (respond (Status appErr) (ErrorBody appErr) c,
                write_log LWarn ''request rejected'' fields s))"

text \<open>What a client gets from a handler: fiber calls the error handler on an error.\<close>

definition answer :: "('d, 'l) server handler \<Rightarrow> Ctx \<Rightarrow> ('d, 'l) server \<Rightarrow> Ctx \<times> ('d, 'l) server" where
  "answer h c s =
     (case h c s of (None, c', s') \<Rightarrow> (c', s') | (Some e, c', s') \<Rightarrow> errorHandler e c' s')"

section \<open>Probes\<close>

record ('d, 'l) HealthHandler =
  h_pingDB :: "('d, 'l) server \<Rightarrow> goerr option"
  h_commit :: string

definition NewHealthHandler :: "(('d, 'l) server \<Rightarrow> goerr option) \<Rightarrow> string \<Rightarrow> ('d, 'l) HealthHandler" where
  "NewHealthHandler pingDB commit =
     \<lparr>h_pingDB = pingDB, h_commit = (if commit = [] then ''dev'' else commit)\<rparr>"

definition Livez :: "('d, 'l) HealthHandler \<Rightarrow> ('d, 'l) server handler" where
  "Livez h c s =
     (None, send_json (JSONProbe (JObj [(''status'', JStr ''ok''), (''commit'', JStr (h_commit h))])) c, s)"

definition Readyz :: "('d, 'l) HealthHandler \<Rightarrow> ('d, 'l) server handler" where
  "Readyz h c s =
     (case h_pingDB h s of
        Some e \<Rightarrow>
          (None, send_json (JSONProbe (JObj [(''status'', JStr ''unavailable''),
                   (''checks'', JObj [(''database'', JStr ''down'')])])) (set_status 503 c), s)
      | None \<Rightarrow>
          (None, send_json (JSONProbe (JObj [(''status'', JStr ''ready''),
                   (''checks'', JObj [(''database'', JStr ''up'')])])) c, s))"

section \<open>The limiter\<close>

definition limiterSkipPaths :: "string set" where
  "limiterSkipPaths = {''/livez'', ''/readyz'', ''/metrics'', ''/openapi.yaml''}"

definition skipRateLimit :: "Ctx \<Rightarrow> bool" where
  "skipRateLimit c \<longleftrightarrow> Path c \<in> limiterSkipPaths"

record ('d, 'l) limiter_config =
  lc_Max :: int
  lc_Expiration :: duration
  lc_LimitReached :: "('d, 'l) server handler"
  lc_Next :: "(Ctx \<Rightarrow> bool) option"

definition limit_reached :: "('d, 'l) server handler" where
  "limit_reached c s = (Some (AppErr ErrRateLimited), c, s)"

section \<open>The stack\<close>

datatype ('d, 'l) entry =
    Use string "('d, 'l) server middleware"
  | Route string string "('d, 'l) server middleware"

record ('d, 'l) libs =
  lb_requestid :: "('d, 'l) server middleware"
  lb_recover :: "('d, 'l) server middleware"
  lb_helmet :: "('d, 'l) server middleware"
  lb_cors :: "string list \<Rightarrow> ('d, 'l) server middleware"
  lb_limiter :: "('d, 'l) limiter_config \<Rightarrow> ('d, 'l) server middleware"
  lb_metrics :: "('d, 'l) server handler"
  lb_openapi :: "goerr + string"
  lb_use_match :: "string \<Rightarrow> string \<Rightarrow> bool"
  lb_method_match :: "string \<Rightarrow> string \<Rightarrow> bool"
  lb_route_match :: "string \<Rightarrow> string \<Rightarrow> (string \<Rightarrow> string) option"
  lb_unmatched :: "Ctx \<Rightarrow> goerr"

definition terminal :: "('d, 'l) server handler \<Rightarrow> ('d, 'l) server middleware" where
  "terminal h = (\<lambda>next. h)"

text \<open>Several handlers on one route run in order.\<close>

fun chain :: "('d, 'l) server middleware list \<Rightarrow> ('d, 'l) server middleware" where
  "chain [] next = next"
| "chain (m # ms) next = m (chain ms next)"

definition openapiSpecHandler :: "goerr + string \<Rightarrow> ('d, 'l) server handler" where
  "openapiSpecHandler file c s =
     (case file of
        Inl e \<Rightarrow> (Some (WrapErr (''read embedded openapi.yaml: '' @ Error e) e), c, s)
      | Inr yaml \<Rightarrow> (None, send_json (RawBody ''application/yaml; charset=utf-8'' yaml) c, s))"

definition auth_RegisterRoutes ::
  "string \<Rightarrow> bind_body \<Rightarrow> jwt \<Rightarrow> ('d, 'l) server AuthService \<Rightarrow> ('d, 'l) server middleware list \<Rightarrow>
   ('d, 'l) entry list" where
  "auth_RegisterRoutes v1 b j svc guard =
     (let h = auth_NewHandler svc;
          hs = guard @ [terminal (auth_Login b j h)]
      in [Route ''POST'' (v1 @ ''/auth/login'') (chain hs)])"

definition task_RegisterRoutes ::
  "string \<Rightarrow> bind_body \<Rightarrow> 'd Service \<Rightarrow> ('d, 'l) server middleware list \<Rightarrow> ('d, 'l) entry list" where
  "task_RegisterRoutes v1 b svc guard =
     (let h = NewHandler svc;
          tasks = v1 @ ''/tasks''
      in (if guard = [] then [] else [Use tasks (chain guard)]) @
         [Route ''POST'' (tasks @ ''/'') (terminal (on_store (task_Create b h))),
          Route ''GET'' (tasks @ ''/'') (terminal (on_store (task_List h))),
          Route ''GET'' (tasks @ ''/:id'') (terminal (on_store (task_Get h))),
          Route ''PATCH'' (tasks @ ''/:id'') (terminal (on_store (task_Update b h))),
          Route ''DELETE'' (tasks @ ''/:id'') (terminal (on_store (task_Delete h)))])"

text \<open>\<open>taskService\<close> of \<open>wiring.go\<close>: the service over the GORM repository.\<close>

definition taskService :: "'d gorm \<Rightarrow> 'd Service" where
  "taskService db = NewService (NewRepository db)"

text \<open>\<open>New\<close>: the order of registration is the order of the stack.\<close>

definition New ::
  "('d, 'l) libs \<Rightarrow> Config \<Rightarrow> 'd gorm \<Rightarrow> (('d, 'l) server \<Rightarrow> goerr option) \<Rightarrow> bind_body \<Rightarrow> jwt \<Rightarrow>
   ('d, 'l) entry list" where
  "New lib cfg db ping b j =
     (let h = NewHealthHandler ping (BuildCommit cfg);
          v1 = ''/api/v1'';
          authSvc = demo_service cfg;
          loginGuard = lb_limiter lib \<lparr>lc_Max = AuthRateLimitPerMinute cfg,
            lc_Expiration = 60 * second, lc_LimitReached = limit_reached, lc_Next = None\<rparr>
      in [Use ''/'' (lb_requestid lib), Use ''/'' (lb_recover lib), Use ''/'' (lb_helmet lib),
          Use ''/'' (lb_cors lib (CORSAllowedOrigins cfg)),
          Use ''/'' (lb_limiter lib \<lparr>lc_Max = RateLimitPerMinute cfg, lc_Expiration = 60 * second,
            lc_LimitReached = limit_reached, lc_Next = Some skipRateLimit\<rparr>),
          Use ''/'' prom_Handler, Use ''/'' RequestLogger,
          Route ''GET'' ''/livez'' (terminal (Livez h)),
          Route ''GET'' ''/readyz'' (terminal (Readyz h)),
          Route ''GET'' ''/metrics'' (terminal (lb_metrics lib)),
          Route ''GET'' ''/openapi.yaml'' (terminal (openapiSpecHandler (lb_openapi lib)))] @
         (if AuthEnabled cfg
          then auth_RegisterRoutes v1 b j authSvc [loginGuard] @
               task_RegisterRoutes v1 b (taskService db) [RequireAuth j authSvc timeNow]
          else task_RegisterRoutes v1 b (taskService db) []))"

fun run_stack :: "('d, 'l) libs \<Rightarrow> ('d, 'l) entry list \<Rightarrow> ('d, 'l) server handler" where
  "run_stack lib [] c s = (Some (lb_unmatched lib c), c, s)"
| "run_stack lib (Use p m # es) c s =
     (if lb_use_match lib p (Path c) then m (run_stack lib es) (c\<lparr>RoutePath := p\<rparr>) s
      else run_stack lib es c s)"
| "run_stack lib (Route mth p m # es) c s =
     (case lb_route_match lib p (Path c) of
        Some ps \<Rightarrow>
          if lb_method_match lib mth (Method c) then m (run_stack lib es) (c\<lparr>RoutePath := p, Params := ps\<rparr>) s
          else run_stack lib es c s
      | None \<Rightarrow> run_stack lib es c s)"

text \<open>A request to the app.\<close>

definition serve ::
  "('d, 'l) libs \<Rightarrow> ('d, 'l) entry list \<Rightarrow> Ctx \<Rightarrow> ('d, 'l) server \<Rightarrow> Ctx \<times> ('d, 'l) server" where
  "serve lib es = answer (run_stack lib es)"

end
