(* ===== verification/Router_Libs.thy ===== *)
theory Router_Libs
  imports Router "HOL-Library.Sublist"
begin

text \<open>
  What the router relies on of fiber and of the middlewares it takes from libraries: how fiber
  matches paths, that a middleware does nothing to the state of the program, and which requests
  it hands on. Two contracts: \<open>libs_contract\<close> is enough for what can never happen,
  \<open>libs_passing\<close> adds what is needed to show that requests get through. The sample libraries
  keep both.
\<close>

section \<open>Paths\<close>

text \<open>
  Fiber compares paths without regard to the case of ASCII letters and to slashes at the end
  (\<open>CaseSensitive\<close> and \<open>StrictRouting\<close> are off).
\<close>

definition route_key :: "string \<Rightarrow> string" where
  "route_key p = rev (dropWhile (\<lambda>c. c = CHR ''/'') (rev (map lower_byte p)))"

text \<open>A pattern without parameters and wildcards.\<close>

definition literal :: "string \<Rightarrow> bool" where
  "literal p \<longleftrightarrow> CHR '':'' \<notin> set p \<and> CHR ''*'' \<notin> set p \<and> CHR ''+'' \<notin> set p"

definition segment :: "string \<Rightarrow> bool" where
  "segment x \<longleftrightarrow> x \<noteq> [] \<and> CHR ''/'' \<notin> set x"

lemma dropWhile_snoc_slash: "dropWhile (\<lambda>c. c = CHR ''/'') (rev xs) = rev xs"
  if "xs = [] \<or> last xs \<noteq> CHR ''/''"
  using that by (cases xs rule: rev_cases) auto

lemma route_key_slash: "route_key (p @ ''/'') = route_key p"
  by (simp add: route_key_def lower_byte_def)

lemma lower_byte_slash [simp]: "lower_byte c = CHR ''/'' \<longleftrightarrow> c = CHR ''/''"
proof -
  have "lower_byte c \<noteq> CHR ''/''" if "c \<noteq> CHR ''/''"
  proof (cases "65 \<le> (of_char c :: nat) \<and> (of_char c :: nat) \<le> 90")
    case True
    then have "(of_char (lower_byte c) :: nat) = of_char c + 32"
      by (simp add: lower_byte_def Let_def)
    moreover have "(of_char (CHR ''/'') :: nat) = 47" by simp
    ultimately show ?thesis using True by force
  next
    case False
    then show ?thesis using that by (auto simp: lower_byte_def Let_def)
  qed
  then show ?thesis by (auto simp: lower_byte_def)
qed

lemma route_key_segment:
  assumes "segment x"
  shows "route_key (p @ x) = map lower_byte p @ map lower_byte x"
proof -
  from assms obtain y c where x: "x = y @ [c]" "c \<noteq> CHR ''/''"
    by (cases x rule: rev_cases) (auto simp: segment_def)
  then show ?thesis by (simp add: route_key_def)
qed

lemma route_key_prefix:
  assumes "prefix p q"
  shows "prefix (route_key p) (route_key q)"
proof -
  let ?f = "\<lambda>c. c = CHR ''/''"
  from assms obtain r where q: "map lower_byte q = map lower_byte p @ map lower_byte r"
    by (auto simp: prefix_def)
  have "\<exists>zs. rev (dropWhile ?f (rev (xs @ ys))) = rev (dropWhile ?f (rev xs)) @ zs" for xs ys
  proof (cases "\<forall>c \<in> set ys. ?f c")
    case True
    then have "dropWhile ?f (rev (xs @ ys)) = dropWhile ?f (rev xs)"
      by (subst rev_append, subst dropWhile_append2) auto
    then show ?thesis by simp
  next
    case False
    then have "dropWhile ?f (rev (xs @ ys)) = dropWhile ?f (rev ys) @ rev xs"
      by (auto simp: dropWhile_append1)
    moreover obtain ws where "xs = rev (dropWhile ?f (rev xs)) @ ws"
      by (metis rev_append rev_rev_ident takeWhile_dropWhile_id)
    ultimately show ?thesis by (metis append_assoc rev_append rev_rev_ident)
  qed
  then show ?thesis unfolding route_key_def q prefix_def by blast
qed

section \<open>Handing on\<close>

text \<open>What the program keeps in a server, apart from the clock and the libraries' state.\<close>

definition observed :: "('d, 'l) server \<Rightarrow> 'd \<times> log_entry list \<times> (string \<times> string \<times> string \<Rightarrow> nat) \<times>
    (string \<times> string \<Rightarrow> duration list)" where
  "observed s = (Store s, Logs s, RequestsTotal s, Durations s)"

text \<open>
  A middleware \<open>hands_on\<close>, as far as \<open>f\<close> sees, when it either answers itself or runs the next
  handler on a request with the same headers and path, and changes nothing else.
\<close>

definition hands_on :: "(('d, 'l) server \<Rightarrow> 'x) \<Rightarrow> ('d, 'l) server middleware \<Rightarrow> bool" where
  "hands_on f m \<longleftrightarrow>
     (\<forall>next c s.
        f (snd (snd (m next c s))) = f s \<or>
        (\<exists>c1 s1. Header c1 = Header c \<and> Path c1 = Path c \<and> f s1 = f s \<and>
           f (snd (snd (m next c s))) = f (snd (snd (next c1 s1)))))"

text \<open>The two metrics.\<close>

definition counters :: "('d, 'l) server \<Rightarrow> (string \<times> string \<times> string \<Rightarrow> nat) \<times> (string \<times> string \<Rightarrow> duration list)" where
  "counters s = (RequestsTotal s, Durations s)"

lemma hands_on_observed:
  assumes "hands_on observed m"
  shows "hands_on Store m" and "hands_on counters m"
  using assms unfolding hands_on_def observed_def counters_def by (simp_all, metis, metis)

locale libs_contract =
  fixes lib :: "('d, 'l) libs"
  assumes requestid: "hands_on observed (lb_requestid lib)"
    and recover: "hands_on observed (lb_recover lib)"
    and helmet: "hands_on observed (lb_helmet lib)"
    and cors: "hands_on observed (lb_cors lib origins)"
    and limiter: "lc_LimitReached lc = limit_reached \<Longrightarrow> hands_on observed (lb_limiter lib lc)"
    and metrics: "observed (snd (snd (lb_metrics lib c s))) = observed s"
    and metrics_route: "RoutePath (fst (snd (lb_metrics lib c s))) = RoutePath c"
    and prefix: "literal p \<Longrightarrow> q = [] \<or> hd q = CHR ''/'' \<Longrightarrow>
      lb_route_match lib (p @ q) path \<noteq> None \<Longrightarrow> lb_use_match lib p path"

section \<open>Getting through\<close>

text \<open>A request as the next handler sees it, and an answer as the client sees it.\<close>

definition same_ctx :: "Ctx \<Rightarrow> Ctx \<Rightarrow> bool" where
  "same_ctx c c1 \<longleftrightarrow>
     Method c1 = Method c \<and> Path c1 = Path c \<and> Query c1 = Query c \<and> Header c1 = Header c \<and>
     ReqBody c1 = ReqBody c \<and> RoutePath c1 = RoutePath c \<and> Params c1 = Params c \<and>
     StatusCode c1 = StatusCode c \<and> RespBody c1 = RespBody c"

definition same_answer :: "Ctx \<Rightarrow> Ctx \<Rightarrow> bool" where
  "same_answer c c' \<longleftrightarrow>
     Method c' = Method c \<and> Path c' = Path c \<and> RoutePath c' = RoutePath c \<and>
     StatusCode c' = StatusCode c \<and> RespBody c' = RespBody c"

text \<open>
  A middleware lets a request pass, as far as \<open>f\<close> sees: the next handler runs on the same request
  and a state that is the same but for the time, and its answer is the answer. The clock does not go
  back.
\<close>

definition passes :: "(('d, 'l) server \<Rightarrow> 'x) \<Rightarrow> ('d, 'l) server middleware \<Rightarrow> Ctx \<Rightarrow> ('d, 'l) server \<Rightarrow> bool" where
  "passes f m c s \<longleftrightarrow>
     (\<forall>next. \<exists>c1 s1. same_ctx c c1 \<and> f s1 = f s \<and> Now s \<le> Now s1 \<and>
        fst (m next c s) = fst (next c1 s1) \<and>
        same_answer (fst (snd (next c1 s1))) (fst (snd (m next c s))) \<and>
        f (snd (snd (m next c s))) = f (snd (snd (next c1 s1))) \<and>
        Now (snd (snd (next c1 s1))) \<le> Now (snd (snd (m next c s))))"

text \<open>
  The rate limiter lets pass what \<open>Next\<close> exempts; it lets any other request pass or answers with
  \<open>LimitReached\<close>. CORS answers preflight requests itself, which are \<open>OPTIONS\<close> requests.
\<close>

locale libs_passing = libs_contract +
  assumes pass_requestid: "passes observed (lb_requestid lib) c s"
    and pass_recover: "passes observed (lb_recover lib) c s"
    and pass_helmet: "passes observed (lb_helmet lib) c s"
    and pass_cors: "Method c \<noteq> ''OPTIONS'' \<Longrightarrow> passes observed (lb_cors lib origins) c s"
    and pass_exempt: "lc_Next lc = Some skip \<Longrightarrow> skip c \<Longrightarrow> passes observed (lb_limiter lib lc) c s"
    and pass_limiter: "lc_LimitReached lc = limit_reached \<Longrightarrow>
      passes observed (lb_limiter lib lc) c s \<or>
      (\<exists>s1. observed s1 = observed s \<and> (\<forall>n. lb_limiter lib lc n c s = limit_reached c s1))"
    and use_all: "lb_use_match lib ''/'' path"
    and method_self: "lb_method_match lib mth mth"
    and method_only: "lb_method_match lib mth m \<Longrightarrow> m = mth \<or> mth = ''GET'' \<and> m = ''HEAD''"
    and route_self: "literal p \<Longrightarrow> lb_route_match lib p p \<noteq> None"
    and route_noslash: "literal p \<Longrightarrow> p \<noteq> [] \<Longrightarrow> lb_route_match lib (p @ ''/'') p \<noteq> None"
    and route_only: "literal p \<Longrightarrow> lb_route_match lib p path \<noteq> None \<Longrightarrow> route_key path = route_key p"
    and route_param: "literal p \<Longrightarrow> segment x \<Longrightarrow>
      \<exists>ps. lb_route_match lib (p @ ''/:id'') (p @ ''/'' @ x) = Some ps \<and> ps ''id'' = x"

section \<open>Sample libraries\<close>

text \<open>
  Middlewares that hand on, a limiter that counts its requests in the library state and refuses
  above its maximum, and matching of prefixes and of patterns whose last segment may be a
  parameter.
\<close>

definition sample_limiter :: "('d, nat) limiter_config \<Rightarrow> ('d, nat) server middleware" where
  "sample_limiter lc next c s =
     (if (case lc_Next lc of Some skip \<Rightarrow> skip c | None \<Rightarrow> False) then next c s
      else if lc_Max lc \<le> int (LibState s) then lc_LimitReached lc c s
      else next c (s\<lparr>LibState := LibState s + 1\<rparr>))"

definition fixed_part :: "string \<Rightarrow> string" where
  "fixed_part p = takeWhile (\<lambda>c. c \<noteq> CHR '':'') p"

definition sample_route_match :: "string \<Rightarrow> string \<Rightarrow> (string \<Rightarrow> string) option" where
  "sample_route_match p path =
     (if fixed_part p = p then (if route_key path = route_key p then Some (\<lambda>_. []) else None)
      else if HasPrefix path (fixed_part p)
      then Some (\<lambda>n. if n = ''id'' then drop (length (fixed_part p)) path else []) else None)"

definition sample_use_match :: "string \<Rightarrow> string \<Rightarrow> bool" where
  "sample_use_match p path \<longleftrightarrow> HasPrefix (route_key path) (route_key p)"

definition sample_libs :: "('d, nat) libs" where
  "sample_libs =
     \<lparr>lb_requestid = (\<lambda>next. next), lb_recover = (\<lambda>next. next), lb_helmet = (\<lambda>next. next),
      lb_cors = (\<lambda>origins next. next), lb_limiter = sample_limiter,
      lb_metrics = (\<lambda>c s. (None, c, s)), lb_openapi = Inr ''openapi: 3.1.0'',
      lb_use_match = sample_use_match, lb_method_match = (=), lb_route_match = sample_route_match,
      lb_unmatched = (\<lambda>c. FiberErr 404 ''Cannot find the path'')\<rparr>"

lemma HasPrefix_prefix: "HasPrefix s p \<longleftrightarrow> prefix p s"
  by (simp add: HasPrefix_iff prefix_def)

lemma fixed_part_literal [simp]: "literal p \<Longrightarrow> fixed_part (p @ q) = p @ fixed_part q"
  by (auto simp: literal_def fixed_part_def takeWhile_append)

lemma sample_match_prefix:
  assumes "literal p" and "sample_route_match (p @ q) path \<noteq> None"
  shows "sample_use_match p path"
proof (cases "fixed_part (p @ q) = p @ q")
  case True
  then have "route_key path = route_key (p @ q)"
    using assms(2) by (simp add: sample_route_match_def split: if_splits)
  then show ?thesis by (simp add: sample_use_match_def HasPrefix_prefix route_key_prefix)
next
  case False
  then have "prefix (fixed_part (p @ q)) path"
    using assms(2) by (simp add: sample_route_match_def HasPrefix_prefix split: if_splits)
  then have "prefix p path" using assms(1) by (auto simp: prefix_def)
  then show ?thesis by (simp add: sample_use_match_def HasPrefix_prefix route_key_prefix)
qed

lemma same_ctx_refl [simp]: "same_ctx c c"
  by (simp add: same_ctx_def)

lemma same_answer_refl [simp]: "same_answer c c"
  by (simp add: same_answer_def)

lemma passes_id: "passes f (\<lambda>next. next) c s"
  unfolding passes_def by (intro allI exI [of _ c] exI [of _ s]) simp

lemma sample_limiter_cases:
  obtains (pass) s1 where "observed s1 = observed s" "Now s1 = Now s" "\<And>n. sample_limiter lc n c s = n c s1"
  | (limit) "\<And>n. sample_limiter lc n c s = lc_LimitReached lc c s" "\<nexists>skip. lc_Next lc = Some skip \<and> skip c"
proof -
  let ?s = "s\<lparr>LibState := LibState s + 1\<rparr>"
  have "observed ?s = observed s" "Now ?s = Now s" by (simp_all add: observed_def)
  then show thesis
    using pass [of s] pass [of ?s] limit
    by (cases "case lc_Next lc of Some skip \<Rightarrow> skip c | None \<Rightarrow> False"; cases "lc_Max lc \<le> int (LibState s)")
      (auto simp: sample_limiter_def split: option.splits)
qed

interpretation sample_libs: libs_passing "sample_libs :: ('d, nat) libs"
proof
  fix lc :: "('d, nat) limiter_config" and c :: Ctx and s :: "('d, nat) server"
  have pass_limiter: "passes observed (lb_limiter sample_libs lc) c s"
    if "observed s1 = observed s" "Now s1 = Now s" "\<And>n. sample_limiter lc n c s = n c s1" for s1 c s
    using that unfolding passes_def by (auto simp: sample_libs_def intro!: exI [of _ c] exI [of _ s1])
  show "hands_on observed (lb_limiter (sample_libs :: ('d, nat) libs) lc)" if "lc_LimitReached lc = limit_reached"
    unfolding hands_on_def
  proof (intro allI)
    fix n s and c :: Ctx
    show "observed (snd (snd (lb_limiter sample_libs lc n c s))) = observed s \<or>
        (\<exists>c1 s1. Header c1 = Header c \<and> Path c1 = Path c \<and> observed s1 = observed s \<and>
           observed (snd (snd (lb_limiter sample_libs lc n c s))) = observed (snd (snd (n c1 s1))))"
      by (rule sample_limiter_cases [of s lc c])
        (auto simp: sample_libs_def limit_reached_def that)
  qed
  show "passes observed (lb_limiter sample_libs lc) c s \<or>
      (\<exists>s1. observed s1 = observed s \<and> (\<forall>n. lb_limiter sample_libs lc n c s = limit_reached c s1))"
    if "lc_LimitReached lc = limit_reached"
  proof (rule sample_limiter_cases [of s lc c])
    assume "\<And>n. sample_limiter lc n c s = lc_LimitReached lc c s"
    then show ?thesis using that by (auto simp: sample_libs_def)
  qed (blast intro: pass_limiter)
  show "passes observed (lb_limiter sample_libs lc) c s" if "lc_Next lc = Some skip" "skip c" for skip
    by (rule sample_limiter_cases [of s lc c]) (use that in \<open>auto intro: pass_limiter\<close>)
  show "lb_use_match (sample_libs :: ('d, nat) libs) p path"
    if "literal p" "lb_route_match (sample_libs :: ('d, nat) libs) (p @ q) path \<noteq> None" for p q path
    using that sample_match_prefix by (simp add: sample_libs_def)
  fix p path :: string assume p: "literal p"
  then have fixed: "fixed_part p = p" "fixed_part (p @ ''/'') = p @ ''/''"
    using fixed_part_literal [OF p, of "[]"] by (simp_all add: fixed_part_def)
  show "lb_route_match sample_libs p p \<noteq> None"
    using fixed by (simp add: sample_libs_def sample_route_match_def)
  show "lb_route_match sample_libs (p @ ''/'') p \<noteq> None"
    using fixed by (simp add: sample_libs_def sample_route_match_def route_key_slash)
  show "route_key path = route_key p" if "lb_route_match sample_libs p path \<noteq> None"
    using that fixed by (simp add: sample_libs_def sample_route_match_def split: if_splits)
  show "\<exists>ps. lb_route_match sample_libs (p @ ''/:id'') (p @ ''/'' @ x) = Some ps \<and> ps ''id'' = x" for x
    using p by (simp add: sample_libs_def sample_route_match_def fixed_part_def [of "CHR ''/'' # _"] HasPrefix_prefix)
qed (auto simp: sample_libs_def hands_on_def passes_id sample_use_match_def HasPrefix_def route_key_def
    lower_byte_def)

end
