(* ===== verification/Sample_Store.thy ===== *)
theory Sample_Store
  imports Task_Repo
begin

text \<open>
  A database over which the contract of GORM holds: a table of rows, newest first, that keeps
  soft-deleted rows; a counter for the next id; a clock; and a script of faults that says which
  of the next statements fail. It is the instance on which the witnesses of the development
  run, and it shows that \<open>gorm_contract\<close> can hold with every kind of outcome: rows found and
  not found, statements that fail, transactions that roll back, ids that run out.
\<close>

section \<open>The tables\<close>

record tables =
  tb_rows :: "Task list"
  tb_next :: go_uint
  tb_now :: gotime
  tb_faults :: "bool list"

definition live :: "Task \<Rightarrow> bool" where
  "live t \<longleftrightarrow> DeletedAt t = None"

fun lookup_row :: "Task list \<Rightarrow> go_uint \<Rightarrow> Task option" where
  "lookup_row [] i = None"
| "lookup_row (t # ts) i = (if live t \<and> ID t = i then Some t else lookup_row ts i)"

definition tables_rows :: "tables \<Rightarrow> go_uint \<rightharpoonup> Task" where
  "tables_rows s = lookup_row (tb_rows s)"

text \<open>The columns keep whole seconds.\<close>

definition whole_second :: "gotime \<Rightarrow> gotime" where
  "whole_second x = x - x mod second"

definition tables_inv :: "tables \<Rightarrow> bool" where
  "tables_inv s \<longleftrightarrow>
     list_all (\<lambda>t. stored_as whole_second t = t) (tb_rows s) \<and>
     sorted_wrt (\<lambda>t u. ID u < ID t) (tb_rows s) \<and>
     list_all (\<lambda>t. ID t \<noteq> 0 \<and> ID t < tb_next s) (tb_rows s) \<and> tb_next s \<noteq> 0"

text \<open>One statement: the clock moves, and the script may make it fail.\<close>

definition statement :: "(tables \<Rightarrow> (goerr + 'a) \<times> tables) \<Rightarrow> tables \<Rightarrow> (goerr + 'a) \<times> tables" where
  "statement f s =
     (let s1 = s\<lparr>tb_now := tb_now s + 1, tb_faults := tl (tb_faults s)\<rparr>
      in if tb_faults s \<noteq> [] \<and> hd (tb_faults s) then (Inl (OpaqueErr ''connection lost''), s1)
         else f s1)"

definition sample_create :: "Task \<Rightarrow> tables \<Rightarrow> (goerr + Task) \<times> tables" where
  "sample_create t = statement (\<lambda>s.
     if tb_next s = - 1 then (Inl (OpaqueErr ''ids exhausted''), s)
     else let t' = t\<lparr>ID := tb_next s, CreatedAt := tb_now s, UpdatedAt := tb_now s\<rparr>
          in (Inr t', s\<lparr>tb_rows := stored_as whole_second t' # tb_rows s, tb_next := tb_next s + 1\<rparr>))"

definition sample_first :: "bool \<Rightarrow> go_uint \<Rightarrow> tables \<Rightarrow> (goerr + Task) \<times> tables" where
  "sample_first lock i = statement (\<lambda>s.
     case lookup_row (tb_rows s) i of
       None \<Rightarrow> (Inl (SentinelErr ErrRecordNotFound), s)
     | Some t \<Rightarrow> (Inr t, s))"

definition sample_count :: "tables \<Rightarrow> (goerr + go_int) \<times> tables" where
  "sample_count = statement (\<lambda>s. (Inr (of_nat (length (filter live (tb_rows s)))), s))"

definition sample_find :: "go_int \<Rightarrow> go_int \<Rightarrow> tables \<Rightarrow> (goerr + Task list) \<times> tables" where
  "sample_find lim off = statement (\<lambda>s.
     (Inr (take (nat (sint lim)) (drop (nat (sint off)) (filter live (tb_rows s)))), s))"

definition replace_row :: "Task \<Rightarrow> Task \<Rightarrow> Task" where
  "replace_row t u = (if ID u = ID t then t else u)"

definition sample_save :: "Task \<Rightarrow> tables \<Rightarrow> (goerr + Task) \<times> tables" where
  "sample_save t = statement (\<lambda>s.
     let t' = t\<lparr>UpdatedAt := tb_now s\<rparr>
     in (Inr t', s\<lparr>tb_rows := map (replace_row (stored_as whole_second t')) (tb_rows s)\<rparr>))"

definition hide_row :: "gotime \<Rightarrow> go_uint \<Rightarrow> Task \<Rightarrow> Task" where
  "hide_row now i t = (if live t \<and> ID t = i then t\<lparr>DeletedAt := Some now\<rparr> else t)"

definition sample_delete :: "go_uint \<Rightarrow> tables \<Rightarrow> (goerr + go_int) \<times> tables" where
  "sample_delete i = statement (\<lambda>s.
     (Inr (if lookup_row (tb_rows s) i = None then 0 else 1),
      s\<lparr>tb_rows := map (hide_row (tb_now s) i) (tb_rows s)\<rparr>))"

definition sample_tx ::
  "(tables \<Rightarrow> (goerr + Task) \<times> tables) \<Rightarrow> tables \<Rightarrow> (goerr + Task) \<times> tables" where
  "sample_tx body s =
     (case body s of
        (Inl e, s') \<Rightarrow> (Inl e, s\<lparr>tb_faults := tb_faults s'\<rparr>)
      | (Inr t, s') \<Rightarrow>
          (case statement (\<lambda>s. (Inr (), s)) s' of
             (Inl e, s'') \<Rightarrow> (Inl e, s\<lparr>tb_faults := tb_faults s''\<rparr>)
           | (Inr u, s'') \<Rightarrow> (Inr t, s'')))"

definition sample_gorm :: "string \<Rightarrow> tables gorm" where
  "sample_gorm name =
     \<lparr>g_name = name, g_create = sample_create, g_first = sample_first, g_count = sample_count,
      g_find = sample_find, g_save = sample_save, g_delete = sample_delete, g_tx = sample_tx\<rparr>"

lemmas sample_defs =
  statement_def sample_create_def sample_first_def sample_count_def sample_find_def
  sample_save_def sample_delete_def sample_tx_def sample_gorm_def

definition empty_tables :: tables where
  "empty_tables = \<lparr>tb_rows = [], tb_next = 1, tb_now = 0, tb_faults = []\<rparr>"

section \<open>What the tables keep\<close>

lemma whole_second_near: "\<bar>whole_second x - x\<bar> < second"
  using pos_mod_bound [of second x] pos_mod_sign [of second x]
  by (simp add: whole_second_def second_def)

lemma whole_second_twice [simp]: "whole_second (whole_second x) = whole_second x"
  by (simp add: whole_second_def second_def mod_diff_eq)

lemma stored_as_twice [simp]: "stored_as whole_second (stored_as whole_second t) = stored_as whole_second t"
  by (simp add: stored_as_def option.map_comp comp_def)

lemma lookup_row_Some:
  "lookup_row ts i = Some t \<Longrightarrow> t \<in> set ts \<and> live t \<and> ID t = i"
  by (induction ts) (auto split: if_splits)

lemma lookup_row_None: "lookup_row ts i = None \<longleftrightarrow> (\<forall>t \<in> set ts. live t \<longrightarrow> ID t \<noteq> i)"
  by (induction ts) auto

lemma dom_lookup_row: "dom (lookup_row ts) = ID ` set (filter live ts)"
proof (intro equalityI subsetI)
  fix i assume "i \<in> ID ` set (filter live ts)"
  then have "lookup_row ts i \<noteq> None" by (auto simp: lookup_row_None)
  then show "i \<in> dom (lookup_row ts)" by (simp add: domIff)
qed (auto dest!: lookup_row_Some)

lemma sorted_rows_descending:
  assumes "sorted_wrt (\<lambda>t u. ID u < ID t) ts"
  shows "rev (sorted_list_of_set (ID ` set ts)) = map ID ts"
proof -
  have "sorted (rev (map ID ts))" and "distinct (rev (map ID ts))"
    using assms by (induction ts) (auto simp: sorted_append less_imp_le)
  then have "sorted_list_of_set (set (rev (map ID ts))) = rev (map ID ts)"
    by (intro sorted_list_of_set.idem_if_sorted_distinct)
  then show ?thesis by simp
qed

lemma lookup_row_unique:
  "sorted_wrt (\<lambda>t u. ID u < ID t) ts \<Longrightarrow> t \<in> set ts \<Longrightarrow> live t \<Longrightarrow> lookup_row ts (ID t) = Some t"
  by (induction ts) auto

lemma newest_first_lookup_row:
  assumes "sorted_wrt (\<lambda>t u. ID u < ID t) ts"
  shows "newest_first (lookup_row ts) = filter live ts"
proof -
  have "newest_first (lookup_row ts) = map (\<lambda>i. the (lookup_row ts i)) (map ID (filter live ts))"
    unfolding newest_first_def dom_lookup_row
    using sorted_rows_descending [OF sorted_wrt_filter [OF assms]] by (simp only:)
  also have "\<dots> = map (\<lambda>t. t) (filter live ts)"
    unfolding map_map by (intro map_cong refl) (simp add: lookup_row_unique [OF assms])
  finally show ?thesis by simp
qed

lemma card_lookup_row:
  assumes "sorted_wrt (\<lambda>t u. ID u < ID t) ts"
  shows "card (dom (lookup_row ts)) = length (filter live ts)"
proof -
  have "distinct (map ID (filter live ts))"
    using assms by (induction ts) auto
  then show ?thesis
    unfolding dom_lookup_row using distinct_card by fastforce
qed

lemma sorted_rows_map:
  assumes "\<And>t. ID (f t) = ID t" and "sorted_wrt (\<lambda>t u. ID u < ID t) ts"
  shows "sorted_wrt (\<lambda>t u. ID u < ID t) (map f ts)"
  using assms(2) by (simp add: sorted_wrt_map assms(1))

lemma lookup_row_replace:
  assumes "live t'"
  shows "sorted_wrt (\<lambda>t u. ID u < ID t) ts \<Longrightarrow> lookup_row ts (ID t') \<noteq> None \<Longrightarrow>
    lookup_row (map (replace_row t') ts) = (lookup_row ts)(ID t' \<mapsto> t')"
proof (induction ts)
  case (Cons u ts)
  show ?case
  proof (cases "ID u = ID t'")
    case True
    then have "replace_row t' v = v" if "v \<in> set ts" for v
      using Cons.prems(1) that by (auto simp: replace_row_def)
    then have "map (replace_row t') ts = ts" by (simp add: map_idI)
    moreover have "replace_row t' u = t'" using True by (simp add: replace_row_def)
    ultimately show ?thesis using True assms by (auto simp: fun_eq_iff)
  next
    case False
    with Cons.prems have "lookup_row ts (ID t') \<noteq> None" by auto
    with False Cons show ?thesis by (auto simp: replace_row_def fun_eq_iff)
  qed
qed simp

lemma lookup_row_hide: "sorted_wrt (\<lambda>t u. ID u < ID t) ts \<Longrightarrow>
    lookup_row (map (hide_row now i) ts) = (lookup_row ts)(i := None)"
proof (induction ts)
  case (Cons u ts)
  show ?case
  proof (cases "live u \<and> ID u = i")
    case True
    then have "lookup_row (map (hide_row now i) ts) i = None" using Cons by simp
    with True Cons show ?thesis
      by (auto simp: hide_row_def live_def fun_eq_iff)
  next
    case False
    with Cons show ?thesis by (auto simp: hide_row_def fun_eq_iff)
  qed
qed (simp add: fun_eq_iff)

lemma stored_as_replace_row:
  "stored_as whole_second u = u \<Longrightarrow> stored_as whole_second (replace_row (stored_as whole_second t) u) =
     replace_row (stored_as whole_second t) u"
  by (simp add: replace_row_def)

lemma stored_as_hide_row:
  assumes "stored_as whole_second u = u"
  shows "stored_as whole_second (hide_row now i u) = hide_row now i u"
proof -
  have "stored_as whole_second (u\<lparr>DeletedAt := x\<rparr>) = (stored_as whole_second u)\<lparr>DeletedAt := x\<rparr>" for x
    by (simp add: stored_as_def)
  then show ?thesis using assms by (simp add: hide_row_def)
qed

lemma statement_cases:
  assumes "statement f s = (r, s')"
  obtains (fault) s1 where "r = Inl (OpaqueErr ''connection lost'')" "s' = s1"
      "tb_rows s1 = tb_rows s" "tb_next s1 = tb_next s"
  | (ran) s1 where "f s1 = (r, s')" "tb_rows s1 = tb_rows s" "tb_next s1 = tb_next s"
proof (cases "tb_faults s \<noteq> [] \<and> hd (tb_faults s)")
  case True
  with assms show thesis by (intro fault [of s']) (auto simp: statement_def)
next
  case False
  with assms show thesis
    by (intro ran [of "s\<lparr>tb_now := tb_now s + 1, tb_faults := tl (tb_faults s)\<rparr>"])
      (auto simp: statement_def)
qed

lemma tables_inv_cong:
  "tb_rows s = tb_rows s' \<Longrightarrow> tb_next s = tb_next s' \<Longrightarrow> tables_inv s = tables_inv s'"
  by (simp add: tables_inv_def)

lemma tables_inv_create:
  assumes "tables_inv s" and "tb_next s \<noteq> - 1" and "ID t = tb_next s" and "stored_as whole_second t = t"
  shows "tables_inv (s\<lparr>tb_rows := t # tb_rows s, tb_next := tb_next s + 1\<rparr>)"
proof -
  have next_max: "tb_next s + 1 \<noteq> 0" using assms(2) by (simp add: eq_neg_iff_add_eq_0)
  have less: "tb_next s < tb_next s + 1"
    using unatSuc [of "tb_next s"] next_max by (simp add: add.commute word_less_nat_alt)
  then have "list_all (\<lambda>t. ID t \<noteq> 0 \<and> ID t < tb_next s + 1) (tb_rows s)"
    using assms(1) by (auto simp: tables_inv_def list_all_iff)
  then show ?thesis
    using assms next_max less by (auto simp: tables_inv_def list_all_iff)
qed

section \<open>The contract holds\<close>

lemma sample_save_keeps:
  assumes inv: "tables_inv s" and there: "lookup_row (tb_rows s) (ID t) \<noteq> None"
    and t: "DeletedAt t = None" and t': "t' = stored_as whole_second (t\<lparr>UpdatedAt := now\<rparr>)"
    and s': "s' = s\<lparr>tb_rows := map (replace_row t') (tb_rows s)\<rparr>"
  shows "tables_inv s'" and "tables_rows s' = (tables_rows s)(ID t \<mapsto> t')"
proof -
  have id: "ID (replace_row t' u) = ID u" for u by (simp add: replace_row_def)
  show "tables_inv s'"
    using inv unfolding tables_inv_def s'
    by (auto simp: sorted_rows_map id list.pred_map comp_def stored_as_replace_row [of _ "t\<lparr>UpdatedAt := now\<rparr>", folded t'] elim: list.pred_mono_strong)
  show "tables_rows s' = (tables_rows s)(ID t \<mapsto> t')"
    using lookup_row_replace [of t' "tb_rows s"] inv there t
    by (simp add: tables_rows_def tables_inv_def s' t' live_def)
qed

lemma sample_delete_keeps:
  assumes inv: "tables_inv s" and s': "s' = s\<lparr>tb_rows := map (hide_row now i) (tb_rows s)\<rparr>"
  shows "tables_inv s'" and "tables_rows s' = (tables_rows s)(i := None)"
proof -
  have id: "ID (hide_row now i u) = ID u" for u by (simp add: hide_row_def)
  show "tables_inv s'"
    using inv unfolding tables_inv_def s'
    by (auto simp: sorted_rows_map id list.pred_map comp_def stored_as_hide_row elim: list.pred_mono_strong)
  show "tables_rows s' = (tables_rows s)(i := None)"
    using inv by (simp add: tables_rows_def tables_inv_def s' lookup_row_hide)
qed

lemma tables_store_ok:
  assumes "tables_inv s" shows "store_ok (tables_rows s)"
  unfolding store_ok_def
proof (intro conjI allI impI)
  show "finite (dom (tables_rows s))" by (simp add: tables_rows_def dom_lookup_row)
next
  fix i t assume "tables_rows s i = Some t"
  then have "t \<in> set (tb_rows s)" "live t" "ID t = i"
    by (auto simp: tables_rows_def dest: lookup_row_Some)
  then show "ID t = i" "i \<noteq> 0" "DeletedAt t = None"
    using assms by (auto simp: tables_inv_def list_all_iff live_def)
qed

lemma same_tables:
  assumes "tb_rows s' = tb_rows s" and "tb_next s' = tb_next s"
  shows "tables_rows s' = tables_rows s" and "tables_inv s' = tables_inv s"
  using assms by (simp_all add: tables_rows_def tables_inv_def)

lemma tables_fresh:
  assumes "tables_inv s" shows "tables_rows s (tb_next s) = None"
  using assms by (auto simp: tables_rows_def lookup_row_None tables_inv_def list_all_iff)

interpretation sample: gorm_contract "sample_gorm name" tables_rows tables_inv whole_second
proof
  fix s s' e and t t' :: Task
  assume inv: "tables_inv s" and t: "ID t = 0" "DeletedAt t = None"
  show "tables_inv s' \<and> ID t' \<noteq> 0 \<and> tables_rows s (ID t') = None \<and>
      tables_rows s' = (tables_rows s)(ID t' \<mapsto> stored_as whole_second t') \<and> same_fields (t\<lparr>ID := ID t'\<rparr>) t'"
    if "g_create (sample_gorm name) t s = (Inr t', s')"
  proof -
    have "statement (\<lambda>s. if tb_next s = - 1 then (Inl (OpaqueErr ''ids exhausted''), s)
     else let t' = t\<lparr>ID := tb_next s, CreatedAt := tb_now s, UpdatedAt := tb_now s\<rparr>
          in (Inr t', s\<lparr>tb_rows := stored_as whole_second t' # tb_rows s, tb_next := tb_next s + 1\<rparr>)) s = (Inr t', s')"
      using that by (simp add: sample_gorm_def sample_create_def)
    then show ?thesis
    proof (cases rule: statement_cases)
      case (ran s1)
      have s1: "tables_rows s1 = tables_rows s" "tables_inv s1"
        using same_tables [OF ran(2,3)] inv by simp_all
      from ran(1) have nx: "tb_next s1 \<noteq> - 1"
        and t': "t' = t\<lparr>ID := tb_next s1, CreatedAt := tb_now s1, UpdatedAt := tb_now s1\<rparr>"
        and s': "s' = s1\<lparr>tb_rows := stored_as whole_second t' # tb_rows s1, tb_next := tb_next s1 + 1\<rparr>"
        by (auto simp: Let_def split: if_splits)
      have "ID t' = tb_next s1" "live t'" using t' t by (simp_all add: live_def)
      then have "tables_rows s' = (tables_rows s1)(ID t' \<mapsto> stored_as whole_second t')"
        by (auto simp: s' tables_rows_def fun_eq_iff live_def)
      moreover have "tables_inv s'"
        unfolding s' using tables_inv_create [OF s1(2) nx] t' by simp
      moreover have "tb_next s1 \<noteq> 0" using s1(2) by (simp add: tables_inv_def)
      ultimately show ?thesis
        using s1 tables_fresh [OF s1(2)] t t' by (simp add: same_fields_def)
    qed simp
  qed
  show "tables_inv s' \<and> tables_rows s' = tables_rows s \<and> foreign e"
    if "g_create (sample_gorm name) t s = (Inl e, s')"
    using that inv
    by (auto simp: sample_defs tables_rows_def tables_inv_def Let_def split: if_splits)
next
  fix s i lock s' and t :: Task assume "tables_inv s" and "g_first (sample_gorm name) lock i s = (Inr t, s')"
  then show "tables_inv s' \<and> tables_rows s' = tables_rows s \<and> tables_rows s i = Some t"
    by (auto simp: sample_defs tables_rows_def tables_inv_def Let_def split: if_splits option.splits)
next
  fix s i lock e s' assume "tables_inv s" and "g_first (sample_gorm name) lock i s = (Inl e, s')"
  then show "tables_inv s' \<and> tables_rows s' = tables_rows s \<and> foreign e \<and>
      (errors_Is e (SentinelErr ErrRecordNotFound) \<longrightarrow> tables_rows s i = None)"
    by (auto simp: sample_defs tables_rows_def tables_inv_def Let_def split: if_splits option.splits)
next
  fix s cnt s' assume "tables_inv s" and "g_count (sample_gorm name) s = (Inr cnt, s')"
  then show "tables_inv s' \<and> tables_rows s' = tables_rows s \<and>
      cnt = of_nat (card (dom (tables_rows s)))"
    by (auto simp: sample_defs tables_rows_def tables_inv_def card_lookup_row Let_def
        split: if_splits)
next
  fix s e s' assume "tables_inv s" and "g_count (sample_gorm name) s = (Inl e, s')"
  then show "tables_inv s' \<and> tables_rows s' = tables_rows s \<and> foreign e"
    by (auto simp: sample_defs tables_rows_def tables_inv_def Let_def split: if_splits)
next
  fix s lim off tasks s'
  assume "tables_inv s" and "g_find (sample_gorm name) lim off s = (Inr tasks, s')"
  then show "tasks = take (nat (sint lim)) (drop (nat (sint off)) (newest_first (tables_rows s)))"
    by (auto simp: sample_defs tables_rows_def tables_inv_def newest_first_lookup_row Let_def
        split: if_splits)
next
  fix s lim off e s' assume "g_find (sample_gorm name) lim off s = (Inl e, s')"
  then show "foreign e" by (auto simp: sample_defs Let_def split: if_splits)
next
  fix s lim off and found :: "goerr + Task list" and s'
  assume "tables_inv s" and "g_find (sample_gorm name) lim off s = (found, s')"
  then show "tables_inv s' \<and> tables_rows s' = tables_rows s"
    by (auto simp: sample_defs tables_rows_def tables_inv_def Let_def split: if_splits)
next
  fix s s' and t t' :: Task assume inv: "tables_inv s" and t: "tables_rows s (ID t) \<noteq> None" "DeletedAt t = None"
    and save: "g_save (sample_gorm name) t s = (Inr t', s')"
  have "statement (\<lambda>s. let t' = t\<lparr>UpdatedAt := tb_now s\<rparr>
     in (Inr t', s\<lparr>tb_rows := map (replace_row (stored_as whole_second t')) (tb_rows s)\<rparr>)) s = (Inr t', s')"
    using save by (simp add: sample_gorm_def sample_save_def)
  then show "tables_inv s' \<and> tables_rows s' = (tables_rows s)(ID t \<mapsto> stored_as whole_second t') \<and> same_fields t t' \<and>
      CreatedAt t' = CreatedAt t"
  proof (cases rule: statement_cases)
    case (ran s1)
    note s1 = same_tables [OF ran(2,3)]
    have t': "t' = t\<lparr>UpdatedAt := tb_now s1\<rparr>"
      and s': "s' = s1\<lparr>tb_rows := map (replace_row (stored_as whole_second t')) (tb_rows s1)\<rparr>"
      using ran(1) by (auto simp: Let_def)
    have "lookup_row (tb_rows s1) (ID t) \<noteq> None"
      using t(1) s1(1) by (simp add: tables_rows_def)
    then have "tables_inv s'" and "tables_rows s' = (tables_rows s1)(ID t \<mapsto> stored_as whole_second t')"
      using sample_save_keeps [OF _ _ t(2) refl s' [unfolded t']] s1 inv by (simp_all add: t')
    then show ?thesis using s1 by (simp add: same_fields_def t')
  qed simp
next
  fix s e s' and t :: Task assume "tables_inv s" and "g_save (sample_gorm name) t s = (Inl e, s')"
  then show "tables_inv s' \<and> foreign e"
    by (auto simp: sample_defs tables_inv_def Let_def split: if_splits)
next
  fix s i affected s'
  assume inv: "tables_inv s" and del: "g_delete (sample_gorm name) i s = (Inr affected, s')"
  have "statement (\<lambda>s. (Inr (if lookup_row (tb_rows s) i = None then 0 else 1),
      s\<lparr>tb_rows := map (hide_row (tb_now s) i) (tb_rows s)\<rparr>)) s = (Inr affected, s')"
    using del by (simp add: sample_gorm_def sample_delete_def)
  then show "tables_inv s' \<and> tables_rows s' = (tables_rows s)(i := None) \<and>
      affected = (if tables_rows s i = None then 0 else 1)"
  proof (cases rule: statement_cases)
    case (ran s1)
    note s1 = same_tables [OF ran(2,3)]
    show ?thesis
      using sample_delete_keeps [of s1 s' "tb_now s1" i] ran(1) s1 inv
      by (auto simp: tables_rows_def)
  qed simp
next
  fix s i e s' assume "tables_inv s" and "g_delete (sample_gorm name) i s = (Inl e, s')"
  then show "tables_inv s' \<and> tables_rows s' = tables_rows s \<and> foreign e"
    by (auto simp: sample_defs tables_rows_def tables_inv_def Let_def split: if_splits)
next
  fix s body r s'
  assume inv: "tables_inv s" and body: "\<And>u r u'. tables_inv u \<Longrightarrow> body u = (r, u') \<Longrightarrow> tables_inv u'"
    and tx: "g_tx (sample_gorm name) body s = (r, s')"
  obtain r1 s1 where b: "body s = (r1, s1)" by fastforce
  note s1 = body [OF inv b]
  show "tables_inv s' \<and>
      ((\<exists>e. r = Inl e \<and> foreign e \<and> tables_rows s' = tables_rows s) \<or>
       (\<exists>u e u'. tables_inv u \<and> tables_rows u = tables_rows s \<and> body u = (Inl e, u') \<and> r = Inl e \<and>
          tables_rows s' = tables_rows s) \<or>
       (\<exists>u t u'. tables_inv u \<and> tables_rows u = tables_rows s \<and> body u = (Inr t, u') \<and> r = Inr t \<and>
          tables_rows s' = tables_rows u'))"
    using tx b s1 inv
    by (auto simp: sample_tx_def sample_gorm_def tables_rows_def tables_inv_def Let_def statement_def
        split: sum.splits prod.splits if_splits; blast)
next
  show "stored_as whole_second t = t" if "tables_inv s" "tables_rows s i = Some t" for s i t
    using that by (auto simp: tables_rows_def tables_inv_def list_all_iff dest: lookup_row_Some)
next
  show "store_ok (tables_rows s)" if "tables_inv s" for s
    using that by (rule tables_store_ok)
qed (rule whole_second_near)

end
