(* ===== verification/Router_Spec.thy ===== *)
theory Router_Spec
  imports Router_Libs Sample_Store
begin

text \<open>
  What the error handling, the observation and the stack of the router guarantee: the status
  that is logged and counted is the one that is sent, errors have one envelope and hide what
  is internal, the route table, and that nothing gets to the tasks without a token once
  authentication is on.
\<close>

section \<open>Errors and their envelopes\<close>

lemma errorHandler_status [simp]:
  "StatusCode (fst (errorHandler e c s)) = EffectiveStatus c (Some e)"
  by (simp add: errorHandler_def EffectiveStatus_def respond_def send_json_def set_status_def
      ErrInternal_def Let_def split: option.split)

lemma errorHandler_store [simp]: "Store (snd (errorHandler e c s)) = Store s"
  "RequestsTotal (snd (errorHandler e c s)) = RequestsTotal s" "Durations (snd (errorHandler e c s)) = Durations s"
  "Now (snd (errorHandler e c s)) = Now s"
  by (simp_all add: errorHandler_def write_log_def Let_def split: option.split)

lemma errorHandler_logs: "\<exists>les. Logs (snd (errorHandler e c s)) = Logs s @ les"
  by (simp add: errorHandler_def write_log_def Let_def split: option.split)

lemma answer_store: "Store (snd (answer h c s)) = Store (snd (snd (h c s)))"
proof -
  obtain e c' s' where h: "h c s = (e, c', s')" by (cases "h c s")
  then show ?thesis by (cases e) (simp_all add: answer_def)
qed

text \<open>C9: Metrics, log and response agree. For every handler and every request, whether it succeeds or
  fails with whatever error, the status in the request log and the one in the counter of the
  metrics are the status the client is sent, although both are taken before the error handler
  runs.\<close>

theorem observed_status_is_sent:
  assumes "answer (prom_Handler (RequestLogger h)) c s = (c', s')" and "h c s = (e, c1, s1)"
  shows "(\<exists>le \<in> set (Logs s'). (''status'', AInt (StatusCode c')) \<in> set (le_attrs le) \<and>
            le_msg le = ''http_request'') \<and>
    RequestsTotal s' (Method c1, route_label c1, Itoa (StatusCode c')) =
      Suc (RequestsTotal s1 (Method c1, route_label c1, Itoa (StatusCode c')))"
proof -
  obtain e2 c2 s2 where log: "RequestLogger h c s = (e2, c2, s2)" by (cases "RequestLogger h c s")
  then have l: "e2 = e" "c2 = c1" "RequestsTotal s2 = RequestsTotal s1"
    "\<exists>le \<in> set (Logs s2). (''status'', AInt (EffectiveStatus c1 e)) \<in> set (le_attrs le) \<and>
       le_msg le = ''http_request''"
    using assms(2) by (auto simp: RequestLogger_def Let_def write_log_def)
  obtain e3 c3 s3 where prom: "prom_Handler (RequestLogger h) c s = (e3, c3, s3)"
    by (cases "prom_Handler (RequestLogger h) c s")
  then have p: "e3 = e" "c3 = c1" "Logs s3 = Logs s2"
    "RequestsTotal s3 = (RequestsTotal s2)((Method c1, route_label c1, Itoa (EffectiveStatus c1 e)) :=
       RequestsTotal s2 (Method c1, route_label c1, Itoa (EffectiveStatus c1 e)) + 1)"
    using log l by (auto simp: prom_Handler_def Let_def)
  have final: "(c', s') = (case e of None \<Rightarrow> (c1, s3) | Some e \<Rightarrow> errorHandler e c1 s3)"
    using assms(1) prom p by (simp add: answer_def split: option.splits)
  have status: "StatusCode c' = EffectiveStatus c1 e"
  proof (cases e)
    case (Some x)
    then show ?thesis using final errorHandler_status [of x c1 s3] by (metis fst_conv option.simps(5))
  qed (use final in \<open>simp add: EffectiveStatus_def\<close>)
  have "RequestsTotal s' = RequestsTotal s3 \<and> set (Logs s3) \<subseteq> set (Logs s')"
  proof (cases e)
    case (Some x)
    then have "s' = snd (errorHandler x c1 s3)" using final by (metis option.simps(5) snd_conv)
    then show ?thesis using errorHandler_logs [of x c1 s3] by auto
  qed (use final in simp)
  then show ?thesis using l p status by auto
qed

theorem observed_status_is_sent_witness:
  "\<exists>c' s'. answer (prom_Handler (RequestLogger (\<lambda>c s. (Some (AppErr ErrNotFound), c, s)))) plain_ctx plain_server =
      (c', s') \<and> RequestsTotal s' (''GET'', ''unmatched'', Itoa (StatusCode c')) = 1"
proof -
  let ?h = "\<lambda>c s. (Some (AppErr ErrNotFound), c, s)"
  obtain c' s' where run: "answer (prom_Handler (RequestLogger ?h)) plain_ctx plain_server = (c', s')"
    by fastforce
  show ?thesis
    using observed_status_is_sent [OF run refl] run
    by (simp add: plain_server_def plain_ctx_def route_label_def)
qed

text \<open>C27: Internal errors are masked. When an error is not one of fiber's and its status is 500 or
  more, as for every error the program has no catalogue entry for, the client gets the same answer
  for all such errors: the fixed 500 \<open>INTERNAL_ERROR\<close> envelope, with nothing of the error in it.\<close>

theorem internal_errors_are_masked:
  assumes "as_fiber e = None" and "500 \<le> Status (AsAppError e)"
  shows "fst (errorHandler e c s) = fst (errorHandler (AppErr ErrInternal) c s') \<and>
    StatusCode (fst (errorHandler e c s)) = 500 \<and>
    RespBody (fst (errorHandler e c s)) = JSONEnvelope \<lparr>Success = False, Data = None,
      Error_env = Some \<lparr>ei_Code = CodeInternal, ei_Message = ''internal server error'', ei_Details = []\<rparr>,
      Meta = None\<rparr>"
  using assms
  by (simp add: errorHandler_def respond_def send_json_def set_status_def ErrInternal_def ErrorBody_def Let_def)

text \<open>A database error, under whatever texts, is masked.\<close>

lemma foreign_masked:
  assumes "foreign e"
  shows "as_fiber e = None" and "500 \<le> Status (AsAppError e)"
  using assms by (simp_all add: foreign_def AsAppError_None ErrInternal_def)

theorem internal_errors_are_masked_witness:
  "fst (errorHandler (WrapErr ''get task 7: dial tcp 10.0.0.5'' (OpaqueErr ''dial tcp 10.0.0.5''))
      plain_ctx plain_server) =
     fst (errorHandler (AppErr ErrInternal) plain_ctx plain_server)"
proof -
  let ?e = "WrapErr ''get task 7: dial tcp 10.0.0.5'' (OpaqueErr ''dial tcp 10.0.0.5'')"
  have "foreign ?e" by simp
  note masked = foreign_masked [OF this]
  show ?thesis using internal_errors_are_masked [OF masked] by blast
qed

text \<open>A refusal by a rate limiter looks the same from wherever it comes: the limiter's own
  \<open>LimitReached\<close>, and a 429 error of fiber with any text, are answered with the same status and the
  same envelope, code \<open>RATE_LIMITED\<close>.\<close>

theorem rate_limited_envelope:
  "fst (answer limit_reached c s) = fst (errorHandler (FiberErr 429 msg) c s') \<and>
   StatusCode (fst (answer limit_reached c s)) = 429 \<and>
   RespBody (fst (answer limit_reached c s)) = JSONEnvelope (ErrorBody ErrRateLimited)"
  by (simp add: answer_def limit_reached_def errorHandler_def mapFiberError_def respond_def
      send_json_def set_status_def ErrRateLimited_def ErrorBody_def Let_def)

text \<open>The masking does not cover errors of fiber. A \<open>*fiber.Error\<close> with status 500 and any text is
  sent to the client with that text, under a code made of the status, and is not logged by the
  error handler.\<close>

theorem fiber_500_shows_its_text:
  "RespBody (fst (errorHandler (WrapErr t (FiberErr 500 msg)) c s)) = JSONEnvelope \<lparr>Success = False, Data = None,
      Error_env = Some \<lparr>ei_Code = ''HTTP_500'', ei_Message = msg, ei_Details = []\<rparr>, Meta = None\<rparr> \<and>
   Logs (snd (errorHandler (WrapErr t (FiberErr 500 msg)) c s)) = Logs s"
  by (simp add: errorHandler_def mapFiberError_def respond_def send_json_def set_status_def ErrorBody_def
      Itoa_def dec_digits.simps digit_char_def char_of_def bit_iff_odd Let_def)

text \<open>A bind error that carries an error of fiber slips past the 400 of the bind contract.
  \<open>BindErrorToAppError\<close> makes it \<open>INVALID_REQUEST\<close> with status 400, but keeps it as the cause, and
  the error handler looks for fiber's errors first: for an unsupported content type, where fiber
  returns its 422, the client gets 422 and the code \<open>HTTP_422\<close>.\<close>

theorem bind_fiber_error_bypasses_contract:
  "Status (BindErrorToAppError (FiberErr 422 msg)) = 400 \<and>
   Code (BindErrorToAppError (FiberErr 422 msg)) = CodeInvalidRequest \<and>
   StatusCode (fst (errorHandler (AppErr (BindErrorToAppError (FiberErr 422 msg))) c s)) = 422 \<and>
   RespBody (fst (errorHandler (AppErr (BindErrorToAppError (FiberErr 422 msg))) c s)) =
     JSONEnvelope \<lparr>Success = False, Data = None,
       Error_env = Some \<lparr>ei_Code = ''HTTP_422'', ei_Message = msg, ei_Details = []\<rparr>, Meta = None\<rparr>"
  by (simp add: BindErrorToAppError_def NewBadRequest_def EffectiveStatus_def)
    (simp add: errorHandler_def mapFiberError_def respond_def send_json_def set_status_def ErrorBody_def
      Itoa_def dec_digits.simps digit_char_def char_of_def bit_iff_odd Let_def)

text \<open>The bind contract otherwise: a validation failure is answered with 422 and one detail per
  violated field, in order; any other bind error with 400; both under \<open>INVALID_REQUEST\<close>.\<close>

theorem bind_errors_answered:
  assumes "as_fiber e = None"
  shows "StatusCode (fst (errorHandler (AppErr (BindErrorToAppError e)) c s)) =
      (if as_valerrs e = None then 400 else 422) \<and>
    (\<exists>msg. RespBody (fst (errorHandler (AppErr (BindErrorToAppError e)) c s)) =
      JSONEnvelope \<lparr>Success = False, Data = None,
        Error_env = Some \<lparr>ei_Code = CodeInvalidRequest, ei_Message = msg,
          ei_Details = (case as_valerrs e of None \<Rightarrow> []
            | Some ves \<Rightarrow> map (\<lambda>(f, t). \<lparr>Field = f, Reason = t\<rparr>) ves)\<rparr>, Meta = None\<rparr>)"
  using assms
  by (cases "as_valerrs e")
    (simp_all add: BindErrorToAppError_def NewBadRequest_def NewValidation_def EffectiveStatus_def
      errorHandler_def respond_def send_json_def set_status_def ErrorBody_def Let_def details_loop_map)

theorem bind_errors_answered_witness:
  "StatusCode (fst (errorHandler (AppErr (BindErrorToAppError
     (WrapErr ''bind'' (ValidationErrs [(''Title'', ''required'')] ''x'')))) plain_ctx plain_server)) = 422"
  using bind_errors_answered [of "WrapErr ''bind'' (ValidationErrs [(''Title'', ''required'')] ''x'')" plain_ctx plain_server]
  by simp

section \<open>The stack of the app\<close>

fun entry_key :: "('d, 'l) entry \<Rightarrow> string \<times> string" where
  "entry_key (Use p m) = (''USE'', p)"
| "entry_key (Route mth p m) = (mth, p)"

text \<open>The app is laid out as documented: seven middlewares for every path (request id, recover,
  security headers, CORS, rate limit, metrics, log) come before every route; then the probes,
  metrics and specification; with authentication on, the login route and a guard on the prefix of
  the tasks before all task routes, with it off neither. The code registers no other
  routes.\<close>

theorem New_layout:
  "map entry_key (New lib cfg db ping b j) =
     [(''USE'', ''/''), (''USE'', ''/''), (''USE'', ''/''), (''USE'', ''/''), (''USE'', ''/''), (''USE'', ''/''),
      (''USE'', ''/'')] @
     [(''GET'', ''/livez''), (''GET'', ''/readyz''), (''GET'', ''/metrics''), (''GET'', ''/openapi.yaml'')] @
     (if AuthEnabled cfg then [(''POST'', ''/api/v1/auth/login''), (''USE'', ''/api/v1/tasks'')] else []) @
     [(''POST'', ''/api/v1/tasks/''), (''GET'', ''/api/v1/tasks/''), (''GET'', ''/api/v1/tasks/:id''),
      (''PATCH'', ''/api/v1/tasks/:id''), (''DELETE'', ''/api/v1/tasks/:id'')]"
  by (simp add: New_def Let_def auth_RegisterRoutes_def task_RegisterRoutes_def)

text \<open>A handler that keeps the store on every request with the headers \<open>H\<close>.\<close>

definition keeps_store :: "(string \<Rightarrow> string) \<Rightarrow> ('d, 'l) server handler \<Rightarrow> bool" where
  "keeps_store H h \<longleftrightarrow> (\<forall>c s. Header c = H \<longrightarrow> Store (snd (snd (h c s))) = Store s)"

definition keeps_next :: "(string \<Rightarrow> string) \<Rightarrow> ('d, 'l) server middleware \<Rightarrow> bool" where
  "keeps_next H m \<longleftrightarrow> (\<forall>next. keeps_store H next \<longrightarrow> keeps_store H (m next))"

lemma hands_on_keeps: "hands_on Store m \<Longrightarrow> keeps_next H m"
  unfolding hands_on_def keeps_next_def keeps_store_def by metis

lemma terminal_keeps: "keeps_store H h \<Longrightarrow> keeps_next H (terminal h)"
  by (simp add: keeps_next_def terminal_def)

lemma chain_keeps: "\<forall>m \<in> set ms. keeps_next H m \<Longrightarrow> keeps_next H (chain ms)"
  by (induction ms) (simp_all add: keeps_next_def)

lemma prom_Handler_hands_on: "hands_on Store prom_Handler"
  unfolding hands_on_def
proof (intro allI disjI2)
  fix n c s
  show "\<exists>c1 s1. Header c1 = Header c \<and> Path c1 = Path c \<and> Store s1 = Store s \<and>
      Store (snd (snd (prom_Handler n c s))) = Store (snd (snd (n c1 s1)))"
    by (intro exI [of _ c] exI [of _ s]) (simp add: prom_Handler_def Let_def split: prod.split)
qed

lemma RequestLogger_hands_on: "hands_on Store RequestLogger"
  unfolding hands_on_def
proof (intro allI disjI2)
  fix n c s
  show "\<exists>c1 s1. Header c1 = Header c \<and> Path c1 = Path c \<and> Store s1 = Store s \<and>
      Store (snd (snd (RequestLogger n c s))) = Store (snd (snd (n c1 s1)))"
    by (intro exI [of _ c] exI [of _ s])
      (simp add: RequestLogger_def write_log_def Let_def split: prod.split)
qed

text \<open>The stack keeps the store when every entry hands on.\<close>

fun entry_keeps :: "(string \<Rightarrow> string) \<Rightarrow> ('d, 'l) entry \<Rightarrow> bool" where
  "entry_keeps H (Use p m) = keeps_next H m"
| "entry_keeps H (Route mth p m) = keeps_next H m"

lemma keeps_storeD: "keeps_store H h \<Longrightarrow> Header c = H \<Longrightarrow> Store (snd (snd (h c s))) = Store s"
  by (simp add: keeps_store_def)

lemma run_stack_keeps:
  assumes "\<forall>e \<in> set es. entry_keeps H e" and "keeps_store H (run_stack lib fs)"
  shows "keeps_store H (run_stack lib (es @ fs))"
  using assms(1)
proof (induction es)
  case (Cons e es)
  then have tail: "keeps_store H (run_stack lib (es @ fs))" by simp
  show ?case
  proof (cases e)
    case (Use p m)
    with Cons.prems tail have "keeps_store H (m (run_stack lib (es @ fs)))"
      by (simp add: keeps_next_def)
    with tail show ?thesis
      unfolding keeps_store_def Use by (simp split: if_split)
  next
    case (Route mth p m)
    with Cons.prems tail have "keeps_store H (m (run_stack lib (es @ fs)))"
      by (simp add: keeps_next_def)
    with tail show ?thesis
      unfolding keeps_store_def Route by (simp split: if_split option.split)
  qed
qed (use assms(2) in simp)

text \<open>Routes whose patterns do not match end in fiber's error.\<close>

lemma run_stack_no_match:
  assumes "\<forall>e \<in> set es. \<exists>mth p m. e = Route mth p m \<and> lb_route_match lib p (Path c) = None"
  shows "run_stack lib es c s = (Some (lb_unmatched lib c), c, s)"
  using assms by (induction es) fastforce+

lemma guard_keeps:
  assumes "jwt_contract j sig"
    and "\<And>t user. \<not> good_bearer sig (au_secret svc) t (H ''Authorization'') user"
  shows "keeps_next H (RequireAuth j svc clk)"
  unfolding keeps_next_def keeps_store_def
proof (intro allI impI)
  fix n s and c :: Ctx assume c: "Header c = H"
  have "\<nexists>user. good_bearer sig (au_secret svc) (clk s) (Header c ''Authorization'') user"
    using assms(2) c by simp
  then have "\<exists>e. RequireAuth j svc clk n c s = (Some e, c, s)"
    using guard_answers [OF assms(1), of svc clk s c n] by blast
  then show "Store (snd (snd (RequireAuth j svc clk n c s))) = Store s" by auto
qed

lemma Login_keeps: "keeps_store H (auth_Login b j (demo_service cfg))"
  unfolding keeps_store_def
proof (intro allI impI)
  fix c :: Ctx and s :: "('a, 'b) server"
  have "snd (Issue j (demo_service cfg) u p s) = s" for u p
    by (simp add: Issue_def Let_def split: sum.split)
  then show "Store (snd (snd (auth_Login b j (demo_service cfg) c s))) = Store s"
    by (auto simp: auth_Login_def OK_def split: sum.split prod.split) (metis snd_conv)+
qed

text \<open>With a guard that refuses, the task entries keep the store: a matching prefix runs into the
  guard, and if the prefix does not match, no task route does.\<close>

lemma task_entries_keep:
  assumes "libs_contract lib" and "literal v1" and "keeps_next H guard"
    and refuses: "\<And>n c s. Header c = H \<Longrightarrow> Store (snd (snd (guard n c s))) = Store s"
  shows "keeps_store H (run_stack lib (task_RegisterRoutes v1 b svc [guard]))"
  unfolding keeps_store_def
proof (intro allI impI)
  fix c :: Ctx and s :: "('a, 'b) server" assume c: "Header c = H"
  obtain rs where rs: "task_RegisterRoutes v1 b svc [guard] = Use (v1 @ ''/tasks'') (chain [guard]) # rs"
    and routes: "\<forall>e \<in> set rs. \<exists>mth q m. e = Route mth ((v1 @ ''/tasks'') @ q) m \<and> hd q = CHR ''/''"
    by (auto simp: task_RegisterRoutes_def Let_def)
  show "Store (snd (snd (run_stack lib (task_RegisterRoutes v1 b svc [guard]) c s))) = Store s"
  proof (cases "lb_use_match lib (v1 @ ''/tasks'') (Path c)")
    case True
    then show ?thesis using c by (simp add: rs refuses)
  next
    case False
    moreover have "literal (v1 @ ''/tasks'')" using assms(2) by (simp add: literal_def)
    ultimately have "lb_route_match lib ((v1 @ ''/tasks'') @ q) (Path c) = None" if "hd q = CHR ''/''" for q
      using libs_contract.prefix [OF assms(1)] that by blast
    then have "run_stack lib rs c s = (Some (lb_unmatched lib c), c, s)"
      using routes by (intro run_stack_no_match) fastforce
    with False show ?thesis by (simp add: rs)
  qed
qed

text \<open>C2: With authentication on, no request changes the store without a token. Whatever the request
  (method, path, body, query), if its \<open>Authorization\<close> header is not a bearer token that the server's
  secret signed, the whole app, from the request id to the handlers, leaves the store as it is.\<close>

theorem store_needs_token:
  assumes "libs_contract lib" and "jwt_contract j sig" and "AuthEnabled cfg"
    and "\<And>t user. \<not> good_bearer sig (AuthJWTSecret cfg) t (Header c ''Authorization'') user"
  shows "Store (snd (serve lib (New lib cfg db ping b j) c s)) = Store s"
proof -
  let ?H = "Header c"
  let ?guard = "RequireAuth j (demo_service cfg) timeNow :: ('a, 'b) server middleware"
  have guard: "keeps_next ?H ?guard"
    using guard_keeps [OF assms(2), of "demo_service cfg" ?H timeNow] assms(4) by simp
  have refuses: "Store (snd (snd (?guard n c' s'))) = Store s'" if "Header c' = ?H" for n c' s'
    using guard_answers [OF assms(2), of "demo_service cfg" timeNow s' c' n] assms(4) that by auto
  note lib = libs_contract.requestid [OF assms(1), THEN hands_on_observed(1)]
    libs_contract.recover [OF assms(1), THEN hands_on_observed(1)]
    libs_contract.helmet [OF assms(1), THEN hands_on_observed(1)]
    libs_contract.cors [OF assms(1), THEN hands_on_observed(1)]
    libs_contract.limiter [OF assms(1), THEN hands_on_observed(1)]
    prom_Handler_hands_on RequestLogger_hands_on
  have tasks: "keeps_store ?H (run_stack lib (task_RegisterRoutes ''/api/v1'' b (taskService db) [?guard]))"
    by (rule task_entries_keep [OF assms(1) _ guard refuses]) (simp_all add: literal_def)
  have health: "keeps_store H (Livez h)" "keeps_store H (Readyz h)"
    "keeps_store H (openapiSpecHandler f)" "keeps_store H (lb_metrics lib)" for H h f
    using libs_contract.metrics [OF assms(1)]
    by (simp_all add: keeps_store_def Livez_def Readyz_def openapiSpecHandler_def observed_def
        split: option.split sum.split)
  have "keeps_store ?H (run_stack lib (New lib cfg db ping b j))"
    unfolding New_def Let_def auth_RegisterRoutes_def using assms(3)
    by (simp only: if_True append_assoc [symmetric])
      (rule run_stack_keeps [OF _ tasks],
       simp add: hands_on_keeps lib terminal_keeps health Login_keeps chain_keeps del: chain.simps)
  then have "Store (snd (snd (run_stack lib (New lib cfg db ping b j) c s))) = Store s"
    by (rule keeps_storeD) simp
  then show ?thesis by (simp add: serve_def answer_store)
qed

theorem store_needs_token_witness:
  "Store (snd (serve sample_libs (New sample_libs prod_config (sample_gorm ''postgres'') (\<lambda>s. None)
      \<lparr>b_create = (\<lambda>c. Inr \<lparr>Title_c = ''x'', DueDate_c = None\<rparr>), b_update = (\<lambda>c. Inl (OpaqueErr ''x'')),
       b_login = (\<lambda>c. Inl (OpaqueErr ''x''))\<rparr> sample_jwt)
    (sample_ctx ''POST'' ''/api/v1/tasks'') (sample_server empty_tables))) = empty_tables"
proof -
  let ?c = "sample_ctx ''POST'' ''/api/v1/tasks''"
  have auth: "AuthEnabled prod_config" by (simp add: prod_config_def)
  have hdr: "\<not> good_bearer sample_signed (AuthJWTSecret prod_config) t (Header ?c ''Authorization'') user" for t user
    by (simp add: good_bearer_def sample_ctx_def)
  show ?thesis
    by (subst store_needs_token [OF sample_libs.libs_contract_axioms sample_jwt.jwt_contract_axioms auth hdr])
      (simp add: sample_server_def)
qed

end
