(* ===== verification/Task_Spec.thy ===== *)
theory Task_Spec
  imports Router_Spec
begin

text \<open>
  What the task API guarantees, from the request to the rows of the database: the five
  handlers over the service, the repository and any GORM that keeps \<open>gorm_contract\<close>, with the
  error handler in front. Requests are values; the state of the API is a server whose store is
  the database.
\<close>

section \<open>Requests\<close>

datatype task_request =
    ReqCreate Ctx
  | ReqList Ctx
  | ReqGet Ctx
  | ReqUpdate Ctx
  | ReqDelete Ctx

fun run_request ::
  "bind_body \<Rightarrow> 'd Repository \<Rightarrow> task_request \<Rightarrow> ('d, 'l) server \<Rightarrow> Ctx \<times> ('d, 'l) server" where
  "run_request b repo (ReqCreate c) s = answer (on_store (task_Create b repo)) c s"
| "run_request b repo (ReqList c) s = answer (on_store (task_List repo)) c s"
| "run_request b repo (ReqGet c) s = answer (on_store (task_Get repo)) c s"
| "run_request b repo (ReqUpdate c) s = answer (on_store (task_Update b repo)) c s"
| "run_request b repo (ReqDelete c) s = answer (on_store (task_Delete repo)) c s"

text \<open>The call of the service a request makes, or the error it is refused with before that.\<close>

fun call_of :: "bind_body \<Rightarrow> task_request \<Rightarrow> goerr + svc_call" where
  "call_of b (ReqCreate c) =
     (case b_create b c of Inl e \<Rightarrow> Inl (AppErr (BindErrorToAppError e)) | Inr req \<Rightarrow> Inr (CallCreate req))"
| "call_of b (ReqList c) =
     Inr (CallList (atoiDefault (Query c ''page'') DefaultPage) (atoiDefault (Query c ''limit'') DefaultLimit))"
| "call_of b (ReqGet c) =
     (case parseID (Params c ''id'') of Inl e \<Rightarrow> Inl e | Inr i \<Rightarrow> Inr (CallGet i))"
| "call_of b (ReqUpdate c) =
     (case parseID (Params c ''id'') of Inl e \<Rightarrow> Inl e
      | Inr i \<Rightarrow> (case b_update b c of Inl e \<Rightarrow> Inl (AppErr (BindErrorToAppError e))
                 | Inr req \<Rightarrow> Inr (CallUpdate i req)))"
| "call_of b (ReqDelete c) =
     (case parseID (Params c ''id'') of Inl e \<Rightarrow> Inl e | Inr i \<Rightarrow> Inr (CallDelete i))"

fun req_ctx :: "task_request \<Rightarrow> Ctx" where
  "req_ctx (ReqCreate c) = c"
| "req_ctx (ReqList c) = c"
| "req_ctx (ReqGet c) = c"
| "req_ctx (ReqUpdate c) = c"
| "req_ctx (ReqDelete c) = c"

definition sends :: "Ctx \<Rightarrow> int \<Rightarrow> http_body \<Rightarrow> bool" where
  "sends c n body \<longleftrightarrow> StatusCode c = n \<and> RespBody c = body"

definition data_env :: "payload \<Rightarrow> PageMeta option \<Rightarrow> http_body" where
  "data_env d m = JSONEnvelope \<lparr>Success = True, Data = Some d, Error_env = None, Meta = m\<rparr>"

definition error_env :: "app_error \<Rightarrow> http_body" where
  "error_env e = JSONEnvelope (ErrorBody e)"

abbreviation internal_error :: "Ctx \<Rightarrow> bool" where
  "internal_error c \<equiv> sends c 500 (error_env ErrInternal)"

abbreviation task_not_found :: "Ctx \<Rightarrow> bool" where
  "task_not_found c \<equiv> sends c 404 (error_env ErrTaskNotFound)"

text \<open>What an answer is for a reply of the service.\<close>

fun answers :: "task_request \<Rightarrow> svc_reply \<Rightarrow> Ctx \<Rightarrow> bool" where
  "answers (ReqCreate c) (Replied r) c' = sends c' 201 (data_env (TaskData r) None)"
| "answers (ReqList c) (Listed rs m) c' = sends c' (StatusCode c) (data_env (TaskList rs) (Some m))"
| "answers (ReqGet c) (Replied r) c' = sends c' (StatusCode c) (data_env (TaskData r) None)"
| "answers (ReqUpdate c) (Replied r) c' = sends c' (StatusCode c) (data_env (TaskData r) None)"
| "answers (ReqDelete c) Removed c' = sends c' 204 EmptyBody"
| "answers _ (Failed e) c' =
     (as_fiber e = None \<longrightarrow>
        (if 500 \<le> Status (AsAppError e) then internal_error c'
         else sends c' (Status (AsAppError e)) (error_env (AsAppError e))))"
| "answers _ _ _ = False"

lemma answers_Failed [simp]:
  "answers r (Failed e) c' =
     (as_fiber e = None \<longrightarrow>
        (if 500 \<le> Status (AsAppError e) then internal_error c'
         else sends c' (Status (AsAppError e)) (error_env (AsAppError e))))"
  by (cases r) simp_all

lemma errorHandler_answers: "answers r (Failed e) (fst (errorHandler e c s))"
  by (simp add: errorHandler_def sends_def error_env_def respond_def send_json_def set_status_def
      ErrInternal_def Let_def)

lemma run_request_refused:
  assumes "call_of b r = Inl e"
  shows "run_request b repo r s = errorHandler e (req_ctx r) s"
  using assms
  by (cases r) (auto simp: answer_def on_store_def task_Create_def task_Get_def task_Update_def
      task_Delete_def split: sum.splits)

text \<open>The handlers are the service, seen through the envelope.\<close>

lemma answer_on_store:
  assumes "h c (Store s) = (e, c1, d)"
  shows "answer (on_store h) c s =
    (case e of None \<Rightarrow> (c1, s\<lparr>Store := d\<rparr>) | Some e \<Rightarrow> errorHandler e c1 (s\<lparr>Store := d\<rparr>))"
  using assms by (simp add: answer_def on_store_def split: option.split)

lemma on_store_answers:
  assumes "h c (Store s) = (e, c1, d)" and "case e of None \<Rightarrow> answers r reply c1 | Some x \<Rightarrow> reply = Failed x"
    and "d = d'"
  shows "answers r reply (fst (answer (on_store h) c s)) \<and> Store (snd (answer (on_store h) c s)) = d'"
  using assms errorHandler_answers [of r]
  by (cases e) (simp_all add: answer_on_store del: answers.simps answers_Failed)

lemmas env_defs = OK_def Created_def OKWithMeta_def NoContent_def send_json_def set_status_def
  sends_def data_env_def

lemma run_request_calls:
  assumes "call_of b r = Inr cl" and "run_call repo cl (Store s) = (reply, d)"
  shows "answers r reply (fst (run_request b repo r s)) \<and> Store (snd (run_request b repo r s)) = d"
proof (cases r)
  case (ReqCreate c)
  then obtain req where req: "b_create b c = Inr req" "cl = CallCreate req"
    using assms(1) by (auto split: sum.splits)
  obtain x u where x: "svc_Create repo req (Store s) = (x, u)" by fastforce
  show ?thesis
    unfolding ReqCreate run_request.simps
    by (rule on_store_answers [of _ _ _ "(case x of Inl e \<Rightarrow> Some e | Inr _ \<Rightarrow> None)"
          "(case x of Inl e \<Rightarrow> c | Inr res \<Rightarrow> fst (snd (Created c (TaskData res) u)))" u])
      (use assms(2) req x in \<open>auto simp: task_Create_def env_defs split: sum.splits\<close>)
next
  case (ReqList c)
  let ?p = "atoiDefault (Query c ''page'') DefaultPage" and ?l = "atoiDefault (Query c ''limit'') DefaultLimit"
  have cl: "cl = CallList ?p ?l" using assms(1) ReqList by simp
  obtain x u where x: "svc_List repo ?p ?l (Store s) = (x, u)" by fastforce
  show ?thesis
    unfolding ReqList run_request.simps
    by (rule on_store_answers [of _ _ _ "(case x of Inl e \<Rightarrow> Some e | Inr _ \<Rightarrow> None)"
          "(case x of Inl e \<Rightarrow> c | Inr (rs, m) \<Rightarrow> fst (snd (OKWithMeta c (TaskList rs) m u)))" u])
      (use assms(2) cl x in \<open>auto simp: task_List_def env_defs split: sum.splits\<close>)
next
  case (ReqGet c)
  then obtain i where i: "parseID (Params c ''id'') = Inr i" "cl = CallGet i"
    using assms(1) by (auto split: sum.splits)
  obtain x u where x: "svc_Get repo i (Store s) = (x, u)" by fastforce
  show ?thesis
    unfolding ReqGet run_request.simps
    by (rule on_store_answers [of _ _ _ "(case x of Inl e \<Rightarrow> Some e | Inr _ \<Rightarrow> None)"
          "(case x of Inl e \<Rightarrow> c | Inr res \<Rightarrow> fst (snd (OK c (TaskData res) u)))" u])
      (use assms(2) i x in \<open>auto simp: task_Get_def env_defs split: sum.splits\<close>)
next
  case (ReqUpdate c)
  then obtain i req where i: "parseID (Params c ''id'') = Inr i" "b_update b c = Inr req"
    "cl = CallUpdate i req"
    using assms(1) by (auto split: sum.splits)
  obtain x u where x: "svc_Update repo i req (Store s) = (x, u)" by fastforce
  show ?thesis
    unfolding ReqUpdate run_request.simps
    by (rule on_store_answers [of _ _ _ "(case x of Inl e \<Rightarrow> Some e | Inr _ \<Rightarrow> None)"
          "(case x of Inl e \<Rightarrow> c | Inr res \<Rightarrow> fst (snd (OK c (TaskData res) u)))" u])
      (use assms(2) i x in \<open>auto simp: task_Update_def env_defs split: sum.splits\<close>)
next
  case (ReqDelete c)
  then obtain i where i: "parseID (Params c ''id'') = Inr i" "cl = CallDelete i"
    using assms(1) by (auto split: sum.splits)
  obtain x u where x: "svc_Delete repo i (Store s) = (x, u)" by fastforce
  show ?thesis
    unfolding ReqDelete run_request.simps
    by (rule on_store_answers [of _ _ _ x
          "(case x of Some e \<Rightarrow> c | None \<Rightarrow> fst (snd (NoContent c u)))" u])
      (use assms(2) i x in \<open>auto simp: task_Delete_def env_defs split: option.splits\<close>)
qed

section \<open>The API refines the abstract store\<close>

text \<open>C1: The service is a correct implementation of a map from ids to tasks. Over the GORM repository,
  and any GORM that keeps its contract, every call is a step that the specification \<open>task_spec\<close>
  allows from the rows before it to the rows after it, and the database stays consistent: creates
  use a fresh id, updates touch the present fields of the addressed row, deletes remove it, lists
  show the newest first, calls on missing ids fail with \<open>ErrTaskNotFound\<close>, failures of the database
  change nothing. Rows hold times as their columns round them (\<open>col\<close>).\<close>

theorem service_refines_spec:
  assumes "gorm_contract db rows ok col" and "ok s"
    and "run_call (NewRepository db) cl s = (reply, s')"
  shows "ok s' \<and> task_spec col (rows s) cl reply (rows s')"
  using task_listing.run_call_refines [OF gorm_repository [OF assms(1)] assms(2,3)] .

lemma api_step:
  assumes "gorm_contract db rows ok col" and "ok (Store s)" and "call_of b r = Inr cl"
    and "run_request b (NewRepository db) r s = (c', s')"
  obtains reply where "answers r reply c'" and "ok (Store s')"
    and "task_spec col (rows (Store s)) cl reply (rows (Store s'))"
proof -
  obtain reply d where call: "run_call (NewRepository db) cl (Store s) = (reply, d)" by fastforce
  have "ok d \<and> task_spec col (rows (Store s)) cl reply (rows d)"
    using task_listing.run_call_refines [OF gorm_repository [OF assms(1)] assms(2) call] .
  then show thesis
    using run_request_calls [OF assms(3) call] assms(4) that [of reply] by simp
qed

lemma api_refused:
  assumes "call_of b r = Inl e" and "run_request b repo r s = (c', s')"
  shows "Store s' = Store s"
  using run_request_refused [OF assms(1), of repo s] assms(2) errorHandler_store(1) [of e "req_ctx r" s]
  by (metis snd_conv)

lemma fault_answer: "foreign e \<Longrightarrow> answers r (Failed e) c' \<Longrightarrow> internal_error c'"
  using foreign_masked by simp

lemma missing_answer:
  "as_fiber e = None \<Longrightarrow> as_app e = Some ErrTaskNotFound \<Longrightarrow> answers r (Failed e) c' \<Longrightarrow>
   task_not_found c'"
  by (simp add: AsAppError_def)

lemma get_outcome:
  assumes "gorm_contract db rows ok col" and "ok (Store s)" and "parseID (Params c ''id'') = Inr i"
    and "run_request b (NewRepository db) (ReqGet c) s = (c', s')"
  shows "rows (Store s') = rows (Store s) \<and>
    (internal_error c' \<or>
     (case rows (Store s) i of
        Some t \<Rightarrow> sends c' (StatusCode c) (data_env (TaskData (toResponse t)) None)
      | None \<Rightarrow> task_not_found c'))"
proof -
  have cl: "call_of b (ReqGet c) = Inr (CallGet i)" using assms(3) by simp
  obtain reply where ans: "answers (ReqGet c) reply c'"
    and spec: "task_spec col (rows (Store s)) (CallGet i) reply (rows (Store s'))"
    by (rule api_step [OF assms(1,2) cl assms(4)])
  from spec show ?thesis
  proof (cases rule: task_spec_get_cases)
    case (found t)
    then show ?thesis using ans by simp
  next
    case (missing e)
    then have "task_not_found c'" using ans missing_answer by blast
    then show ?thesis using missing by simp
  next
    case (fault e)
    then show ?thesis using ans fault_answer by blast
  qed
qed

text \<open>C29: Reading a task. For a valid id, the answer is the stored task if there is a live row with that
  id and the 404 \<open>TASK_NOT_FOUND\<close> if there is none, or the masked 500 when the database fails; the
  rows are as before.\<close>

theorem get_answers:
  assumes "gorm_contract db rows ok col" and "ok (Store s)" and "parseID (Params c ''id'') = Inr i"
    and "run_request b (NewRepository db) (ReqGet c) s = (c', s')"
  shows "rows (Store s') = rows (Store s) \<and>
    (internal_error c' \<or>
     (case rows (Store s) i of
        Some t \<Rightarrow> sends c' (StatusCode c) (data_env (TaskData (toResponse t)) None)
      | None \<Rightarrow> task_not_found c'))"
  using get_outcome [OF assms] .

text \<open>C4: Partial updates. For a valid id and a bound body, a successful \<open>PATCH\<close> changes the addressed
  row and no other: title, done and due date are the ones sent where the field is present (a null
  due date clears it) and the old ones where it is absent, id and creation time stay, and the
  answer shows the row that was written; the columns round its new times and leave those it had.
  Otherwise the answer is 404 \<open>TASK_NOT_FOUND\<close> for a missing row or the
  masked 500, and the rows are as before.\<close>

theorem update_answers:
  assumes "gorm_contract db rows ok col" and "ok (Store s)" and "parseID (Params c ''id'') = Inr i"
    and "b_update b c = Inr req"
    and "run_request b (NewRepository db) (ReqUpdate c) s = (c', s')"
  shows "(\<exists>t t'. rows (Store s) i = Some t \<and> rows (Store s') = (rows (Store s))(i \<mapsto> stored_as col t') \<and>
      sends c' (StatusCode c) (data_env (TaskData (toResponse t')) None) \<and>
      Title t' = (case Title_u req of None \<Rightarrow> Title t | Some x \<Rightarrow> x) \<and>
      Done t' = (case Done_u req of None \<Rightarrow> Done t | Some x \<Rightarrow> x) \<and>
      DueDate t' = (if \<not> Set_n (DueDate_u req) then DueDate t
                    else if Null_n (DueDate_u req) then None else Some (Value_n (DueDate_u req))) \<and>
      ID t' = i \<and> CreatedAt t' = CreatedAt t \<and> CreatedAt (stored_as col t') = CreatedAt t \<and>
      (\<not> Set_n (DueDate_u req) \<longrightarrow> DueDate (stored_as col t') = DueDate t)) \<or>
    rows (Store s') = rows (Store s) \<and>
      (rows (Store s) i = None \<and> task_not_found c' \<or> internal_error c')"
proof -
  have cl: "call_of b (ReqUpdate c) = Inr (CallUpdate i req)" using assms(3,4) by simp
  obtain reply where ans: "answers (ReqUpdate c) reply c'"
    and spec: "task_spec col (rows (Store s)) (CallUpdate i req) reply (rows (Store s'))"
    by (rule api_step [OF assms(1,2) cl assms(5)])
  from spec show ?thesis
  proof (cases rule: task_spec_update_cases)
    case (changed t t')
    then have "ID t = i" and "stored_as col t = t"
      using gorm_contract.stored(1) [OF assms(1,2)] gorm_contract.g_kept [OF assms(1,2)] by blast+
    with changed stored_as_kept [of col t] show ?thesis
      using ans by (intro disjI1 exI [of _ t] exI [of _ t']) (simp add: same_fields_def)
  next
    case (missing e)
    then have "task_not_found c'" using ans missing_answer by blast
    then show ?thesis using missing by blast
  next
    case (fault e)
    then show ?thesis using ans fault_answer by blast
  qed
qed

text \<open>C11: Listing. A list request is answered with the masked 500 or with a page and its meta block.
  The meta block is the requested page and limit, as \<open>NewPageQuery\<close> bounds them, the number of all
  live rows, and the number of pages, which is that number over the limit, rounded up. If the offset
  of the page, \<open>(page - 1) * limit\<close>, fits in an \<open>int\<close>, the page is the rows from that offset on in the
  order of the newest first, at most \<open>limit\<close> and at most 100 of them. The rows are as before.\<close>

theorem list_answers:
  assumes "gorm_contract db rows ok col" and "ok (Store s)"
    and "q = NewPageQuery (atoiDefault (Query c ''page'') DefaultPage) (atoiDefault (Query c ''limit'') DefaultLimit)"
    and "run_request b (NewRepository db) (ReqList c) s = (c', s')"
  shows "rows (Store s') = rows (Store s) \<and>
    (internal_error c' \<or>
     (\<exists>m items. sends c' (StatusCode c) (data_env (TaskList items) (Some m)) \<and>
        mt_Page m = Page q \<and> mt_Limit m = Limit q \<and> TotalCount m = of_nat (card (dom (rows (Store s)))) \<and>
        (card (dom (rows (Store s))) < 2 ^ 62 \<longrightarrow>
           nat (sint (TotalPages m)) =
             (card (dom (rows (Store s))) + nat (sint (Limit q)) - 1) div nat (sint (Limit q))) \<and>
        ((sint (Page q) - 1) * sint (Limit q) < 2 ^ 63 \<longrightarrow>
           length items \<le> 100 \<and>
           items = map toResponse (take (nat (sint (Limit q)))
             (drop (nat ((sint (Page q) - 1) * sint (Limit q))) (newest_first (rows (Store s))))))))"
proof -
  let ?p = "atoiDefault (Query c ''page'') DefaultPage" and ?l = "atoiDefault (Query c ''limit'') DefaultLimit"
  have cl: "call_of b (ReqList c) = Inr (CallList ?p ?l)" by simp
  obtain reply where ans: "answers (ReqList c) reply c'"
    and spec: "task_spec col (rows (Store s)) (CallList ?p ?l) reply (rows (Store s'))"
    by (rule api_step [OF assms(1,2) cl assms(4)])
  from spec show ?thesis
  proof (cases rule: task_spec_list_cases)
    case (listed m rs)
    let ?n = "card (dom (rows (Store s)))"
    have m: "mt_Page m = Page q" "mt_Limit m = Limit q" "TotalCount m = of_nat ?n"
      using listed(3) assms(3) by (auto simp: NewPageMeta_def split: if_splits)
    have pages: "nat (sint (TotalPages m)) = (?n + nat (sint (Limit q)) - 1) div nat (sint (Limit q))"
      if "?n < 2 ^ 62"
      using TotalPages_NewPageQuery [OF that listed(3)] assms(3) by simp
    have "length rs \<le> 100 \<and> rs = map toResponse (take (nat (sint (Limit q)))
        (drop (nat ((sint (Page q) - 1) * sint (Limit q))) (newest_first (rows (Store s)))))"
      if "(sint (Page q) - 1) * sint (Limit q) < 2 ^ 63"
    proof -
      note slice = page_slice_exact [OF assms(3) that]
      from slice(1) have "rs = map toResponse (page_slice q (newest_first (rows (Store s))))"
        using listed(4) assms(3) by simp
      moreover have "length (page_slice q (newest_first (rows (Store s)))) \<le> 100"
        unfolding assms(3) by (rule length_page_slice)
      ultimately show ?thesis by (simp add: slice(2))
    qed
    moreover have "sends c' (StatusCode c) (data_env (TaskList rs) (Some m))"
      using ans listed(1) by simp
    ultimately show ?thesis
      using listed(2) m pages by (intro conjI disjI2 exI [of _ m] exI [of _ rs]) blast+
  next
    case (fault e)
    then show ?thesis using ans fault_answer by blast
  qed
qed

section \<open>Sequences of requests\<close>

lemma create_outcome:
  assumes "gorm_contract db rows ok col" and "ok (Store s)" and "b_create b c = Inr req"
    and "run_request b (NewRepository db) (ReqCreate c) s = (c', s')"
  shows "ok (Store s') \<and>
    ((\<exists>t. sends c' 201 (data_env (TaskData (toResponse t)) None) \<and> rows (Store s) (ID t) = None \<and>
        ID t \<noteq> 0 \<and> Title t = Title_c req \<and> DueDate t = DueDate_c req \<and> \<not> Done t \<and>
        rows (Store s') = (rows (Store s))(ID t \<mapsto> stored_as col t)) \<or>
     internal_error c' \<and> rows (Store s') = rows (Store s))"
proof -
  have cl: "call_of b (ReqCreate c) = Inr (CallCreate req)" using assms(3) by simp
  obtain reply where ans: "answers (ReqCreate c) reply c'" and ok: "ok (Store s')"
    and spec: "task_spec col (rows (Store s)) (CallCreate req) reply (rows (Store s'))"
    by (rule api_step [OF assms(1,2) cl assms(4)])
  from spec show ?thesis
  proof (cases rule: task_spec_create_cases)
    case (made t)
    then show ?thesis using ans ok by auto
  next
    case (fault e)
    then show ?thesis using ans ok fault_answer by blast
  qed
qed

lemma delete_outcome:
  assumes "gorm_contract db rows ok col" and "ok (Store s)" and "parseID (Params c ''id'') = Inr i"
    and "run_request b (NewRepository db) (ReqDelete c) s = (c', s')"
  shows "ok (Store s') \<and>
    (sends c' 204 EmptyBody \<and> rows (Store s) i \<noteq> None \<and> rows (Store s') = (rows (Store s))(i := None) \<or>
     rows (Store s') = rows (Store s) \<and> (rows (Store s) i = None \<and> task_not_found c' \<or> internal_error c'))"
proof -
  have cl: "call_of b (ReqDelete c) = Inr (CallDelete i)" using assms(3) by simp
  obtain reply where ans: "answers (ReqDelete c) reply c'" and ok: "ok (Store s')"
    and spec: "task_spec col (rows (Store s)) (CallDelete i) reply (rows (Store s'))"
    by (rule api_step [OF assms(1,2) cl assms(4)])
  from spec show ?thesis
  proof (cases rule: task_spec_delete_cases)
    case (removed t)
    then show ?thesis using ans ok by auto
  next
    case (missing e)
    then have "task_not_found c'" using ans missing_answer by blast
    then show ?thesis using missing ok by blast
  next
    case (fault e)
    then show ?thesis using ans ok fault_answer by blast
  qed
qed

text \<open>What a later read shows of a created task.\<close>

definition kept_response :: "(gotime \<Rightarrow> gotime) \<Rightarrow> Response \<Rightarrow> Response" where
  "kept_response col r =
     r\<lparr>DueDate_r := map_option col (DueDate_r r), CreatedAt_r := col (CreatedAt_r r),
       UpdatedAt_r := col (UpdatedAt_r r)\<rparr>"

lemma toResponse_stored: "toResponse (stored_as col t) = kept_response col (toResponse t)"
  by (simp add: kept_response_def toResponse_def)

text \<open>C6: What is created can be read back. A create request with a bound body is answered with 201 and
  a task that has a fresh id that is not zero, the title and due date sent, and \<open>done\<close> false, or
  with the masked 500 and nothing stored. After the 201, a read of the id, as the API prints it in
  decimal, is answered with this task, unless the database fails: the same id, title and \<open>done\<close>,
  and the times of the 201 as their columns round them, which is less than a second away. The read
  changes no row.\<close>

theorem created_task_reads_back:
  assumes "gorm_contract db rows ok col" and "ok (Store s)" and "b_create b c = Inr req"
    and "run_request b (NewRepository db) (ReqCreate c) s = (c1, s1)" and "StatusCode c2 = 200"
  shows "(\<exists>r. sends c1 201 (data_env (TaskData r) None) \<and> rows (Store s) (ID_r r) = None \<and> ID_r r \<noteq> 0 \<and>
      Title_r r = Title_c req \<and> DueDate_r r = DueDate_c req \<and> \<not> Done_r r \<and>
      (\<forall>x \<in> {CreatedAt_r r, UpdatedAt_r r} \<union> set_option (DueDate_r r). \<bar>col x - x\<bar> < second) \<and>
      (Params c2 ''id'' = FormatUint (ID_r r) \<longrightarrow>
       (\<exists>c3 s2. run_request b (NewRepository db) (ReqGet c2) s1 = (c3, s2) \<and>
          rows (Store s2) = rows (Store s1) \<and>
          (sends c3 200 (data_env (TaskData (kept_response col r)) None) \<or> internal_error c3)))) \<or>
    internal_error c1 \<and> rows (Store s1) = rows (Store s)"
proof -
  obtain c3 s2 where get: "run_request b (NewRepository db) (ReqGet c2) s1 = (c3, s2)"
    by (cases "run_request b (NewRepository db) (ReqGet c2) s1")
  from create_outcome [OF assms(1-4)] consider
      t where "sends c1 201 (data_env (TaskData (toResponse t)) None)" "ok (Store s1)"
        "rows (Store s) (ID t) = None" "ID t \<noteq> 0" "Title t = Title_c req" "DueDate t = DueDate_c req"
        "\<not> Done t" "rows (Store s1) = (rows (Store s))(ID t \<mapsto> stored_as col t)"
    | "internal_error c1" "rows (Store s1) = rows (Store s)"
    by blast
  then show ?thesis
  proof cases
    case (1 t)
    have "rows (Store s2) = rows (Store s1) \<and>
        (sends c3 200 (data_env (TaskData (kept_response col (toResponse t))) None) \<or> internal_error c3)"
      if "Params c2 ''id'' = FormatUint (ID t)"
    proof -
      have "parseID (Params c2 ''id'') = Inr (ID t)"
        using that 1(4) by (simp add: parseID_def ParseUint_FormatUint)
      from get_outcome [OF assms(1) 1(2) this get] 1(8) assms(5) show ?thesis
        by (auto simp: toResponse_stored)
    qed
    then show ?thesis
      using 1 get gorm_contract.g_near [OF assms(1)]
      by (intro disjI1 exI [of _ "toResponse t"]) auto
  qed blast
qed

text \<open>C10: Deletion is final and exact. A delete request for a valid id removes that row and no other
  with 204, or answers 404 \<open>TASK_NOT_FOUND\<close> for a missing row, or the masked 500, with the rows as
  before. After a 204, reading the id and deleting it again are both answered with 404, unless the
  database fails, and change nothing.\<close>

theorem deleted_task_is_gone:
  assumes "gorm_contract db rows ok col" and "ok (Store s)" and "parseID (Params c ''id'') = Inr i"
    and "run_request b (NewRepository db) (ReqDelete c) s = (c1, s1)"
    and "StatusCode c1 = 204"
    and "run_request b (NewRepository db) (ReqGet c) s1 = (c2, s2)"
    and "run_request b (NewRepository db) (ReqDelete c) s1 = (c3, s3)"
  shows "rows (Store s) i \<noteq> None \<and> rows (Store s1) = (rows (Store s))(i := None) \<and>
    (task_not_found c2 \<or> internal_error c2) \<and> (task_not_found c3 \<or> internal_error c3) \<and>
    rows (Store s2) = rows (Store s1) \<and> rows (Store s3) = rows (Store s1)"
proof -
  have del: "ok (Store s1)" "rows (Store s) i \<noteq> None" "rows (Store s1) = (rows (Store s))(i := None)"
    using delete_outcome [OF assms(1-4)] assms(5) by (auto simp: sends_def)
  then have gone: "rows (Store s1) i = None" by simp
  note get = get_outcome [OF assms(1) del(1) assms(3,6)]
  note again = delete_outcome [OF assms(1) del(1) assms(3,7)]
  show ?thesis using del(2,3) get again gone by (intro conjI; fastforce)
qed

text \<open>One request, and what any of them does to the rows.\<close>

lemma task_spec_frame: "task_spec col m cl reply m' \<Longrightarrow> \<exists>i. \<forall>k. k \<noteq> i \<longrightarrow> m' k = m k"
  by (cases rule: task_spec.cases) (assumption, (rule exI, auto)+)

lemma task_spec_failed: "task_spec col m cl (Failed e) m' \<Longrightarrow> m' = m"
  by (auto elim: task_spec.cases)

lemma task_spec_created:
  "task_spec col m cl reply m' \<Longrightarrow> m k = Some t \<Longrightarrow> m' k = Some t' \<Longrightarrow> stored_as col t = t \<Longrightarrow>
   CreatedAt t' = CreatedAt t"
  using stored_as_kept(2) [of col t] by (auto elim!: task_spec.cases split: if_splits)

lemma answers_low:
  "answers r reply c' \<Longrightarrow> StatusCode (req_ctx r) = 200 \<Longrightarrow> 400 \<le> StatusCode c' \<Longrightarrow> \<exists>e. reply = Failed e"
  by (cases r; cases reply) (auto simp: sends_def)

text \<open>C12: Every request is one small step. It changes at most one row, never the id or the creation
  time of a row that stays, keeps the database consistent, and if it is answered with a status of
  400 or more it changes nothing at all.\<close>

theorem requests_change_one_row:
  assumes "gorm_contract db rows ok col" and "ok (Store s)" and "StatusCode (req_ctx r) = 200"
    and "run_request b (NewRepository db) r s = (c', s')"
  shows "store_ok (rows (Store s')) \<and>
    (\<exists>i. \<forall>k. k \<noteq> i \<longrightarrow> rows (Store s') k = rows (Store s) k) \<and>
    (\<forall>k t t'. rows (Store s) k = Some t \<longrightarrow> rows (Store s') k = Some t' \<longrightarrow>
       ID t' = k \<and> CreatedAt t' = CreatedAt t) \<and>
    (400 \<le> StatusCode c' \<longrightarrow> rows (Store s') = rows (Store s))"
proof (cases "call_of b r")
  case (Inl e)
  have same: "Store s' = Store s" by (rule api_refused [OF Inl assms(4)])
  have "store_ok (rows (Store s))" by (rule gorm_contract.g_store [OF assms(1,2)])
  then show ?thesis by (auto simp: same store_ok_def)
next
  case (Inr cl)
  obtain reply where ans: "answers r reply c'" and ok: "ok (Store s')"
    and spec: "task_spec col (rows (Store s)) cl reply (rows (Store s'))"
    by (rule api_step [OF assms(1,2) Inr assms(4)])
  have store: "store_ok (rows (Store s'))" by (rule gorm_contract.g_store [OF assms(1) ok])
  have "rows (Store s') = rows (Store s)" if "400 \<le> StatusCode c'"
    using answers_low [OF ans assms(3) that] spec task_spec_failed by blast
  then show ?thesis
    using store task_spec_frame [OF spec] task_spec_created [OF spec] gorm_contract.g_kept [OF assms(1,2)]
    by (auto simp: store_ok_def)
qed

text \<open>The error that binding the body of a request ends in, and the statuses of each
  endpoint besides those of a refused body: those of \<open>api/openapi.yaml\<close> and 500.\<close>

fun bind_error :: "bind_body \<Rightarrow> task_request \<Rightarrow> goerr option" where
  "bind_error b (ReqCreate c) = (case b_create b c of Inl e \<Rightarrow> Some e | Inr _ \<Rightarrow> None)"
| "bind_error b (ReqUpdate c) =
     (case parseID (Params c ''id'') of Inl _ \<Rightarrow> None
      | Inr i \<Rightarrow> (case b_update b c of Inl e \<Rightarrow> Some e | Inr _ \<Rightarrow> None))"
| "bind_error b _ = None"

fun endpoint_statuses :: "task_request \<Rightarrow> int set" where
  "endpoint_statuses (ReqCreate c) = {201, 500}"
| "endpoint_statuses (ReqList c) = {200, 500}"
| "endpoint_statuses (ReqGet c) = {200, 400, 404, 500}"
| "endpoint_statuses (ReqUpdate c) = {200, 400, 404, 500}"
| "endpoint_statuses (ReqDelete c) = {204, 400, 404, 500}"

definition refused_status :: "goerr \<Rightarrow> int" where
  "refused_status e =
     (case as_fiber e of Some (code, m) \<Rightarrow> code | None \<Rightarrow> if as_valerrs e = None then 400 else 422)"

lemma bind_refused_status:
  "EffectiveStatus c (Some (AppErr (BindErrorToAppError e))) = refused_status e"
  by (cases "as_valerrs e"; cases "as_fiber e")
    (auto simp: refused_status_def EffectiveStatus_def BindErrorToAppError_def NewBadRequest_def NewValidation_def)

lemma parseID_refused: "parseID raw = Inl e \<Longrightarrow> EffectiveStatus c (Some e) = 400"
  by (auto simp: EffectiveStatus_def parseID_def NewBadRequest_def split: sum.splits if_splits)

lemma refusal_status:
  assumes "call_of b r = Inl e"
  shows "EffectiveStatus c (Some e) =
    (case bind_error b r of Some x \<Rightarrow> refused_status x | None \<Rightarrow> 400)"
    and "bind_error b r = None \<Longrightarrow> 400 \<in> endpoint_statuses r"
  using assms
  by (cases r; auto split: sum.splits simp: bind_refused_status parseID_refused)+

text \<open>C25: The status codes are the documented ones. A request to a task handler is answered with one
  of the statuses of its endpoint, whatever it holds and however the database fails. Only if its body
  does not bind there is another: 422 for a violated tag, the status of a fiber error if binding ended
  in one, and 400 for everything else.\<close>

theorem documented_statuses:
  assumes "gorm_contract db rows ok col" and "ok (Store s)" and "StatusCode (req_ctx r) = 200"
    and "run_request b (NewRepository db) r s = (c', s')"
  shows "case bind_error b r of
      None \<Rightarrow> StatusCode c' \<in> endpoint_statuses r
    | Some e \<Rightarrow> StatusCode c' = refused_status e"
proof (cases "call_of b r")
  case (Inl e)
  have "StatusCode c' = EffectiveStatus (req_ctx r) (Some e)"
    using run_request_refused [OF Inl, of "NewRepository db" s] assms(4)
      errorHandler_status [of e "req_ctx r" s] by (metis fst_conv)
  then show ?thesis using refusal_status [OF Inl] by (auto split: option.splits)
next
  case (Inr cl)
  obtain reply where ans: "answers r reply c'"
    and spec: "task_spec col (rows (Store s)) cl reply (rows (Store s'))"
    by (rule api_step [OF assms(1,2) Inr assms(4)])
  have bound: "bind_error b r = None"
    using Inr by (cases r) (auto split: sum.splits)
  have "StatusCode c' \<in> endpoint_statuses r"
  proof (cases "\<exists>e. reply = Failed e")
    case True
    then obtain e where e: "reply = Failed e" by blast
    with spec have "foreign e \<or> as_fiber e = None \<and> as_app e = Some ErrTaskNotFound \<and> addresses cl \<noteq> None"
      by (auto elim: task_spec.cases)
    then show ?thesis
    proof (elim disjE conjE)
      assume "foreign e"
      then have "internal_error c'" using ans fault_answer unfolding e by blast
      then show ?thesis by (cases r) (simp_all add: sends_def)
    next
      assume "as_fiber e = None" "as_app e = Some ErrTaskNotFound" "addresses cl \<noteq> None"
      moreover from this have "task_not_found c'" using ans missing_answer unfolding e by blast
      ultimately show ?thesis using Inr by (cases r) (auto simp: sends_def split: sum.splits)
    qed
  next
    case False
    then show ?thesis using ans assms(3) by (cases r; cases reply) (auto simp: sends_def)
  qed
  then show ?thesis by (simp add: bound)
qed

lemma run_request_ok:
  assumes "gorm_contract db rows ok col" and "ok (Store s)"
    and "run_request b (NewRepository db) r s = (c', s')"
  shows "ok (Store s')"
proof (cases "call_of b r")
  case (Inl e)
  then show ?thesis using api_refused [OF Inl assms(3)] assms(2) by simp
next
  case (Inr cl)
  show ?thesis by (rule api_step [OF assms(1,2) Inr assms(3)])
qed

inductive reachable ::
  "bind_body \<Rightarrow> 'd Repository \<Rightarrow> ('d, 'l) server \<Rightarrow> ('d, 'l) server \<Rightarrow> bool" for b repo s0 where
  reach_refl: "reachable b repo s0 s0"
| reach_step: "reachable b repo s0 s \<Longrightarrow> run_request b repo r s = (c', s') \<Longrightarrow> reachable b repo s0 s'"

inductive_simps reachable_last: "reachable b repo s0 s"

definition titles_ok :: "(go_uint \<rightharpoonup> Task) \<Rightarrow> bool" where
  "titles_ok m \<longleftrightarrow> (\<forall>i t. m i = Some t \<longrightarrow> title_ok (Title t))"

fun call_ok :: "svc_call \<Rightarrow> bool" where
  "call_ok (CallCreate req) = title_ok (Title_c req)"
| "call_ok (CallUpdate i req) = (\<forall>x. Title_u req = Some x \<longrightarrow> title_ok x)"
| "call_ok _ = True"

lemma bound_calls_ok:
  assumes "bind_contract b" and "call_of b r = Inr cl"
  shows "call_ok cl"
  using assms(2) bind_contract.bound_create [OF assms(1)] bind_contract.bound_update [OF assms(1)]
  by (cases r) (auto split: sum.splits)

lemma task_spec_titles:
  assumes "task_spec col m cl reply m'" and "call_ok cl" and "titles_ok m"
  shows "titles_ok m'"
  using assms by cases (auto simp: titles_ok_def same_fields_def split: if_splits option.splits)

text \<open>The validated titles are an invariant of the database. From a database whose titles are not
  empty and have at most 200 characters, no sequence of requests, in any order and with any
  failures of the database in between, leads to one where a live row breaks the rule, so every
  title fits its \<open>size:200\<close> column; and the database stays consistent.\<close>

theorem titles_stay_valid:
  assumes "gorm_contract db rows ok col" and "bind_contract b"
    and "ok (Store s0)" and "titles_ok (rows (Store s0))"
    and "reachable b (NewRepository db) s0 s"
  shows "ok (Store s) \<and> store_ok (rows (Store s)) \<and> titles_ok (rows (Store s))"
proof -
  have "ok (Store s) \<and> titles_ok (rows (Store s))"
    using assms(5)
  proof induction
    case (reach_step s r c' s')
    then have ok: "ok (Store s)" and titles: "titles_ok (rows (Store s))" by simp_all
    show ?case
    proof (cases "call_of b r")
      case (Inl e)
      then show ?thesis using api_refused [OF Inl reach_step.hyps(2)] ok titles by simp
    next
      case (Inr cl)
      obtain reply where "ok (Store s')" "task_spec col (rows (Store s)) cl reply (rows (Store s'))"
        by (rule api_step [OF assms(1) ok Inr reach_step.hyps(2)])
      then show ?thesis
        using task_spec_titles bound_calls_ok [OF assms(2) Inr] titles by blast
    qed
  qed (use assms(3,4) in simp)
  then show ?thesis using gorm_contract.g_store [OF assms(1)] by blast
qed

section \<open>The hypotheses can hold\<close>

text \<open>A binding in which the body is the title.\<close>

definition sample_bind :: bind_body where
  "sample_bind =
     \<lparr>b_create = (\<lambda>c. if title_ok (ReqBody c) then Inr \<lparr>Title_c = ReqBody c, DueDate_c = None\<rparr>
                      else Inl (ValidationErrs [(''Title'', ''required'')] ''invalid'')),
      b_update = (\<lambda>c. if title_ok (ReqBody c)
                      then Inr \<lparr>Title_u = Some (ReqBody c), Done_u = Some True, DueDate_u = zero_NullableTime\<rparr>
                      else Inl (ValidationErrs [(''Title'', ''min'')] ''invalid'')),
      b_login = (\<lambda>c. Inl (OpaqueErr ''no body''))\<rparr>"

interpretation sample_bind: bind_contract sample_bind
  by unfold_locales (auto simp: sample_bind_def split: if_splits)

definition sample_task :: Task where
  "sample_task = zero_Task\<lparr>ID := 7, Title := ''milk'', CreatedAt := 3 * second, UpdatedAt := 3 * second\<rparr>"

definition one_task :: tables where
  "one_task = empty_tables\<lparr>tb_rows := [sample_task], tb_next := 8\<rparr>"

lemma sample_inv: "tables_inv empty_tables" "tables_inv one_task"
  by (simp_all add: tables_inv_def empty_tables_def one_task_def sample_task_def zero_Task_def
      stored_as_def whole_second_def)

lemma one_task_row: "tables_rows one_task 7 = Some sample_task"
  by (simp add: tables_rows_def one_task_def empty_tables_def sample_task_def zero_Task_def live_def)

definition id_ctx :: "string \<Rightarrow> string \<Rightarrow> Ctx" where
  "id_ctx raw body = (sample_ctx ''GET'' ''/api/v1/tasks/:id'')\<lparr>Params := (\<lambda>_. raw), ReqBody := body\<rparr>"

lemma id_ctx_sel [simp]: "Params (id_ctx raw body) n = raw" "ReqBody (id_ctx raw body) = body"
  "StatusCode (id_ctx raw body) = 200"
  by (simp_all add: id_ctx_def sample_ctx_def)

lemma Store_sample [simp]: "Store (sample_server d) = d"
  by (simp add: sample_server_def)

lemma parseID_7: "parseID ''7'' = Inr 7"
  by (simp add: parseID_def ParseUint_def digit_val_def uint_cutoff_def)

lemma title_ok_milk: "title_ok ''milk''"
  by (simp add: title_ok_def rune_width_def lead_length_def)

lemma sample_create_201:
  "\<exists>c1 s1. run_request sample_bind (NewRepository (sample_gorm ''postgres'')) (ReqCreate (id_ctx [] ''milk''))
     (sample_server empty_tables) = (c1, s1) \<and> StatusCode c1 = 201"
  by (simp add: answer_def on_store_def task_Create_def sample_bind_def title_ok_milk svc_Create_def
      NewRepository_def repo_Create_def sample_defs empty_tables_def Created_def send_json_def set_status_def Let_def)

theorem service_refines_spec_witness:
  "\<exists>reply s'. run_call (NewRepository (sample_gorm ''postgres'')) (CallDelete 7) one_task = (reply, s') \<and>
     tables_inv s' \<and> task_spec whole_second (tables_rows one_task) (CallDelete 7) reply (tables_rows s')"
proof -
  obtain reply s' where run: "run_call (NewRepository (sample_gorm ''postgres'')) (CallDelete 7) one_task = (reply, s')"
    by fastforce
  show ?thesis
    using service_refines_spec [OF sample.gorm_contract_axioms sample_inv(2) run] run by blast
qed

theorem get_answers_witness:
  "\<exists>c' s'. run_request sample_bind (NewRepository (sample_gorm ''postgres'')) (ReqGet (id_ctx ''7'' []))
       (sample_server one_task) = (c', s') \<and>
     (internal_error c' \<or> sends c' 200 (data_env (TaskData (toResponse sample_task)) None))"
proof -
  obtain c' s' where run: "run_request sample_bind (NewRepository (sample_gorm ''postgres''))
      (ReqGet (id_ctx ''7'' [])) (sample_server one_task) = (c', s')" by fastforce
  have inv: "tables_inv (Store (sample_server one_task))" using sample_inv by simp
  have id: "parseID (Params (id_ctx ''7'' []) ''id'') = Inr 7" by (simp add: parseID_7)
  show ?thesis
    using get_answers [OF sample.gorm_contract_axioms inv id run] run by (simp add: one_task_row)
qed

theorem update_answers_witness:
  "\<exists>c' s'. run_request sample_bind (NewRepository (sample_gorm ''mysql'')) (ReqUpdate (id_ctx ''7'' ''milk''))
       (sample_server one_task) = (c', s') \<and>
     (internal_error c' \<or> (\<exists>t'. tables_rows (Store s') 7 = Some t' \<and> Done t' \<and> ID t' = 7))"
proof -
  obtain c' s' where run: "run_request sample_bind (NewRepository (sample_gorm ''mysql''))
      (ReqUpdate (id_ctx ''7'' ''milk'')) (sample_server one_task) = (c', s')" by fastforce
  have inv: "tables_inv (Store (sample_server one_task))" using sample_inv by simp
  have id: "parseID (Params (id_ctx ''7'' ''milk'') ''id'') = Inr 7" by (simp add: parseID_7)
  have req: "b_update sample_bind (id_ctx ''7'' ''milk'') =
      Inr \<lparr>Title_u = Some ''milk'', Done_u = Some True, DueDate_u = zero_NullableTime\<rparr>"
    by (simp add: sample_bind_def title_ok_milk)
  show ?thesis
    using update_answers [OF sample.gorm_contract_axioms inv id req run] run
    by (auto simp: one_task_row)
qed

theorem list_answers_witness:
  "\<exists>c' s'. run_request sample_bind (NewRepository (sample_gorm ''sqlite'')) (ReqList (id_ctx [] []))
       (sample_server one_task) = (c', s') \<and> tables_rows (Store s') = tables_rows one_task"
proof -
  obtain c' s' where run: "run_request sample_bind (NewRepository (sample_gorm ''sqlite''))
      (ReqList (id_ctx [] [])) (sample_server one_task) = (c', s')" by fastforce
  have inv: "tables_inv (Store (sample_server one_task))" using sample_inv by simp
  have q: "NewPageQuery 1 20 = NewPageQuery
      (atoiDefault (Query (id_ctx [] []) ''page'') DefaultPage)
      (atoiDefault (Query (id_ctx [] []) ''limit'') DefaultLimit)"
    by (simp add: id_ctx_def sample_ctx_def atoiDefault_def Atoi_def ParseInt_def paging_consts)
  show ?thesis
    using list_answers [OF sample.gorm_contract_axioms inv q run] run by simp
qed

theorem created_task_reads_back_witness:
  "\<exists>c1 s1 r. run_request sample_bind (NewRepository (sample_gorm ''postgres'')) (ReqCreate (id_ctx [] ''milk''))
     (sample_server empty_tables) = (c1, s1) \<and> sends c1 201 (data_env (TaskData r) None) \<and>
     Title_r r = ''milk''"
proof -
  obtain c1 s1 where run: "run_request sample_bind (NewRepository (sample_gorm ''postgres''))
      (ReqCreate (id_ctx [] ''milk'')) (sample_server empty_tables) = (c1, s1)" and st: "StatusCode c1 = 201"
    using sample_create_201 by blast
  have inv: "tables_inv (Store (sample_server empty_tables))" using sample_inv by simp
  have req: "b_create sample_bind (id_ctx [] ''milk'') = Inr \<lparr>Title_c = ''milk'', DueDate_c = None\<rparr>"
    by (simp add: sample_bind_def title_ok_milk)
  show ?thesis
    using created_task_reads_back [OF sample.gorm_contract_axioms inv req run, of "id_ctx [] []"] run st
    by (auto simp: sends_def simp del: run_request.simps)
qed

lemma sample_delete_204:
  "\<exists>c1 s1. run_request sample_bind (NewRepository (sample_gorm ''postgres'')) (ReqDelete (id_ctx ''7'' []))
     (sample_server one_task) = (c1, s1) \<and> StatusCode c1 = 204"
  by (simp add: answer_def on_store_def task_Delete_def parseID_7 svc_Delete_def NewRepository_def
      repo_Delete_def sample_defs one_task_def empty_tables_def sample_task_def zero_Task_def live_def
      NoContent_def send_json_def set_status_def Let_def)

theorem deleted_task_is_gone_witness:
  "\<exists>c1 s1. run_request sample_bind (NewRepository (sample_gorm ''postgres'')) (ReqDelete (id_ctx ''7'' []))
     (sample_server one_task) = (c1, s1) \<and> tables_rows (Store s1) = (tables_rows one_task)(7 := None)"
proof -
  let ?run = "run_request sample_bind (NewRepository (sample_gorm ''postgres''))"
  obtain c1 s1 where run: "?run (ReqDelete (id_ctx ''7'' [])) (sample_server one_task) = (c1, s1)"
    and st: "StatusCode c1 = 204"
    using sample_delete_204 by blast
  obtain c2 s2 where get: "?run (ReqGet (id_ctx ''7'' [])) s1 = (c2, s2)" by fastforce
  obtain c3 s3 where del: "?run (ReqDelete (id_ctx ''7'' [])) s1 = (c3, s3)" by fastforce
  have inv: "tables_inv (Store (sample_server one_task))" using sample_inv by simp
  have id: "parseID (Params (id_ctx ''7'' []) ''id'') = Inr 7" by (simp add: parseID_7)
  show ?thesis
    using deleted_task_is_gone [OF sample.gorm_contract_axioms inv id run st get del] run by auto
qed

theorem requests_change_one_row_witness:
  "\<exists>c1 s1. run_request sample_bind (NewRepository (sample_gorm ''postgres'')) (ReqGet (id_ctx ''x'' []))
     (sample_server one_task) = (c1, s1) \<and> store_ok (tables_rows (Store s1))"
proof -
  let ?r = "ReqGet (id_ctx ''x'' [])"
  obtain c1 s1 where run: "run_request sample_bind (NewRepository (sample_gorm ''postgres'')) ?r
      (sample_server one_task) = (c1, s1)" by fastforce
  have inv: "tables_inv (Store (sample_server one_task))" using sample_inv by simp
  have st: "StatusCode (req_ctx ?r) = 200" by simp
  show ?thesis
    using requests_change_one_row [OF sample.gorm_contract_axioms inv st run] run by blast
qed

theorem documented_statuses_witness:
  "\<exists>c1 s1. run_request sample_bind (NewRepository (sample_gorm ''postgres'')) (ReqCreate (id_ctx [] []))
     (sample_server one_task) = (c1, s1) \<and> StatusCode c1 = 422"
proof -
  let ?r = "ReqCreate (id_ctx [] [])"
  obtain c1 s1 where run: "run_request sample_bind (NewRepository (sample_gorm ''postgres'')) ?r
      (sample_server one_task) = (c1, s1)" by fastforce
  have inv: "tables_inv (Store (sample_server one_task))" using sample_inv by simp
  have st: "StatusCode (req_ctx ?r) = 200" by simp
  have "bind_error sample_bind ?r = Some (ValidationErrs [(''Title'', ''required'')] ''invalid'')"
    by (simp add: sample_bind_def title_ok_def)
  then show ?thesis
    using documented_statuses [OF sample.gorm_contract_axioms inv st run] run
    by (simp add: refused_status_def)
qed

theorem titles_stay_valid_witness:
  "\<exists>s. reachable sample_bind (NewRepository (sample_gorm ''postgres'')) (sample_server one_task) s \<and>
     titles_ok (tables_rows (Store s))"
proof -
  have inv: "tables_inv (Store (sample_server one_task))" using sample_inv by simp
  have "tables_rows one_task i = Some t \<Longrightarrow> t = sample_task" for i t
    by (auto simp: tables_rows_def one_task_def split: if_splits)
  moreover have "title_ok (Title sample_task)" using title_ok_milk by (simp add: sample_task_def)
  ultimately have titles: "titles_ok (tables_rows (Store (sample_server one_task)))"
    unfolding titles_ok_def Store_sample by blast
  obtain c1 s1 where run: "run_request sample_bind (NewRepository (sample_gorm ''postgres''))
      (ReqCreate (id_ctx [] ''milk'')) (sample_server one_task) = (c1, s1)" by fastforce
  have reach: "reachable sample_bind (NewRepository (sample_gorm ''postgres'')) (sample_server one_task) s1"
    by (rule reach_step [OF reach_refl run])
  show ?thesis
    using titles_stay_valid [OF sample.gorm_contract_axioms sample_bind.bind_contract_axioms inv titles reach]
      reach by blast
qed

end
