(* ===== verification/App_Serve.thy ===== *)
theory App_Serve
  imports Task_Spec
begin

text \<open>
  Requests through the whole app, over libraries that let requests pass (\<open>libs_passing\<close>): the
  probes are answered whatever the load and the tokens, and a request to the task API gets
  the answer of its handler unless it is limited or unauthorized.
\<close>

section \<open>Following a request down the stack\<close>

definition same_request :: "Ctx \<Rightarrow> Ctx \<Rightarrow> bool" where
  "same_request c c1 \<longleftrightarrow>
     Method c1 = Method c \<and> Path c1 = Path c \<and> Query c1 = Query c \<and> Header c1 = Header c \<and>
     ReqBody c1 = ReqBody c \<and> StatusCode c1 = StatusCode c \<and> RespBody c1 = RespBody c"

text \<open>The request on its way: the store is as it was, time may have passed.\<close>

definition similar :: "Ctx \<Rightarrow> ('d, 'l) server \<Rightarrow> Ctx \<Rightarrow> ('d, 'l) server \<Rightarrow> bool" where
  "similar c0 s0 c s \<longleftrightarrow> same_request c0 c \<and> Store s = Store s0 \<and> Now s0 \<le> Now s"

definition echoes :: "('d, 'l) server outcome \<Rightarrow> ('d, 'l) server outcome \<Rightarrow> bool" where
  "echoes out out' \<longleftrightarrow>
     fst out' = fst out \<and> same_answer (fst (snd out)) (fst (snd out')) \<and>
     Store (snd (snd out')) = Store (snd (snd out)) \<and> Now (snd (snd out)) \<le> Now (snd (snd out'))"

definition echo_closed :: "(('d, 'l) server outcome \<Rightarrow> bool) \<Rightarrow> bool" where
  "echo_closed good \<longleftrightarrow> (\<forall>out out'. echoes out out' \<longrightarrow> good out \<longrightarrow> good out')"

text \<open>\<open>h\<close> does what \<open>good\<close> says on the request, wherever on its way it is.\<close>

definition within ::
  "Ctx \<Rightarrow> ('d, 'l) server \<Rightarrow> (('d, 'l) server outcome \<Rightarrow> bool) \<Rightarrow> ('d, 'l) server handler \<Rightarrow> bool" where
  "within c0 s0 good h \<longleftrightarrow> (\<forall>c s. similar c0 s0 c s \<longrightarrow> good (h c s))"

lemma similar_refl [simp]: "similar c s c s"
  by (simp add: similar_def same_request_def)

lemma similar_route [simp]:
  "similar c0 s0 (c\<lparr>RoutePath := p\<rparr>) s \<longleftrightarrow> similar c0 s0 c s"
  "similar c0 s0 (c\<lparr>RoutePath := p, Params := ps\<rparr>) s \<longleftrightarrow> similar c0 s0 c s"
  "similar c0 s0 (c\<lparr>Locals := l\<rparr>) s \<longleftrightarrow> similar c0 s0 c s"
  by (simp_all add: similar_def same_request_def)

lemma similar_sel:
  assumes "similar c0 s0 c s"
  shows "Method c = Method c0" and "Path c = Path c0" and "Header c = Header c0" and "Store s = Store s0"
    and "StatusCode c = StatusCode c0" and "Now s0 \<le> Now s"
  using assms by (simp_all add: similar_def same_request_def)

lemma echoes_refl [simp]: "echoes out out"
  by (simp add: echoes_def)

lemma echoes_trans: "echoes a b \<Longrightarrow> echoes b c \<Longrightarrow> echoes a c"
  by (auto simp: echoes_def same_answer_def)

lemma passes_Store:
  assumes "passes observed m c s"
  shows "passes Store m c s"
  unfolding passes_def
proof (intro allI)
  fix n
  obtain c1 s1 where "same_ctx c c1 \<and> observed s1 = observed s \<and> Now s \<le> Now s1 \<and>
      fst (m n c s) = fst (n c1 s1) \<and> same_answer (fst (snd (n c1 s1))) (fst (snd (m n c s))) \<and>
      observed (snd (snd (m n c s))) = observed (snd (snd (n c1 s1))) \<and>
      Now (snd (snd (n c1 s1))) \<le> Now (snd (snd (m n c s)))"
    using assms unfolding passes_def by blast
  then show "\<exists>c1 s1. same_ctx c c1 \<and> Store s1 = Store s \<and> Now s \<le> Now s1 \<and>
      fst (m n c s) = fst (n c1 s1) \<and> same_answer (fst (snd (n c1 s1))) (fst (snd (m n c s))) \<and>
      Store (snd (snd (m n c s))) = Store (snd (snd (n c1 s1))) \<and>
      Now (snd (snd (n c1 s1))) \<le> Now (snd (snd (m n c s)))"
    by (intro exI [of _ c1] exI [of _ s1]) (simp add: observed_def)
qed

lemma passes_within:
  assumes "passes Store m c s" and "similar c0 s0 c s" and "echo_closed good" and "within c0 s0 good h"
  shows "good (m h c s)"
proof -
  obtain c1 s1 where one: "same_ctx c c1" "Store s1 = Store s" "Now s \<le> Now s1"
    "fst (m h c s) = fst (h c1 s1)" "same_answer (fst (snd (h c1 s1))) (fst (snd (m h c s)))"
    "Store (snd (snd (m h c s))) = Store (snd (snd (h c1 s1)))" "Now (snd (snd (h c1 s1))) \<le> Now (snd (snd (m h c s)))"
    using assms(1) unfolding passes_def by blast
  then have "similar c0 s0 c1 s1"
    using assms(2) by (auto simp: similar_def same_request_def same_ctx_def)
  moreover have "echoes (h c1 s1) (m h c s)" using one by (simp add: echoes_def)
  ultimately show ?thesis using assms(3,4) unfolding echo_closed_def within_def by blast
qed

text \<open>One lemma for each kind of entry.\<close>

lemma within_use:
  assumes "lb_use_match lib p (Path c0)" and "\<And>c s. similar c0 s0 c s \<Longrightarrow> passes Store m c s"
    and "echo_closed good" and "within c0 s0 good (run_stack lib es)"
  shows "within c0 s0 good (run_stack lib (Use p m # es))"
  unfolding within_def
proof (intro allI impI)
  fix c s assume sim: "similar c0 s0 c s"
  then have "good (m (run_stack lib es) (c\<lparr>RoutePath := p\<rparr>) s)"
    using passes_within [OF assms(2) _ assms(3,4)] by simp
  then show "good (run_stack lib (Use p m # es) c s)"
    using assms(1) similar_sel(2) [OF sim] by simp
qed

lemma within_limiter:
  assumes "lb_use_match lib p (Path c0)"
    and "\<And>c s. similar c0 s0 c s \<Longrightarrow> passes Store m c s \<or>
      (\<exists>s1. Store s1 = Store s \<and> (\<forall>n. m n c s = limit_reached c s1))"
    and limited: "\<And>c s. Store s = Store s0 \<Longrightarrow> good (limit_reached c s)"
    and "echo_closed good" and "within c0 s0 good (run_stack lib es)"
  shows "within c0 s0 good (run_stack lib (Use p m # es))"
  unfolding within_def
proof (intro allI impI)
  fix c s assume sim: "similar c0 s0 c s"
  let ?c = "c\<lparr>RoutePath := p\<rparr>"
  have "good (m (run_stack lib es) ?c s)"
  proof (cases "passes Store m ?c s")
    case True
    then show ?thesis using passes_within [OF True _ assms(4,5)] sim by simp
  next
    case False
    then obtain s1 where "Store s1 = Store s" "m (run_stack lib es) ?c s = limit_reached ?c s1"
      using assms(2) [of ?c s] sim by auto
    then show ?thesis using limited similar_sel(4) [OF sim] by simp
  qed
  then show "good (run_stack lib (Use p m # es) c s)"
    using assms(1) similar_sel(2) [OF sim] by simp
qed

lemma within_skip:
  assumes "lb_route_match lib p (Path c0) = None \<or> \<not> lb_method_match lib mth (Method c0)"
    and "within c0 s0 good (run_stack lib es)"
  shows "within c0 s0 good (run_stack lib (Route mth p m # es))"
  using assms unfolding within_def by (auto simp: similar_sel split: option.split)

lemma within_hit:
  assumes "lb_route_match lib p (Path c0) = Some ps" and "lb_method_match lib mth (Method c0)"
    and "\<And>c s. similar c0 s0 c s \<Longrightarrow> Params c = ps \<Longrightarrow> good (h c s)"
  shows "within c0 s0 good (run_stack lib (Route mth p (terminal h) # es))"
  using assms unfolding within_def by (auto simp: similar_sel terminal_def)

text \<open>The program's own middlewares let every request pass.\<close>

lemma prom_Handler_passes: "passes Store prom_Handler c s"
  unfolding passes_def
  by (intro allI exI [of _ c] exI [of _ s]) (simp add: prom_Handler_def Let_def split: prod.split)

lemma RequestLogger_passes: "passes Store RequestLogger c s"
  unfolding passes_def
  by (intro allI exI [of _ c] exI [of _ s])
    (simp add: RequestLogger_def write_log_def Let_def split: prod.split)

text \<open>The first seven entries: what gets through the limiter gets to the rest.\<close>

lemma within_front:
  assumes "libs_passing lib" and "Method c0 \<noteq> ''OPTIONS''" and "echo_closed good"
    and limited: "\<not> skipRateLimit c0 \<Longrightarrow> (\<And>c s. Store s = Store s0 \<Longrightarrow> good (limit_reached c s))"
    and "within c0 s0 good (run_stack lib rest)"
  shows "within c0 s0 good (run_stack lib
    ([Use ''/'' (lb_requestid lib), Use ''/'' (lb_recover lib), Use ''/'' (lb_helmet lib),
      Use ''/'' (lb_cors lib origins),
      Use ''/'' (lb_limiter lib \<lparr>lc_Max = n, lc_Expiration = d, lc_LimitReached = limit_reached,
        lc_Next = Some skipRateLimit\<rparr>),
      Use ''/'' prom_Handler, Use ''/'' RequestLogger] @ rest))"
proof -
  let ?lc = "\<lparr>lc_Max = n, lc_Expiration = d, lc_LimitReached = limit_reached, lc_Next = Some skipRateLimit\<rparr>"
  note use = libs_passing.use_all [OF assms(1), of "Path c0"]
  note pass = libs_passing.pass_requestid [OF assms(1), THEN passes_Store]
    libs_passing.pass_recover [OF assms(1), THEN passes_Store]
    libs_passing.pass_helmet [OF assms(1), THEN passes_Store]
    libs_passing.pass_cors [OF assms(1), THEN passes_Store]
  have skip: "skipRateLimit c = skipRateLimit c0" if "similar c0 s0 c s" for c and s
    using similar_sel(2) [OF that] by (simp add: skipRateLimit_def)
  have tail: "within c0 s0 good (run_stack lib (Use ''/'' prom_Handler # Use ''/'' RequestLogger # rest))"
    by (intro within_use [OF use _ assms(3)] prom_Handler_passes RequestLogger_passes assms(5))
  have "within c0 s0 good (run_stack lib
      (Use ''/'' (lb_limiter lib ?lc) # Use ''/'' prom_Handler # Use ''/'' RequestLogger # rest))"
  proof (cases "skipRateLimit c0")
    case True
    then show ?thesis
      using skip libs_passing.pass_exempt [OF assms(1), of ?lc skipRateLimit, THEN passes_Store]
      by (intro within_use [OF use _ assms(3) tail]) auto
  next
    case False
    have "passes Store (lb_limiter lib ?lc) c s \<or>
        (\<exists>s1. Store s1 = Store s \<and> (\<forall>n. lb_limiter lib ?lc n c s = limit_reached c s1))" for c s
      using libs_passing.pass_limiter [OF assms(1), of ?lc c s] passes_Store
      by (auto simp: observed_def)
    then show ?thesis
      by (rule within_limiter [OF use _ limited [OF False] assms(3) tail])
  qed
  then have "within c0 s0 good (run_stack lib (Use ''/'' (lb_cors lib origins) #
      Use ''/'' (lb_limiter lib ?lc) # Use ''/'' prom_Handler # Use ''/'' RequestLogger # rest))"
    by (rule within_use [OF use _ assms(3), rotated]) (use assms(2) in \<open>simp add: pass(4) similar_sel\<close>)
  note within_use [OF use pass(1) assms(3), OF within_use [OF use pass(2) assms(3),
        OF within_use [OF use pass(3) assms(3) this]]]
  then show ?thesis by simp
qed

text \<open>The probe routes, for requests elsewhere.\<close>

lemma literal_paths [simp]:
  "literal ''/livez''" "literal ''/readyz''" "literal ''/metrics''" "literal ''/openapi.yaml''"
  "literal ''/api/v1/auth/login''" "literal ''/api/v1/tasks''" "literal ''/api/v1/tasks/''"
  by (simp_all add: literal_def)

lemma route_keys [simp]:
  "route_key ''/livez'' = ''/livez''" "route_key ''/readyz'' = ''/readyz''"
  "route_key ''/metrics'' = ''/metrics''" "route_key ''/openapi.yaml'' = ''/openapi.yaml''"
  "route_key ''/api/v1/auth/login'' = ''/api/v1/auth/login''"
  "route_key ''/api/v1/tasks'' = ''/api/v1/tasks''" "route_key ''/api/v1/tasks/'' = ''/api/v1/tasks''"
  by (simp_all add: route_key_def lower_byte_def)

lemma within_elsewhere:
  assumes "libs_passing lib" and "literal p" and "route_key (Path c0) \<noteq> route_key p"
    and "within c0 s0 good (run_stack lib es)"
  shows "within c0 s0 good (run_stack lib (Route mth p m # es))"
  using libs_passing.route_only [OF assms(1,2), of "Path c0"] assms(3,4) by (intro within_skip) auto

lemma within_other_method:
  assumes "libs_passing lib" and "Method c0 \<noteq> mth" and "Method c0 \<noteq> ''HEAD''"
    and "within c0 s0 good (run_stack lib es)"
  shows "within c0 s0 good (run_stack lib (Route mth p m # es))"
  using libs_passing.method_only [OF assms(1), of mth "Method c0"] assms(2-4) by (intro within_skip) auto

text \<open>The four routes before the API.\<close>

lemma within_probes:
  assumes "libs_passing lib" and "route_key (Path c0) \<notin> {''/livez'', ''/readyz'', ''/metrics'', ''/openapi.yaml''}"
    and "within c0 s0 good (run_stack lib es)"
  shows "within c0 s0 good (run_stack lib (Route ''GET'' ''/livez'' h1 # Route ''GET'' ''/readyz'' h2 #
    Route ''GET'' ''/metrics'' h3 # Route ''GET'' ''/openapi.yaml'' h4 # es))"
  using assms(2) by (intro within_elsewhere [OF assms(1)] assms(3)) simp_all

section \<open>Probes\<close>

lemma within_probe_routes:
  assumes lib: "libs_passing lib" and path: "Path c \<in> {''/livez'', ''/readyz''}" and get: "lb_method_match lib ''GET'' (Method c)"
    and live: "\<And>c1 s1. similar c s c1 s1 \<Longrightarrow> Path c = ''/livez'' \<Longrightarrow> good (Livez h c1 s1)"
    and ready: "\<And>c1 s1. similar c s c1 s1 \<Longrightarrow> Path c = ''/readyz'' \<Longrightarrow> good (Readyz h c1 s1)"
  shows "within c s good (run_stack lib (Route ''GET'' ''/livez'' (terminal (Livez h)) #
      Route ''GET'' ''/readyz'' (terminal (Readyz h)) # rest))"
proof (cases "Path c = ''/livez''")
  case True
  then obtain ps where "lb_route_match lib ''/livez'' (Path c) = Some ps"
    using libs_passing.route_self [OF lib, of "''/livez''"] by auto
  then show ?thesis by (rule within_hit [OF _ get]) (rule live [OF _ True])
next
  case False
  then have path: "Path c = ''/readyz''" using path by simp
  then obtain ps where "lb_route_match lib ''/readyz'' (Path c) = Some ps"
    using libs_passing.route_self [OF lib, of "''/readyz''"] by auto
  then have "within c s good (run_stack lib (Route ''GET'' ''/readyz'' (terminal (Readyz h)) # rest))"
    by (rule within_hit [OF _ get]) (rule ready [OF _ path])
  then show ?thesis by (rule within_elsewhere [OF lib, rotated -1]) (simp_all add: path)
qed

text \<open>C23: The probes answer under any load. A \<open>GET\<close> of \<open>/livez\<close> or \<open>/readyz\<close> gets through the whole stack
  whatever the limiters have counted, with or without a token and whether authentication is on or
  not: \<open>/livez\<close> says 200 and the commit, also when the database is down, \<open>/readyz\<close> says 200 exactly
  when the database answers the ping and 503 otherwise. The store is not touched.\<close>

theorem probes_answer_under_load:
  assumes "libs_passing lib" and "Method c = ''GET''" and "Path c \<in> {''/livez'', ''/readyz''}"
    and "StatusCode c = 200" and "serve lib (New lib cfg db ping b j) c s = (c', s')"
  shows "Store s' = Store s \<and>
    (Path c = ''/livez'' \<longrightarrow> StatusCode c' = 200 \<and>
       RespBody c' = JSONProbe (JObj [(''status'', JStr ''ok''),
         (''commit'', JStr (if BuildCommit cfg = [] then ''dev'' else BuildCommit cfg))])) \<and>
    (Path c = ''/readyz'' \<longrightarrow> (\<exists>s1. Store s1 = Store s \<and> Now s \<le> Now s1 \<and>
       StatusCode c' = (if ping s1 = None then 200 else 503)))"
proof -
  let ?h = "NewHealthHandler ping (BuildCommit cfg)"
  define good where "good out \<longleftrightarrow> fst out = None \<and> Store (snd (snd out)) = Store s \<and>
    (Path c = ''/livez'' \<longrightarrow> StatusCode (fst (snd out)) = 200 \<and>
       RespBody (fst (snd out)) = JSONProbe (JObj [(''status'', JStr ''ok''), (''commit'', JStr (h_commit ?h))])) \<and>
    (Path c = ''/readyz'' \<longrightarrow> (\<exists>s1. Store s1 = Store s \<and> Now s \<le> Now s1 \<and>
       StatusCode (fst (snd out)) = (if ping s1 = None then 200 else 503)))"
    for out :: "('a, 'b) server outcome"
  have closed: "echo_closed good"
    by (auto simp: echo_closed_def echoes_def same_answer_def good_def)
  have get: "lb_method_match lib ''GET'' (Method c)"
    using libs_passing.method_self [OF assms(1)] assms(2) by simp
  have live: "good (Livez ?h c1 s1)" if "similar c s c1 s1" "Path c = ''/livez''" for c1 s1
    using that assms(4) similar_sel [OF that(1)] by (simp add: good_def Livez_def send_json_def)
  have ready: "good (Readyz ?h c1 s1)" if "similar c s c1 s1" "Path c = ''/readyz''" for c1 s1
    using that assms(4) similar_sel [OF that(1)]
    by (auto simp: good_def Readyz_def send_json_def set_status_def NewHealthHandler_def
        intro: exI [of _ s1] split: option.split)
  note routes = within_probe_routes [OF assms(1,3) get live ready]
  have "skipRateLimit c" using assms(3) by (auto simp: skipRateLimit_def limiterSkipPaths_def)
  then have "within c s good (run_stack lib (New lib cfg db ping b j))"
    unfolding New_def Let_def append_assoc using assms(2) routes
    by (simp only: append_Cons append_Nil)
      (rule within_front [OF assms(1) _ closed, unfolded append_Cons append_Nil], simp_all)
  then have "good (run_stack lib (New lib cfg db ping b j) c s)"
    by (simp add: within_def)
  then show ?thesis
    using assms(5) unfolding good_def serve_def answer_def NewHealthHandler_def
    by (auto split: prod.splits option.splits)
qed

theorem probes_answer_under_load_witness:
  "StatusCode (fst (serve sample_libs (New sample_libs prod_config (sample_gorm ''postgres'')
      (\<lambda>s. Some (OpaqueErr ''down'')) sample_bind sample_jwt) (sample_ctx ''GET'' ''/readyz'')
      ((sample_server empty_tables)\<lparr>LibState := 1000\<rparr>))) = 503"
proof -
  let ?c = "sample_ctx ''GET'' ''/readyz''" and ?s = "(sample_server empty_tables)\<lparr>LibState := 1000\<rparr>"
  let ?out = "serve sample_libs (New sample_libs prod_config (sample_gorm ''postgres'')
      (\<lambda>s. Some (OpaqueErr ''down'')) sample_bind sample_jwt) ?c ?s"
  have out: "?out = (fst ?out, snd ?out)" by simp
  show ?thesis
    using probes_answer_under_load [OF sample_libs.libs_passing_axioms _ _ _ out]
    by (auto simp: sample_ctx_def)
qed

section \<open>The task API through the app\<close>

datatype api_op = OpCreate | OpList | OpGet | OpUpdate | OpDelete

fun req_of :: "api_op \<Rightarrow> Ctx \<Rightarrow> task_request" where
  "req_of OpCreate = ReqCreate"
| "req_of OpList = ReqList"
| "req_of OpGet = ReqGet"
| "req_of OpUpdate = ReqUpdate"
| "req_of OpDelete = ReqDelete"

fun handler_of :: "bind_body \<Rightarrow> 'd Repository \<Rightarrow> api_op \<Rightarrow> 'd handler" where
  "handler_of b repo OpCreate = task_Create b repo"
| "handler_of b repo OpList = task_List repo"
| "handler_of b repo OpGet = task_Get repo"
| "handler_of b repo OpUpdate = task_Update b repo"
| "handler_of b repo OpDelete = task_Delete repo"

lemma run_request_of: "run_request b repo (req_of op c) s = answer (on_store (handler_of b repo op)) c s"
  by (cases op) simp_all

fun op_method :: "api_op \<Rightarrow> string" where
  "op_method OpCreate = ''POST''"
| "op_method OpList = ''GET''"
| "op_method OpGet = ''GET''"
| "op_method OpUpdate = ''PATCH''"
| "op_method OpDelete = ''DELETE''"

definition on_item :: "api_op \<Rightarrow> bool" where
  "on_item op \<longleftrightarrow> op \<in> {OpGet, OpUpdate, OpDelete}"

text \<open>The requests of an operation: the collection with or without the slash, or one item.\<close>

definition requests_op :: "api_op \<Rightarrow> string \<Rightarrow> Ctx \<Rightarrow> bool" where
  "requests_op op x c \<longleftrightarrow> Method c = op_method op \<and>
     (if on_item op then segment x \<and> Path c = ''/api/v1/tasks/'' @ x
      else Path c \<in> {''/api/v1/tasks'', ''/api/v1/tasks/''})"

lemma requests_op_key:
  assumes "requests_op op x c"
  shows "\<exists>y. route_key (Path c) = ''/api/v1/tasks'' @ y" and "on_item op \<Longrightarrow> route_key (Path c) \<noteq> ''/api/v1/tasks''"
proof -
  have "route_key (''/api/v1/tasks/'' @ x) = ''/api/v1/tasks/'' @ map lower_byte x" if "segment x"
    using route_key_segment [OF that, of "''/api/v1/tasks/''"] by (simp add: lower_byte_def)
  then show "\<exists>y. route_key (Path c) = ''/api/v1/tasks'' @ y" "on_item op \<Longrightarrow> route_key (Path c) \<noteq> ''/api/v1/tasks''"
    using assms by (auto simp: requests_op_def split: if_splits)
qed

text \<open>From the routes of the tasks to the handler.\<close>

lemma within_task_routes:
  assumes lib: "libs_passing lib" and req: "requests_op op x c0"
    and good: "\<And>c s. similar c0 s0 c s \<Longrightarrow> (on_item op \<Longrightarrow> Params c ''id'' = x) \<Longrightarrow>
      good (on_store (handler_of b svc op) c s)"
  shows "within c0 s0 good (run_stack lib (task_RegisterRoutes ''/api/v1'' b svc []))"
proof -
  let ?tasks = "''/api/v1/tasks''"
  let ?R = "\<lambda>mth p op. Route mth p (terminal (on_store (handler_of b svc op)))"
  let ?del = "[?R ''DELETE'' ''/api/v1/tasks/:id'' OpDelete]"
  let ?patch = "?R ''PATCH'' ''/api/v1/tasks/:id'' OpUpdate # ?del"
  let ?get = "?R ''GET'' ''/api/v1/tasks/:id'' OpGet # ?patch"
  let ?list = "?R ''GET'' ''/api/v1/tasks/'' OpList # ?get"
  have routes: "task_RegisterRoutes ''/api/v1'' b svc [] = ?R ''POST'' ''/api/v1/tasks/'' OpCreate # ?list"
    by (simp add: task_RegisterRoutes_def)
  have self: "lb_method_match lib (Method c0) (Method c0)"
    by (rule libs_passing.method_self [OF lib])
  have hit: "within c0 s0 good (run_stack lib (?R (Method c0) p op # es))"
    if "if on_item op then p = ?tasks @ ''/:id'' else p = ''/api/v1/tasks/''" for p es
  proof -
    have "\<exists>ps. lb_route_match lib p (Path c0) = Some ps \<and> (on_item op \<longrightarrow> ps ''id'' = x)"
      using that req libs_passing.route_param [OF lib, of ?tasks x]
        libs_passing.route_self [OF lib, of "''/api/v1/tasks/''"] libs_passing.route_noslash [OF lib, of ?tasks]
      by (auto simp: requests_op_def split: if_splits)
    then obtain ps where ps: "lb_route_match lib p (Path c0) = Some ps" "on_item op \<longrightarrow> ps ''id'' = x"
      by blast
    show ?thesis by (rule within_hit [OF ps(1) self]) (use good ps(2) in blast)
  qed
  note skip = within_other_method [OF lib]
  have m: "Method c0 = op_method op" using req by (simp add: requests_op_def)
  show ?thesis
    unfolding routes
  proof (cases op)
    case OpCreate
    then show "within c0 s0 good (run_stack lib (?R ''POST'' ''/api/v1/tasks/'' OpCreate # ?list))"
      using hit m by (simp add: on_item_def)
  next
    case OpList
    then have "within c0 s0 good (run_stack lib ?list)" using hit m by (simp add: on_item_def)
    then show "within c0 s0 good (run_stack lib (?R ''POST'' ''/api/v1/tasks/'' OpCreate # ?list))"
      by (rule skip [rotated -1]) (simp_all add: m OpList)
  next
    case OpGet
    then have "within c0 s0 good (run_stack lib ?get)" using hit m by (simp add: on_item_def)
    then have "within c0 s0 good (run_stack lib ?list)"
      using requests_op_key(2) [OF req] OpGet
      by (intro within_elsewhere [OF lib _ _ \<open>within c0 s0 good (run_stack lib ?get)\<close>]) (simp_all add: on_item_def)
    then show "within c0 s0 good (run_stack lib (?R ''POST'' ''/api/v1/tasks/'' OpCreate # ?list))"
      by (rule skip [rotated -1]) (simp_all add: m OpGet)
  next
    case OpUpdate
    then have "within c0 s0 good (run_stack lib ?patch)" using hit m by (simp add: on_item_def)
    from skip [OF _ _ this] have "within c0 s0 good (run_stack lib ?get)" by (simp add: m OpUpdate)
    from skip [OF _ _ this] have "within c0 s0 good (run_stack lib ?list)" by (simp add: m OpUpdate)
    then show "within c0 s0 good (run_stack lib (?R ''POST'' ''/api/v1/tasks/'' OpCreate # ?list))"
      by (rule skip [rotated -1]) (simp_all add: m OpUpdate)
  next
    case OpDelete
    then have "within c0 s0 good (run_stack lib ?del)" using hit m by (simp add: on_item_def)
    from skip [OF _ _ this] have "within c0 s0 good (run_stack lib ?patch)" by (simp add: m OpDelete)
    from skip [OF _ _ this] have "within c0 s0 good (run_stack lib ?get)" by (simp add: m OpDelete)
    from skip [OF _ _ this] have "within c0 s0 good (run_stack lib ?list)" by (simp add: m OpDelete)
    then show "within c0 s0 good (run_stack lib (?R ''POST'' ''/api/v1/tasks/'' OpCreate # ?list))"
      by (rule skip [rotated -1]) (simp_all add: m OpDelete)
  qed
qed

text \<open>The guard, and the routes before it.\<close>

lemma within_guard:
  assumes "jwt_contract j sig" and "lb_use_match lib p (Path c0)"
    and refused: "\<And>c s e. similar c0 s0 c s \<Longrightarrow>
      \<nexists>user. good_bearer sig (au_secret svc) (Now s) (Header c0 ''Authorization'') user \<Longrightarrow>
      as_fiber e = None \<Longrightarrow> Status (AsAppError e) = 401 \<Longrightarrow>
      ErrorBody (AsAppError e) = ErrorBody ErrUnauthorized \<Longrightarrow> good (Some e, c, s)"
    and "within c0 s0 good (run_stack lib es)"
  shows "within c0 s0 good (run_stack lib (Use p (chain [RequireAuth j svc timeNow]) # es))"
  unfolding within_def
proof (intro allI impI)
  fix c s assume sim: "similar c0 s0 c s"
  let ?c = "c\<lparr>RoutePath := p\<rparr>" and ?next = "run_stack lib es"
  have hdr: "Header ?c = Header c0" using similar_sel(3) [OF sim] by simp
  have "good (RequireAuth j svc timeNow ?next ?c s)"
  proof (cases "\<exists>user. good_bearer sig (au_secret svc) (timeNow s) (Header ?c ''Authorization'') user")
    case True
    then obtain user where
      "RequireAuth j svc timeNow ?next ?c s = ?next (?c\<lparr>Locals := Some \<lparr>Username = user\<rparr>\<rparr>) s"
      using guard_lets_in [OF assms(1), of svc timeNow s ?c] by blast
    then show ?thesis using assms(4) sim by (simp add: within_def)
  next
    case False
    then obtain e where "RequireAuth j svc timeNow ?next ?c s = (Some e, ?c, s)" "as_fiber e = None"
      "Status (AsAppError e) = 401" "ErrorBody (AsAppError e) = ErrorBody ErrUnauthorized"
      using guard_answers [OF assms(1), of svc timeNow s ?c ?next] by blast
    moreover have "\<nexists>user. good_bearer sig (au_secret svc) (Now s) (Header c0 ''Authorization'') user"
      using False hdr by (simp add: timeNow_def)
    ultimately show ?thesis using refused [of ?c s e] sim by simp
  qed
  then show "good (run_stack lib (Use p (chain [RequireAuth j svc timeNow]) # es) c s)"
    using assms(2) similar_sel(2) [OF sim] by simp
qed

lemma task_routes_guard:
  "task_RegisterRoutes v1 b svc [g] = Use (v1 @ ''/tasks'') (chain [g]) # task_RegisterRoutes v1 b svc []"
  by (simp add: task_RegisterRoutes_def Let_def)

text \<open>How a request of the task API can end. A request is refused with 401 only if there was no good
  token at the time the guard looked, which is between its arrival and its answer.\<close>

definition api_fate ::
  "(string \<Rightarrow> string \<Rightarrow> claims \<Rightarrow> string \<Rightarrow> bool) \<Rightarrow> Config \<Rightarrow> (Ctx \<Rightarrow> ('d, 'l) server \<Rightarrow> ('d, 'l) server outcome) \<Rightarrow>
   (Ctx \<Rightarrow> bool) \<Rightarrow> Ctx \<Rightarrow> ('d, 'l) server \<Rightarrow> ('d, 'l) server outcome \<Rightarrow> bool" where
  "api_fate sig cfg h at c s out \<longleftrightarrow>
     fst out = Some (AppErr ErrRateLimited) \<and> Store (snd (snd out)) = Store s \<or>
     AuthEnabled cfg \<and> Store (snd (snd out)) = Store s \<and>
       (\<exists>e. fst out = Some e \<and> as_fiber e = None \<and> Status (AsAppError e) = 401 \<and>
          ErrorBody (AsAppError e) = ErrorBody ErrUnauthorized) \<and>
       (\<exists>t \<ge> Now s. t \<le> Now (snd (snd out)) \<and>
          (\<nexists>user. good_bearer sig (AuthJWTSecret cfg) t (Header c ''Authorization'') user)) \<or>
     (\<exists>c1 s1. similar c s c1 s1 \<and> at c1 \<and> echoes (h c1 s1) out)"

lemma api_fate_closed: "echo_closed (api_fate sig cfg h at c s)"
  unfolding echo_closed_def
proof (intro allI impI)
  fix a b assume echo: "echoes a b" and "api_fate sig cfg h at c s a"
  then have same: "fst b = fst a" "Store (snd (snd b)) = Store (snd (snd a))"
    and now: "Now (snd (snd a)) \<le> Now (snd (snd b))"
    by (simp_all add: echoes_def)
  show "api_fate sig cfg h at c s b"
    using \<open>api_fate sig cfg h at c s a\<close> unfolding api_fate_def same
    by (elim disjE) (blast intro: echoes_trans [OF _ echo] order_trans [OF _ now])+
qed

lemma api_fate_handler: "similar c s c1 s1 \<Longrightarrow> at c1 \<Longrightarrow> api_fate sig cfg h at c s (h c1 s1)"
  unfolding api_fate_def by (intro disjI2 exI conjI) (assumption | rule echoes_refl)+

lemma api_request_fate:
  assumes lib: "libs_passing lib" and "jwt_contract j sig" and req: "requests_op op x c"
  shows "within c s (api_fate sig cfg (on_store (handler_of b (NewRepository db) op))
      (\<lambda>c1. on_item op \<longrightarrow> Params c1 ''id'' = x) c s) (run_stack lib (New lib cfg db ping b j))"
    (is "within c s ?good _")
proof -
  note elsewhere = within_elsewhere [OF lib]
  have tasks: "within c s ?good (run_stack lib (task_RegisterRoutes ''/api/v1'' b (NewRepository db) []))"
    by (rule within_task_routes [OF lib req]) (rule api_fate_handler, auto)
  obtain y where key: "route_key (Path c) = ''/api/v1/tasks'' @ y" using requests_op_key(1) [OF req] by blast
  have use: "lb_use_match lib ''/api/v1/tasks'' (Path c)"
    using req libs_contract.prefix [OF libs_passing.axioms(1) [OF lib], of "''/api/v1/tasks''" "''/''" "Path c"]
      libs_contract.prefix [OF libs_passing.axioms(1) [OF lib], of "''/api/v1/tasks''" "''/:id''" "Path c"]
      libs_passing.route_param [OF lib, of "''/api/v1/tasks''" x]
      libs_passing.route_self [OF lib, of "''/api/v1/tasks/''"] libs_passing.route_noslash [OF lib, of "''/api/v1/tasks''"]
    by (auto simp: requests_op_def split: if_splits)
  have guarded: "within c s ?good (run_stack lib
      (task_RegisterRoutes ''/api/v1'' b (NewRepository db) [RequireAuth j (demo_service cfg) timeNow]))"
    if "AuthEnabled cfg"
    unfolding task_routes_guard append_Cons append_Nil
  proof (rule within_guard [OF assms(2) use _ tasks])
    fix c1 s1 e assume sim: "similar c s c1 s1" and no: "as_fiber e = None" "Status (AsAppError e) = 401"
      "ErrorBody (AsAppError e) = ErrorBody ErrUnauthorized"
      "\<nexists>user. good_bearer sig (au_secret (demo_service cfg :: ('a, 'b) server AuthService)) (Now s1)
        (Header c ''Authorization'') user"
    then show "?good (Some e, c1, s1)"
      using that similar_sel(4,6) [OF sim] by (auto simp: api_fate_def)
  qed
  have login: "within c s ?good (run_stack lib (auth_RegisterRoutes ''/api/v1'' b j svc gs @
      task_RegisterRoutes ''/api/v1'' b (NewRepository db) [RequireAuth j (demo_service cfg) timeNow]))"
    if "AuthEnabled cfg" for svc gs
    unfolding auth_RegisterRoutes_def Let_def append_Cons append_Nil
    using elsewhere [OF _ _ guarded [OF that], of "''/api/v1/auth/login''"] key by simp
  have rest: "within c s ?good (run_stack lib
      (if AuthEnabled cfg
       then auth_RegisterRoutes ''/api/v1'' b j svc gs @
         task_RegisterRoutes ''/api/v1'' b (taskService db) [RequireAuth j (demo_service cfg) timeNow]
       else task_RegisterRoutes ''/api/v1'' b (taskService db) []))" for svc gs
    using tasks login by (simp add: taskService_def)
  have "Method c \<noteq> ''OPTIONS''" using req by (cases op) (simp_all add: requests_op_def)
  note front = within_front [OF lib this api_fate_closed, unfolded append_Cons append_Nil]
  show ?thesis
    unfolding New_def Let_def append_assoc append_Cons append_Nil
    by (rule front [OF _ within_probes [OF lib _ rest]]) (simp_all add: key api_fate_def limit_reached_def)
qed

lemma rate_limited_body: "RespBody (fst (errorHandler (AppErr ErrRateLimited) c s)) = error_env ErrRateLimited"
  by (simp add: errorHandler_def respond_def send_json_def set_status_def error_env_def ErrRateLimited_def Let_def)

lemma errorHandler_body: "RespBody (fst (errorHandler e c s)) = RespBody (fst (errorHandler e c' s'))"
  by (simp add: errorHandler_def respond_def send_json_def set_status_def Let_def split: option.split)

lemma answer_echoes:
  assumes "echoes (h c s) (h' c' s')" and "answer h c s = (c1, s1)" and "answer h' c' s' = (c2, s2)"
  shows "StatusCode c2 = StatusCode c1 \<and> RespBody c2 = RespBody c1 \<and> Store s2 = Store s1"
proof -
  obtain e d t where h: "h c s = (e, d, t)" by (cases "h c s")
  obtain e' d' t' where h': "h' c' s' = (e', d', t')" by (cases "h' c' s'")
  have same: "e' = e" "same_answer d d'" "Store t' = Store t" using assms(1) h h' by (simp_all add: echoes_def)
  show ?thesis
  proof (cases e)
    case None
    then show ?thesis using assms(2,3) h h' same by (auto simp: answer_def same_answer_def)
  next
    case (Some x)
    then have c1: "c1 = fst (errorHandler x d t)" "s1 = snd (errorHandler x d t)"
      using assms(2) h by (simp_all add: answer_def)
    from Some have c2: "c2 = fst (errorHandler x d' t')" "s2 = snd (errorHandler x d' t')"
      using assms(3) h' same(1) by (simp_all add: answer_def)
    show ?thesis
      unfolding c1 c2 by (simp add: same(3) EffectiveStatus_def errorHandler_body [of x d' t' d t])
  qed
qed

lemma task_request_served:
  fixes s :: "('d, 'l) server"
  assumes "libs_passing lib" and "jwt_contract j sig" and "requests_op op x c"
    and "serve lib (New lib cfg db ping b j) c s = (c', s')"
  shows "sends c' 429 (error_env ErrRateLimited) \<and> Store s' = Store s \<or>
    AuthEnabled cfg \<and> sends c' 401 (error_env ErrUnauthorized) \<and> Store s' = Store s \<and>
      (\<exists>t \<ge> Now s. t \<le> Now s' \<and>
         (\<nexists>user. good_bearer sig (AuthJWTSecret cfg) t (Header c ''Authorization'') user)) \<or>
    (\<exists>c1 (s1 :: ('d, 'l) server) c2 s2. same_request c c1 \<and> (on_item op \<longrightarrow> Params c1 ''id'' = x) \<and> Store s1 = Store s \<and>
       run_request b (NewRepository db) (req_of op c1) s1 = (c2, s2) \<and>
       StatusCode c' = StatusCode c2 \<and> RespBody c' = RespBody c2 \<and> Store s' = Store s2)"
proof -
  let ?app = "run_stack lib (New lib cfg db ping b j)"
  obtain e d t where run: "?app c s = (e, d, t)" by (cases "?app c s")
  have fate: "api_fate sig cfg (on_store (handler_of b (NewRepository db) op))
      (\<lambda>c1. on_item op \<longrightarrow> Params c1 ''id'' = x) c s (e, d, t)"
    using api_request_fate [OF assms(1-3), of s cfg b db ping, unfolded within_def] run similar_refl
    by metis
  have final: "answer ?app c s = (c', s')" using assms(4) by (simp add: serve_def)
  have error: "StatusCode c' = EffectiveStatus d (Some y) \<and> Store s' = Store t \<and>
      Now s' = Now t \<and> RespBody c' = RespBody (fst (errorHandler y d t))" if "e = Some y" for y
    using final run that errorHandler_status [of y d t] errorHandler_store [of y d t]
    by (simp add: answer_def)
  show ?thesis
    using fate unfolding api_fate_def
  proof (elim disjE)
    assume "fst (e, d, t) = Some (AppErr ErrRateLimited) \<and> Store (snd (snd (e, d, t))) = Store s"
    then show ?thesis
      using error [of "AppErr ErrRateLimited"] rate_limited_body [of d t] by (simp add: sends_def EffectiveStatus_def ErrRateLimited_def)
  next
    assume expired: "AuthEnabled cfg \<and> Store (snd (snd (e, d, t))) = Store s \<and>
      (\<exists>x. fst (e, d, t) = Some x \<and> as_fiber x = None \<and> Status (AsAppError x) = 401 \<and>
        ErrorBody (AsAppError x) = ErrorBody ErrUnauthorized) \<and>
      (\<exists>u \<ge> Now s. u \<le> Now (snd (snd (e, d, t))) \<and>
        (\<nexists>user. good_bearer sig (AuthJWTSecret cfg) u (Header c ''Authorization'') user))"
    then obtain x where x: "e = Some x" "as_fiber x = None" "Status (AsAppError x) = 401"
      "ErrorBody (AsAppError x) = ErrorBody ErrUnauthorized" by auto
    have "sends c' 401 (error_env ErrUnauthorized)"
      using errorHandler_answers [of "ReqGet d" x d t] error [OF x(1)] x(2-4)
      by (simp add: sends_def EffectiveStatus_def error_env_def)
    then show ?thesis using expired error [OF x(1)] by auto
  next
    assume "\<exists>c1 s1. similar c s c1 s1 \<and> (on_item op \<longrightarrow> Params c1 ''id'' = x) \<and>
      echoes (on_store (handler_of b (NewRepository db) op) c1 s1) (e, d, t)"
    then obtain c1 s1 where one: "similar c s c1 s1" "on_item op \<longrightarrow> Params c1 ''id'' = x"
      "echoes (on_store (handler_of b (NewRepository db) op) c1 s1) (?app c s)"
      using run by auto
    obtain c2 s2 where req: "run_request b (NewRepository db) (req_of op c1) s1 = (c2, s2)" by fastforce
    then have "answer (on_store (handler_of b (NewRepository db) op)) c1 s1 = (c2, s2)"
      by (simp add: run_request_of)
    note same = answer_echoes [of "on_store (handler_of b (NewRepository db) op)" c1 s1 ?app c s,
        OF one(3) this final]
    show ?thesis
      by (intro disjI2 exI [of _ c1] exI [of _ s1] exI [of _ c2] exI [of _ s2])
        (use req same one(1,2) in \<open>simp add: similar_def\<close>)
  qed
qed

text \<open>C3: What the handlers guarantee holds for the app. A request to the task API that goes through the
  whole stack gets the status and the body that its handler gives on the store as it is at that
  time, with the id of the path as its parameter, and leaves the store as the handler leaves it;
  or it is refused and the store is untouched: with 429 \<open>RATE_LIMITED\<close> by the limiter, or, only with
  authentication on and without a token that is good when the guard looks, which is between the
  arrival of the request and its answer, with 401 \<open>UNAUTHORIZED\<close>.\<close>

theorem served_requests_reach_handlers:
  fixes s :: "('d, 'l) server"
  assumes "libs_passing lib" and "jwt_contract j sig" and "requests_op op x c"
    and "serve lib (New lib cfg db ping b j) c s = (c', s')"
  shows "StatusCode c' = 429 \<and> RespBody c' = error_env ErrRateLimited \<and> Store s' = Store s \<or>
    AuthEnabled cfg \<and> StatusCode c' = 401 \<and> RespBody c' = error_env ErrUnauthorized \<and> Store s' = Store s \<and>
      (\<exists>t \<ge> Now s. t \<le> Now s' \<and>
         (\<nexists>user. good_bearer sig (AuthJWTSecret cfg) t (Header c ''Authorization'') user)) \<or>
    (\<exists>c1 (s1 :: ('d, 'l) server) c2 s2. same_request c c1 \<and> (on_item op \<longrightarrow> Params c1 ''id'' = x) \<and> Store s1 = Store s \<and>
       run_request b (NewRepository db) (req_of op c1) s1 = (c2, s2) \<and>
       StatusCode c' = StatusCode c2 \<and> RespBody c' = RespBody c2 \<and> Store s' = Store s2)"
  using task_request_served [OF assms] unfolding sends_def by blast

theorem served_requests_reach_handlers_witness:
  "let out = serve sample_libs (New sample_libs (prod_config\<lparr>AuthEnabled := False\<rparr>) (sample_gorm ''postgres'')
      (\<lambda>s. None) sample_bind sample_jwt) (sample_ctx ''GET'' ''/api/v1/tasks/7'') (sample_server empty_tables)
   in StatusCode (fst out) = 429 \<or>
     (\<exists>c1 (s1 :: (tables, nat) server). Params c1 ''id'' = ''7'' \<and> Store s1 = empty_tables \<and>
        StatusCode (fst out) =
          StatusCode (fst (run_request sample_bind (NewRepository (sample_gorm ''postgres'')) (ReqGet c1) s1)))"
proof -
  let ?c = "sample_ctx ''GET'' ''/api/v1/tasks/7''" and ?s = "sample_server empty_tables"
  let ?out = "serve sample_libs (New sample_libs (prod_config\<lparr>AuthEnabled := False\<rparr>) (sample_gorm ''postgres'')
      (\<lambda>s. None) sample_bind sample_jwt) ?c ?s"
  have out: "?out = (fst ?out, snd ?out)" by simp
  have req: "requests_op OpGet ''7'' ?c"
    by (simp add: requests_op_def on_item_def segment_def sample_ctx_def)
  have item: "on_item OpGet" by (simp add: on_item_def)
  show ?thesis
    using served_requests_reach_handlers [OF sample_libs.libs_passing_axioms
        sample_jwt.jwt_contract_axioms req out] item
    by (auto simp: Let_def sample_server_def) (metis fst_conv)+
qed

end
