(* ===== verification/App_Metrics.thy ===== *)
theory App_Metrics
  imports App_Serve
begin

text \<open>
  The label \<open>route\<close> of both metrics, for all requests to the app: it is one of the patterns the app
  registers, whatever the client asks for.
\<close>

section \<open>The labels of the metrics\<close>

text \<open>The patterns of the app.\<close>

definition app_labels :: "string list" where
  "app_labels =
     [''/'', ''/livez'', ''/readyz'', ''/metrics'', ''/openapi.yaml'', ''/api/v1/auth/login'',
      ''/api/v1/tasks'', ''/api/v1/tasks/'', ''/api/v1/tasks/:id'']"

text \<open>A handler is tame when it leaves the context on a pattern of the app and the counters alone.\<close>

definition tame :: "('d, 'l) server handler \<Rightarrow> bool" where
  "tame h \<longleftrightarrow> (\<forall>c s. RoutePath c \<in> set app_labels \<longrightarrow>
     RoutePath (fst (snd (h c s))) \<in> set app_labels \<and> counters (snd (snd (h c s))) = counters s)"

definition keeps_tame :: "('d, 'l) server middleware \<Rightarrow> bool" where
  "keeps_tame m \<longleftrightarrow> (\<forall>h. tame h \<longrightarrow> tame (m h))"

lemma tame_terminal: "tame h \<Longrightarrow> keeps_tame (terminal h)"
  by (simp add: keeps_tame_def terminal_def)

lemma tame_chain: "\<forall>m \<in> set ms. keeps_tame m \<Longrightarrow> keeps_tame (chain ms)"
  by (induction ms) (simp_all add: keeps_tame_def)

lemma tame_on_store:
  assumes "\<And>c d. RoutePath (fst (snd (h c d))) = RoutePath c"
  shows "tame (on_store h)"
  unfolding tame_def
proof (intro allI impI)
  fix c :: Ctx and s :: "('a, 'b) server" assume "RoutePath c \<in> set app_labels"
  then show "RoutePath (fst (snd (on_store h c s))) \<in> set app_labels \<and>
      counters (snd (snd (on_store h c s))) = counters s"
    using assms [of c "Store s"] by (cases "h c (Store s)") (simp add: on_store_def counters_def)
qed

lemma handlers_keep_route:
  "RoutePath (fst (snd (handler_of b repo op c s))) = RoutePath c"
  by (cases op) (simp_all add: http_defs Let_def split: sum.split prod.split option.split)

lemma tame_task_handlers:
  "tame (on_store (task_Create b repo))" "tame (on_store (task_List repo))" "tame (on_store (task_Get repo))"
  "tame (on_store (task_Update b repo))" "tame (on_store (task_Delete repo))"
  using tame_on_store [of "handler_of b repo op" for op, OF handlers_keep_route]
  by (metis handler_of.simps)+

lemma tame_Login: "tame (auth_Login b j (demo_service cfg))"
proof -
  have "snd (Issue j (demo_service cfg) u p s) = s" for u p and s :: "('a, 'b) server"
    by (simp add: Issue_def Let_def split: sum.split)
  then have "RoutePath (fst (snd (auth_Login b j (demo_service cfg) c s))) = RoutePath c \<and>
      counters (snd (snd (auth_Login b j (demo_service cfg) c s))) = counters s" for c and s :: "('a, 'b) server"
    by (auto simp: auth_Login_def OK_def send_json_def split: sum.split prod.split) (metis snd_conv)+
  then show ?thesis by (simp add: tame_def)
qed

lemma tame_RequestLogger: "keeps_tame RequestLogger"
  unfolding keeps_tame_def tame_def
  by (simp add: RequestLogger_def write_log_def counters_def Let_def split: prod.split) (metis fst_conv snd_conv)

lemma tame_RequireAuth: "keeps_tame (RequireAuth j svc clk)"
  by (auto simp: keeps_tame_def tame_def RequireAuth_def Let_def split: prod.split sum.split)

lemma tame_limiter:
  assumes "libs_passing lib" and "lc_LimitReached lc = limit_reached"
  shows "keeps_tame (lb_limiter lib lc)"
  unfolding keeps_tame_def tame_def
proof (intro allI impI)
  fix h :: "('a, 'b) server handler" and c :: Ctx and s :: "('a, 'b) server"
  assume h: "\<forall>c s. RoutePath c \<in> set app_labels \<longrightarrow>
      RoutePath (fst (snd (h c s))) \<in> set app_labels \<and> counters (snd (snd (h c s))) = counters s"
    and c: "RoutePath c \<in> set app_labels"
  let ?out = "lb_limiter lib lc h c s"
  from libs_passing.pass_limiter [OF assms, of c s] show "RoutePath (fst (snd ?out)) \<in> set app_labels \<and>
      counters (snd (snd ?out)) = counters s"
  proof
    assume "passes observed (lb_limiter lib lc) c s"
    then obtain c1 s1 where "same_ctx c c1" "observed s1 = observed s"
      "same_answer (fst (snd (h c1 s1))) (fst (snd ?out))" "observed (snd (snd ?out)) = observed (snd (snd (h c1 s1)))"
      unfolding passes_def by blast
    then show ?thesis using h c by (simp add: same_ctx_def same_answer_def observed_def counters_def)
  next
    assume "\<exists>s1. observed s1 = observed s \<and> (\<forall>n. lb_limiter lib lc n c s = limit_reached c s1)"
    then show ?thesis using c by (auto simp: limit_reached_def observed_def counters_def)
  qed
qed

fun tame_entry :: "('d, 'l) entry \<Rightarrow> bool" where
  "tame_entry (Use p m) \<longleftrightarrow> p \<in> set app_labels \<and> keeps_tame m"
| "tame_entry (Route mth p m) \<longleftrightarrow> p \<in> set app_labels \<and> keeps_tame m"

lemma tame_stack: "\<forall>e \<in> set es. tame_entry e \<Longrightarrow> tame (run_stack lib es)"
proof (induction es)
  case (Cons e es)
  then have tail: "tame (run_stack lib es)" by simp
  show ?case
  proof (cases e)
    case (Use p m)
    then have "tame (m (run_stack lib es))" "p \<in> set app_labels"
      using Cons.prems tail by (simp_all add: keeps_tame_def)
    with tail Use show ?thesis by (simp add: tame_def)
  next
    case (Route mth p m)
    then have "tame (m (run_stack lib es))" "p \<in> set app_labels"
      using Cons.prems tail by (simp_all add: keeps_tame_def)
    with tail Route show ?thesis by (simp add: tame_def split: option.split)
  qed
qed (simp add: tame_def)

text \<open>Around the metrics, the counters change at labels of the app only.\<close>

definition counts_within :: "('d, 'l) server handler \<Rightarrow> bool" where
  "counts_within h \<longleftrightarrow> (\<forall>c s.
     (\<forall>k. RequestsTotal (snd (snd (h c s))) k \<noteq> RequestsTotal s k \<longrightarrow> fst (snd k) \<in> set app_labels) \<and>
     (\<forall>k. Durations (snd (snd (h c s))) k \<noteq> Durations s k \<longrightarrow> snd k \<in> set app_labels))"

lemma counts_hands_on:
  assumes "hands_on observed m" and "counts_within (run_stack lib es)"
  shows "counts_within (run_stack lib (Use p m # es))"
proof -
  have "counts_within (m (run_stack lib es))"
    unfolding counts_within_def
  proof (intro allI)
    fix c s
    let ?h = "run_stack lib es"
    have "counters (snd (snd (m ?h c s))) = counters s \<or>
        (\<exists>c1 s1. counters s1 = counters s \<and> counters (snd (snd (m ?h c s))) = counters (snd (snd (?h c1 s1))))"
      using hands_on_observed(2) [OF assms(1)] unfolding hands_on_def by blast
    then have "counters (snd (snd (m ?h c s))) = counters s \<or>
        (\<exists>c1 s1. counters s1 = counters s \<and> counters (snd (snd (m ?h c s))) = counters (snd (snd (?h c1 s1))) \<and>
          (\<forall>k. RequestsTotal (snd (snd (?h c1 s1))) k \<noteq> RequestsTotal s1 k \<longrightarrow> fst (snd k) \<in> set app_labels) \<and>
          (\<forall>k. Durations (snd (snd (?h c1 s1))) k \<noteq> Durations s1 k \<longrightarrow> snd k \<in> set app_labels))"
      using assms(2) unfolding counts_within_def by blast
    then show "(\<forall>k. RequestsTotal (snd (snd (m ?h c s))) k \<noteq> RequestsTotal s k \<longrightarrow> fst (snd k) \<in> set app_labels) \<and>
        (\<forall>k. Durations (snd (snd (m ?h c s))) k \<noteq> Durations s k \<longrightarrow> snd k \<in> set app_labels)"
      unfolding counters_def prod.inject by (elim disjE exE conjE; simp del: split_paired_All split_paired_Ex)
  qed
  then show ?thesis using assms(2) by (simp add: counts_within_def)
qed

lemma counts_prom:
  assumes "tame (run_stack lib es)" and "\<And>path. lb_use_match lib ''/'' path"
  shows "counts_within (run_stack lib (Use ''/'' prom_Handler # es))"
proof -
  have "(RequestsTotal s2 k \<noteq> RequestsTotal s k \<longrightarrow> fst (snd k) \<in> set app_labels) \<and>
      (Durations s2 l \<noteq> Durations s l \<longrightarrow> snd l \<in> set app_labels)"
    if "s2 = snd (snd (prom_Handler (run_stack lib es) (c\<lparr>RoutePath := ''/''\<rparr>) s))" for c s k l s2
  proof -
    let ?c = "c\<lparr>RoutePath := ''/''\<rparr>"
    obtain e c' s' where run: "run_stack lib es ?c s = (e, c', s')" by (cases "run_stack lib es ?c s")
    have "''/'' \<in> set app_labels" "[] \<notin> set app_labels" by (simp_all add: app_labels_def)
    moreover from this have "RoutePath c' \<in> set app_labels \<and> counters s' = counters s"
      using assms(1) [unfolded tame_def, rule_format, of ?c s] run by simp
    ultimately have after: "RequestsTotal s' = RequestsTotal s" "Durations s' = Durations s"
      "route_label c' \<in> set app_labels"
      by (auto simp: counters_def route_label_def Let_def)
    then show ?thesis
      using that run by (auto simp: prom_Handler_def Let_def)
  qed
  then show ?thesis using assms(2) by (simp add: counts_within_def)
qed

lemma tame_probes:
  "tame (Livez h)" "tame (Readyz h)" "tame (openapiSpecHandler f)"
  "libs_contract lib \<Longrightarrow> tame (lb_metrics lib)"
  using libs_contract.metrics [of lib] libs_contract.metrics_route [of lib]
  by (simp_all add: tame_def Livez_def Readyz_def openapiSpecHandler_def send_json_def set_status_def observed_def counters_def
      split: option.split sum.split)

lemma tame_rest:
  assumes "libs_passing lib"
  shows "tame (run_stack lib (Use ''/'' RequestLogger # Route ''GET'' ''/livez'' (terminal (Livez h)) #
    Route ''GET'' ''/readyz'' (terminal (Readyz h)) # Route ''GET'' ''/metrics'' (terminal (lb_metrics lib)) #
    Route ''GET'' ''/openapi.yaml'' (terminal (openapiSpecHandler f)) #
    (if AuthEnabled cfg
     then auth_RegisterRoutes ''/api/v1'' b j (demo_service cfg) [lb_limiter lib \<lparr>lc_Max = n,
            lc_Expiration = d, lc_LimitReached = limit_reached, lc_Next = None\<rparr>] @
          task_RegisterRoutes ''/api/v1'' b svc [RequireAuth j (demo_service cfg) clk]
     else task_RegisterRoutes ''/api/v1'' b svc [])))"
proof (rule tame_stack)
  note parts = tame_terminal tame_chain tame_RequestLogger tame_RequireAuth tame_Login tame_task_handlers
    tame_limiter [OF assms] tame_probes libs_passing.axioms(1) [OF assms]
  show "\<forall>e \<in> set (Use ''/'' RequestLogger # Route ''GET'' ''/livez'' (terminal (Livez h)) #
    Route ''GET'' ''/readyz'' (terminal (Readyz h)) # Route ''GET'' ''/metrics'' (terminal (lb_metrics lib)) #
    Route ''GET'' ''/openapi.yaml'' (terminal (openapiSpecHandler f)) #
    (if AuthEnabled cfg
     then auth_RegisterRoutes ''/api/v1'' b j (demo_service cfg) [lb_limiter lib \<lparr>lc_Max = n,
            lc_Expiration = d, lc_LimitReached = limit_reached, lc_Next = None\<rparr>] @
          task_RegisterRoutes ''/api/v1'' b svc [RequireAuth j (demo_service cfg) clk]
     else task_RegisterRoutes ''/api/v1'' b svc [])). tame_entry e"
    by (simp add: auth_RegisterRoutes_def task_RegisterRoutes_def app_labels_def parts del: chain.simps)
qed

lemma answer_counts: "RequestsTotal (snd (answer h c s)) = RequestsTotal (snd (snd (h c s)))"
  "Durations (snd (answer h c s)) = Durations (snd (snd (h c s)))"
  by (simp_all add: answer_def split: prod.split option.split)

text \<open>C24: The metrics cannot be flooded with labels. Whatever requests come in, with any method, path and
  headers, a request changes \<open>http_requests_total\<close> and \<open>http_request_duration_seconds\<close> only at series
  whose route is one of the nine patterns of the app; in particular, ids and paths that match nothing
  never become labels.\<close>

theorem metrics_routes_are_bounded:
  assumes "libs_passing lib" and "serve lib (New lib cfg db ping b j) c s = (c', s')"
  shows "(RequestsTotal s' k \<noteq> RequestsTotal s k \<longrightarrow> fst (snd k) \<in> set app_labels) \<and>
    (Durations s' l \<noteq> Durations s l \<longrightarrow> snd l \<in> set app_labels)"
proof -
  note contract = libs_passing.axioms(1) [OF assms(1)]
  note outer = libs_contract.requestid [OF contract] libs_contract.recover [OF contract]
    libs_contract.helmet [OF contract] libs_contract.cors [OF contract] libs_contract.limiter [OF contract]
  have "counts_within (run_stack lib (New lib cfg db ping b j))"
    unfolding New_def Let_def append_assoc append_Cons append_Nil
    by (intro counts_hands_on outer counts_prom tame_rest [OF assms(1)] libs_passing.use_all [OF assms(1)]) simp
  moreover have "RequestsTotal s' = RequestsTotal (snd (snd (run_stack lib (New lib cfg db ping b j) c s)))"
    "Durations s' = Durations (snd (snd (run_stack lib (New lib cfg db ping b j) c s)))"
    using assms(2) answer_counts [of "run_stack lib (New lib cfg db ping b j)" c s] by (simp_all add: serve_def)
  ultimately show ?thesis unfolding counts_within_def by metis
qed

theorem metrics_routes_are_bounded_witness:
  "\<exists>k l. let s' = snd (serve sample_libs (New sample_libs prod_config (sample_gorm ''postgres'')
      (\<lambda>s. None) sample_bind sample_jwt) (sample_ctx ''GET'' ''/wp-login.php'') (sample_server empty_tables))
    in RequestsTotal s' k = 1 \<and> fst (snd k) \<in> set app_labels \<and>
      Durations s' l = [0] \<and> snd l \<in> set app_labels"
proof -
  let ?c = "sample_ctx ''GET'' ''/wp-login.php''" and ?s = "sample_server empty_tables"
  let ?out = "serve sample_libs (New sample_libs prod_config (sample_gorm ''postgres'')
      (\<lambda>s. None) sample_bind sample_jwt) ?c ?s"
  let ?k = "(''GET'', ''/'', Itoa 404)"
  have out: "?out = (fst ?out, snd ?out)" by simp
  have miss: "sample_route_match p ''/wp-login.php'' = None"
    if "p \<in> {''/livez'', ''/readyz'', ''/metrics'', ''/openapi.yaml'', ''/api/v1/auth/login'', ''/api/v1/tasks/'',
      ''/api/v1/tasks/:id''}" for p
    using that by (auto simp: sample_route_match_def fixed_part_def route_key_def lower_byte_def HasPrefix_def)
  have use: "sample_use_match ''/'' ''/wp-login.php''" "\<not> sample_use_match ''/api/v1/tasks'' ''/wp-login.php''"
    by (simp_all add: sample_use_match_def route_key_def lower_byte_def HasPrefix_def)
  let ?l = "(''GET'', ''/'')"
  have "RequestsTotal (snd ?out) ?k = 1 \<and> Durations (snd ?out) ?l = [0]"
    by (simp add: serve_def answer_def New_def Let_def sample_libs_def sample_ctx_def sample_server_def prod_config_def
        use miss sample_limiter_def skipRateLimit_def limiterSkipPaths_def prom_Handler_def RequestLogger_def write_log_def
        auth_RegisterRoutes_def task_RegisterRoutes_def EffectiveStatus_def route_label_def timeSince_def timeNow_def split: option.split prod.split)
  moreover have "RequestsTotal ?s ?k = 0" "Durations ?s ?l = []" by (simp_all add: sample_server_def)
  ultimately show ?thesis
    unfolding Let_def using metrics_routes_are_bounded [OF sample_libs.libs_passing_axioms out, of ?k ?l]
    by (intro exI [of _ ?k] exI [of _ ?l]) simp
qed

end
