(* ===== verification/Wire.thy ===== *)
theory Wire
  imports Task_Spec
begin

text \<open>
  The JSON of the API, as \<open>encoding/json\<close> makes it of the struct tags in \<open>dto.go\<close>,
  \<open>httpx/response.go\<close>, \<open>pagination.go\<close>, \<open>apperror/errors.go\<close> and \<open>auth/handler.go\<close>: encoding of
  the responses, with the fields that \<open>omitempty\<close> drops, and decoding of the body of a
  \<open>PATCH\<close>, field by field in the order of the text. The text form of times and of string
  literals is a parameter.
\<close>

section \<open>Encoding\<close>

text \<open>A field with \<open>omitempty\<close>.\<close>

definition unless_empty :: "string \<Rightarrow> json option \<Rightarrow> (string \<times> json) list" where
  "unless_empty k v = (case v of None \<Rightarrow> [] | Some j \<Rightarrow> [(k, j)])"

definition marshal_Detail :: "Detail \<Rightarrow> json" where
  "marshal_Detail d = JObj [(''field'', JStr (Field d)), (''reason'', JStr (Reason d))]"

definition marshal_Response :: "(gotime \<Rightarrow> string) \<Rightarrow> Response \<Rightarrow> json" where
  "marshal_Response tm r =
     JObj ([(''id'', JNum (uint (ID_r r))), (''title'', JStr (Title_r r)), (''done'', JBool (Done_r r))] @
       unless_empty ''due_date'' (map_option (\<lambda>t. JStr (tm t)) (DueDate_r r)) @
       [(''created_at'', JStr (tm (CreatedAt_r r))), (''updated_at'', JStr (tm (UpdatedAt_r r)))])"

definition marshal_LoginResponse :: "(gotime \<Rightarrow> string) \<Rightarrow> LoginResponse \<Rightarrow> json" where
  "marshal_LoginResponse tm r =
     JObj [(''token'', JStr (Token r)), (''token_type'', JStr (TokenType r)),
           (''expires_at'', JStr (tm (ExpiresAt r)))]"

definition marshal_PageMeta :: "PageMeta \<Rightarrow> json" where
  "marshal_PageMeta m =
     JObj [(''page'', JNum (sint (mt_Page m))), (''limit'', JNum (sint (mt_Limit m))),
           (''total_count'', JNum (sint (TotalCount m))), (''total_pages'', JNum (sint (TotalPages m)))]"

fun marshal_payload :: "(gotime \<Rightarrow> string) \<Rightarrow> payload \<Rightarrow> json" where
  "marshal_payload tm (TaskData r) = marshal_Response tm r"
| "marshal_payload tm (TaskList rs) = JArr (map (marshal_Response tm) rs)"
| "marshal_payload tm (LoginData r) = marshal_LoginResponse tm r"

definition marshal_Error :: "ErrorInfo \<Rightarrow> json" where
  "marshal_Error e =
     JObj ([(''code'', JStr (ei_Code e)), (''message'', JStr (ei_Message e))] @
       unless_empty ''details''
         (if ei_Details e = [] then None else Some (JArr (map marshal_Detail (ei_Details e)))))"

definition marshal_Envelope :: "(gotime \<Rightarrow> string) \<Rightarrow> Envelope \<Rightarrow> json" where
  "marshal_Envelope tm env =
     JObj ([(''success'', JBool (Success env))] @
       unless_empty ''data'' (map_option (marshal_payload tm) (Data env)) @
       unless_empty ''error'' (map_option marshal_Error (Error_env env)) @
       unless_empty ''meta'' (map_option marshal_PageMeta (Meta env)))"

section \<open>The shape of the answers\<close>

text \<open>
  What a client can rely on: a status below 400 comes with \<open>success\<close> true and \<open>data\<close>, maybe
  \<open>meta\<close>, and no \<open>error\<close>; from 400 on it is \<open>success\<close> false and \<open>error\<close> with code and message, maybe
  \<open>details\<close>, and no \<open>data\<close>.
\<close>

definition envelope_shape :: "int \<Rightarrow> json \<Rightarrow> bool" where
  "envelope_shape n j \<longleftrightarrow>
     (if n < 400
      then \<exists>d m. j = JObj ([(''success'', JBool True), (''data'', d)] @ unless_empty ''meta'' m)
      else \<exists>code msg ds. j = JObj [(''success'', JBool False),
             (''error'', JObj ([(''code'', JStr code), (''message'', JStr msg)] @ unless_empty ''details'' ds))])"

lemma data_shape:
  "n < 400 \<Longrightarrow> envelope_shape n (marshal_Envelope tm \<lparr>Success = True, Data = Some d, Error_env = None, Meta = m\<rparr>)"
  by (auto simp: envelope_shape_def marshal_Envelope_def unless_empty_def split: option.split)

lemma error_shape: "400 \<le> n \<Longrightarrow> envelope_shape n (marshal_Envelope tm (ErrorBody e))"
  by (auto simp: envelope_shape_def marshal_Envelope_def ErrorBody_def marshal_Error_def
      unless_empty_def [of "''data''"] unless_empty_def [of "''error''"] unless_empty_def [of "''meta''"])

definition well_shaped :: "(gotime \<Rightarrow> string) \<Rightarrow> Ctx \<Rightarrow> bool" where
  "well_shaped tm c \<longleftrightarrow>
     StatusCode c = 204 \<and> RespBody c = EmptyBody \<or>
     (\<exists>env. RespBody c = JSONEnvelope env \<and> envelope_shape (StatusCode c) (marshal_Envelope tm env))"

lemma well_shaped_data: "sends c n (data_env d m) \<Longrightarrow> n < 400 \<Longrightarrow> well_shaped tm c"
  by (simp add: well_shaped_def sends_def data_env_def data_shape)

lemma well_shaped_error: "sends c n (error_env e) \<Longrightarrow> 400 \<le> n \<Longrightarrow> well_shaped tm c"
  by (simp add: well_shaped_def sends_def error_env_def error_shape)

lemma answers_shaped:
  assumes "answers r reply c" and "StatusCode (req_ctx r) = 200" and "\<nexists>e. reply = Failed e"
  shows "well_shaped tm c"
  using assms
  by (cases "(r, reply, c)" rule: answers.cases)
    (simp_all add: well_shaped_data [of c 200] well_shaped_data [of c 201], simp add: well_shaped_def sends_def)

lemma errorHandler_shaped:
  assumes "400 \<le> EffectiveStatus c (Some e)"
  shows "well_shaped tm (fst (errorHandler e c s))"
proof -
  have "\<exists>a. RespBody (fst (errorHandler e c s)) = error_env a"
    by (auto simp: errorHandler_def respond_def send_json_def set_status_def error_env_def Let_def
        split: option.split)
  then show ?thesis
    using well_shaped_error [of "fst (errorHandler e c s)"] errorHandler_status [of e c s] assms
    by (auto simp: sends_def)
qed

lemma refusal_at_least_400:
  assumes "call_of b r = Inl e"
    and "\<And>c e n m. b_create b c = Inl e \<Longrightarrow> as_fiber e = Some (n, m) \<Longrightarrow> 400 \<le> n"
    and "\<And>c e n m. b_update b c = Inl e \<Longrightarrow> as_fiber e = Some (n, m) \<Longrightarrow> 400 \<le> n"
  shows "400 \<le> EffectiveStatus c (Some e)"
proof -
  define good where "good x \<longleftrightarrow> 400 \<le> EffectiveStatus c (Some x)" for x
  have bind: "good (AppErr (BindErrorToAppError x))" if "\<And>n m. as_fiber x = Some (n, m) \<Longrightarrow> 400 \<le> n" for x
    using that by (cases "as_valerrs x"; cases "as_fiber x")
      (auto simp: good_def EffectiveStatus_def BindErrorToAppError_def NewBadRequest_def NewValidation_def)
  have parse: "good x" if "parseID raw = Inl x" for raw x
    using that by (auto simp: good_def EffectiveStatus_def parseID_def NewBadRequest_def split: sum.splits if_splits)
  have "good e"
    using assms(1) by (cases r) (auto split: sum.splits intro: bind parse assms(2,3))
  then show ?thesis by (simp add: good_def)
qed

text \<open>C19: Every answer of the task API has the shape the clients rely on. Whatever the request holds and
  however the database fails, as long as the errors that fiber returns from binding have an error
  status, the answer is an empty 204, or a JSON object whose members depend on the status as
  \<open>envelope_shape\<close> says: success and data below 400, no success and an error from 400 on.\<close>

theorem answers_are_well_shaped:
  assumes "gorm_contract db rows ok col" and "ok (Store s)" and "StatusCode (req_ctx r) = 200"
    and "\<And>c e n m. b_create b c = Inl e \<Longrightarrow> as_fiber e = Some (n, m) \<Longrightarrow> 400 \<le> n"
    and "\<And>c e n m. b_update b c = Inl e \<Longrightarrow> as_fiber e = Some (n, m) \<Longrightarrow> 400 \<le> n"
    and "run_request b (NewRepository db) r s = (c', s')"
  shows "well_shaped tm c'"
proof (cases "call_of b r")
  case (Inl e)
  have "c' = fst (errorHandler e (req_ctx r) s)"
    using run_request_refused [OF Inl, of "NewRepository db" s] assms(6) by (metis fst_conv)
  moreover have "400 \<le> EffectiveStatus (req_ctx r) (Some e)"
    by (rule refusal_at_least_400 [OF Inl]) (use assms(4,5) in blast)+
  ultimately show ?thesis by (simp add: errorHandler_shaped)
next
  case (Inr cl)
  obtain reply where ans: "answers r reply c'"
    and spec: "task_spec col (rows (Store s)) cl reply (rows (Store s'))"
    by (rule api_step [OF assms(1,2) Inr assms(6)])
  show ?thesis
  proof (cases "\<exists>e. reply = Failed e")
    case True
    then obtain e where e: "reply = Failed e" by blast
    with spec have "foreign e \<or> as_fiber e = None \<and> as_app e = Some ErrTaskNotFound"
      by (auto elim: task_spec.cases)
    then have "internal_error c' \<or> task_not_found c'"
      using ans fault_answer missing_answer unfolding e by blast
    then show ?thesis by (elim disjE) (erule well_shaped_error, simp)+
  next
    case False
    then show ?thesis by (rule answers_shaped [OF ans assms(3)])
  qed
qed

theorem answers_are_well_shaped_witness:
  "\<exists>c' s'. run_request sample_bind (NewRepository (sample_gorm ''postgres'')) (ReqGet (id_ctx ''7'' []))
      (sample_server one_task) = (c', s') \<and> well_shaped (\<lambda>t. ''2026-01-01T00:00:00Z'') c'"
proof -
  obtain c' s' where run: "run_request sample_bind (NewRepository (sample_gorm ''postgres''))
      (ReqGet (id_ctx ''7'' [])) (sample_server one_task) = (c', s')" by fastforce
  have inv: "tables_inv (Store (sample_server one_task))" using sample_inv by simp
  have binds: "b_create sample_bind c = Inl e \<Longrightarrow> as_fiber e = Some (n, m) \<Longrightarrow> 400 \<le> n"
    "b_update sample_bind c = Inl e \<Longrightarrow> as_fiber e = Some (n, m) \<Longrightarrow> 400 \<le> n" for c e n m
    by (auto simp: sample_bind_def split: if_splits)
  have "well_shaped (\<lambda>t. ''2026-01-01T00:00:00Z'') c'"
    by (rule answers_are_well_shaped [OF sample.gorm_contract_axioms inv _ _ _ run])
      (use binds in \<open>simp | blast\<close>)+
  then show ?thesis using run by blast
qed

section \<open>Decoding a patch\<close>

text \<open>
  A body as the scanner of \<open>encoding/json\<close> hands it on: \<open>null\<close>, an object with the names and the
  raw text of its members in order, or another value. \<open>jt_string\<close> reads a string literal (\<open>None\<close>
  for text that is none), \<open>jt_time\<close> is \<open>json.Unmarshal\<close> into a \<open>time.Time\<close>.
\<close>

datatype json_body = BodyNull | BodyObj "(string \<times> string) list" | BodyOther

record json_text =
  jt_string :: "string \<Rightarrow> string option"
  jt_time :: "string \<Rightarrow> goerr + gotime"

text \<open>
  A member belongs to the field whose name, in lower case, is its own up to Unicode case folding.
  Of the letters beyond ASCII only the long s and the Kelvin sign fold to ASCII.
\<close>

fun fold_key :: "string \<Rightarrow> string" where
  "fold_key [] = []"
| "fold_key (c # s) =
     (if HasPrefix (c # s) [CHR 0xC5, CHR 0xBF] then CHR ''s'' # fold_key (drop 1 s)
      else if HasPrefix (c # s) [CHR 0xE2, CHR 0x84, CHR 0xAA] then CHR ''k'' # fold_key (drop 2 s)
      else lower_byte c # fold_key s)"

definition field_is :: "string \<Rightarrow> string \<Rightarrow> bool" where
  "field_is name key \<longleftrightarrow> fold_key key = name"

text \<open>A value of the wrong type: the first such error is kept, and decoding goes on.\<close>

definition type_error :: "string \<Rightarrow> goerr option \<Rightarrow> goerr option" where
  "type_error name saved =
     (case saved of Some e \<Rightarrow> Some e
      | None \<Rightarrow> Some (OpaqueErr (''json: cannot unmarshal into Go struct field '' @ name)))"

fun unmarshal_members ::
  "json_text \<Rightarrow> (string \<times> string) list \<Rightarrow> goerr option \<Rightarrow> UpdateRequest \<Rightarrow> goerr option \<times> UpdateRequest" where
  "unmarshal_members jt [] saved req = (saved, req)"
| "unmarshal_members jt ((key, raw) # kvs) saved req =
     (if field_is ''title'' key then
        (if raw = ''null'' then unmarshal_members jt kvs saved (req\<lparr>Title_u := None\<rparr>)
         else case jt_string jt raw of
                Some x \<Rightarrow> unmarshal_members jt kvs saved (req\<lparr>Title_u := Some x\<rparr>)
              | None \<Rightarrow> unmarshal_members jt kvs (type_error ''title'' saved) req)
      else if field_is ''done'' key then
        (if raw = ''null'' then unmarshal_members jt kvs saved (req\<lparr>Done_u := None\<rparr>)
         else if raw \<in> {''true'', ''false''}
         then unmarshal_members jt kvs saved (req\<lparr>Done_u := Some (raw = ''true'')\<rparr>)
         else unmarshal_members jt kvs (type_error ''done'' saved) req)
      else if field_is ''due_date'' key then
        (case UnmarshalJSON (jt_time jt) raw (DueDate_u req) of
           (Some e, n) \<Rightarrow> (Some e, req\<lparr>DueDate_u := n\<rparr>)
         | (None, n) \<Rightarrow> unmarshal_members jt kvs saved (req\<lparr>DueDate_u := n\<rparr>))
      else unmarshal_members jt kvs saved req)"

definition zero_UpdateRequest :: UpdateRequest where
  "zero_UpdateRequest = \<lparr>Title_u = None, Done_u = None, DueDate_u = zero_NullableTime\<rparr>"

text \<open>A whole body, for a type with zero value \<open>z\<close>.\<close>

definition decode_with ::
  "((string \<times> string) list \<Rightarrow> goerr option \<Rightarrow> 'r \<Rightarrow> goerr option \<times> 'r) \<Rightarrow> string \<Rightarrow> 'r \<Rightarrow> json_body \<Rightarrow> goerr + 'r" where
  "decode_with members type_name z body =
     (case body of
        BodyNull \<Rightarrow> Inr z
      | BodyOther \<Rightarrow> Inl (OpaqueErr (''json: cannot unmarshal into Go value of type '' @ type_name))
      | BodyObj kvs \<Rightarrow> (case members kvs None z of (Some e, req) \<Rightarrow> Inl e | (None, req) \<Rightarrow> Inr req))"

definition decode_Update :: "json_text \<Rightarrow> json_body \<Rightarrow> goerr + UpdateRequest" where
  "decode_Update jt = decode_with (unmarshal_members jt) ''task.UpdateRequest'' zero_UpdateRequest"

lemma decode_with_Inr:
  "decode_with members tn z (BodyObj kvs) = Inr req \<longleftrightarrow> members kvs None z = (None, req)"
  by (auto simp: decode_with_def split: prod.split option.split)

text \<open>The raw values a body gives for a field, in order.\<close>

definition given :: "string \<Rightarrow> (string \<times> string) list \<Rightarrow> string list" where
  "given name kvs = map snd (filter (\<lambda>(key, raw). field_is name key) kvs)"

lemma field_names [simp]:
  "field_is ''title'' key \<Longrightarrow> \<not> field_is ''done'' key" "field_is ''title'' key \<Longrightarrow> \<not> field_is ''due_date'' key"
  "field_is ''done'' key \<Longrightarrow> \<not> field_is ''due_date'' key"
  by (auto simp: field_is_def)

lemma given_Cons [simp]:
  "given name [] = []"
  "given name ((key, raw) # kvs) = (if field_is name key then raw # given name kvs else given name kvs)"
  by (simp_all add: given_def)

lemma type_error_not_None [simp]: "type_error name saved \<noteq> None"
  by (simp add: type_error_def split: option.split)

lemma saved_error_stays:
  "saved \<noteq> None \<Longrightarrow> fst (unmarshal_members jt kvs saved req) \<noteq> None"
  by (induction jt kvs saved req rule: unmarshal_members.induct) (simp_all split: option.split prod.split)

lemma unmarshal_title:
  assumes "unmarshal_members jt kvs None req = (None, req')"
  shows "if given ''title'' kvs = [] then Title_u req' = Title_u req
    else if last (given ''title'' kvs) = ''null'' then Title_u req' = None
    else \<exists>x. jt_string jt (last (given ''title'' kvs)) = Some x \<and> Title_u req' = Some x"
  using assms
proof (induction kvs arbitrary: req)
  case (Cons kv kvs)
  obtain key raw where kv: "kv = (key, raw)" by fastforce
  have no: "unmarshal_members jt kvs (type_error name None) r = (None, req') \<Longrightarrow> False" for name r
    using saved_error_stays [of "type_error name None" jt kvs r] by simp
  show ?case
    using Cons.prems Cons.IH unfolding kv
    by (auto split: if_splits option.splits prod.splits dest: no)
qed simp

lemma unmarshal_done:
  assumes "unmarshal_members jt kvs None req = (None, req')"
  shows "if given ''done'' kvs = [] then Done_u req' = Done_u req
    else if last (given ''done'' kvs) = ''null'' then Done_u req' = None
    else last (given ''done'' kvs) \<in> {''true'', ''false''} \<and>
      Done_u req' = Some (last (given ''done'' kvs) = ''true'')"
  using assms
proof (induction kvs arbitrary: req)
  case (Cons kv kvs)
  obtain key raw where kv: "kv = (key, raw)" by fastforce
  have no: "unmarshal_members jt kvs (type_error name None) r = (None, req') \<Longrightarrow> False" for name r
    using saved_error_stays [of "type_error name None" jt kvs r] by simp
  show ?case
    using Cons.prems Cons.IH unfolding kv
    by (auto split: if_splits option.splits prod.splits dest: no)
qed simp

lemma unmarshal_due:
  assumes "unmarshal_members jt kvs None req = (None, req')"
  shows "(Set_n (DueDate_u req') \<longleftrightarrow> Set_n (DueDate_u req) \<or> given ''due_date'' kvs \<noteq> []) \<and>
    (Null_n (DueDate_u req') \<longleftrightarrow> Null_n (DueDate_u req) \<or> ''null'' \<in> set (given ''due_date'' kvs)) \<and>
    (given ''due_date'' kvs \<noteq> [] \<longrightarrow> last (given ''due_date'' kvs) \<noteq> ''null'' \<longrightarrow>
       jt_time jt (last (given ''due_date'' kvs)) = Inr (Value_n (DueDate_u req'))) \<and>
    (given ''due_date'' kvs = [] \<longrightarrow> DueDate_u req' = DueDate_u req)"
  using assms
proof (induction kvs arbitrary: req)
  case (Cons kv kvs)
  obtain key raw where kv: "kv = (key, raw)" by fastforce
  have no: "unmarshal_members jt kvs (type_error name None) r = (None, req') \<Longrightarrow> False" for name r
    using saved_error_stays [of "type_error name None" jt kvs r] by simp
  show ?case
  proof (cases "field_is ''due_date'' key")
    case False
    then show ?thesis
      using Cons.prems Cons.IH unfolding kv
      by (auto split: if_splits option.splits dest: no)
  next
    case True
    then have other: "\<not> field_is ''title'' key" "\<not> field_is ''done'' key"
      by (auto simp: field_is_def)
    obtain e n where n: "UnmarshalJSON (jt_time jt) raw (DueDate_u req) = (e, n)" by fastforce
    with Cons.prems True other have rest: "unmarshal_members jt kvs None (req\<lparr>DueDate_u := n\<rparr>) = (None, req')"
      and "e = None" unfolding kv by (auto split: option.splits)
    then have "Set_n n" "Null_n n \<longleftrightarrow> Null_n (DueDate_u req) \<or> raw = ''null''"
      "raw \<noteq> ''null'' \<longrightarrow> jt_time jt raw = Inr (Value_n n)"
      using n by (auto simp: UnmarshalJSON_def Let_def split: if_splits sum.splits)
    then show ?thesis using Cons.IH [OF rest] True unfolding kv by auto
  qed
qed simp

text \<open>C16: What a patch says in JSON is what happens to the row. When a body decodes, the update it causes
  sets title and done to the last value given for them and leaves them when nothing or \<open>null\<close> is
  given; the due date is left when it is not given, cleared when one of the values given is
  \<open>null\<close>, and else set to the last one. Names count up to the case of letters, unknown members do
  not count.\<close>

theorem patch_body_semantics:
  assumes "decode_Update jt (BodyObj kvs) = Inr req"
  shows "(if given ''title'' kvs = [] \<or> last (given ''title'' kvs) = ''null'' then Title (mutate req t) = Title t
      else jt_string jt (last (given ''title'' kvs)) = Some (Title (mutate req t))) \<and>
    (if given ''done'' kvs = [] \<or> last (given ''done'' kvs) = ''null'' then Done (mutate req t) = Done t
      else last (given ''done'' kvs) = (if Done (mutate req t) then ''true'' else ''false'')) \<and>
    (if given ''due_date'' kvs = [] then DueDate (mutate req t) = DueDate t
      else if ''null'' \<in> set (given ''due_date'' kvs) then DueDate (mutate req t) = None
      else \<exists>v. jt_time jt (last (given ''due_date'' kvs)) = Inr v \<and> DueDate (mutate req t) = Some v)"
proof -
  have run: "unmarshal_members jt kvs None zero_UpdateRequest = (None, req)"
    using assms by (simp add: decode_Update_def decode_with_Inr)
  have "last raws = ''null'' \<Longrightarrow> raws \<noteq> [] \<Longrightarrow> ''null'' \<in> set raws" for raws :: "string list"
    by (metis last_in_set)
  then show ?thesis
    using unmarshal_title [OF run] unmarshal_done [OF run] unmarshal_due [OF run]
    by (auto simp: zero_UpdateRequest_def zero_NullableTime_def split: if_splits)
qed

theorem patch_body_semantics_witness:
  "\<exists>req. decode_Update \<lparr>jt_string = (\<lambda>r. Some r), jt_time = (\<lambda>r. Inr 5)\<rparr>
       (BodyObj [(''Title'', ''milk''), (''due_date'', ''null''), (''due_date'', ''x'')]) = Inr req \<and>
     Title (mutate req zero_Task) = ''milk'' \<and> DueDate (mutate req zero_Task) = None"
proof -
  let ?jt = "\<lparr>jt_string = (\<lambda>r. Some r), jt_time = (\<lambda>r. Inr 5)\<rparr> :: json_text"
  let ?kvs = "[(''Title'', ''milk''), (''due_date'', ''null''), (''due_date'', ''x'')]"
  have names: "field_is ''title'' ''Title''" "\<not> field_is ''title'' ''due_date''" "\<not> field_is ''done'' ''due_date''"
    "field_is ''due_date'' ''due_date''" "\<not> field_is ''due_date'' ''Title''"
    by code_simp+
  obtain req where req: "decode_Update ?jt (BodyObj ?kvs) = Inr req"
    by (simp add: decode_Update_def decode_with_Inr names UnmarshalJSON_def Let_def zero_UpdateRequest_def)
  have given: "given ''title'' ?kvs = [''milk'']" "given ''due_date'' ?kvs = [''null'', ''x'']"
    by (simp_all add: names)
  show ?thesis
    using patch_body_semantics [OF req, of zero_Task, unfolded given] req by auto
qed

end
