(* ===== verification/Binding.thy ===== *)
theory Binding
  imports Wire
begin

text \<open>
  \<open>c.Bind().Body(&req)\<close> for the three request types: the body is decoded by the JSON tags of the
  type and handed to the \<open>StructValidator\<close> of \<open>internal/validator/validator.go\<close>, which runs the
  \<open>validate\<close> tags. Fiber's reading of the body and the validation library are parameters; what the
  tags ask of a request is \<open>violations\<close>. The record of bindings that the handlers take is
  \<open>json_bind\<close>, which keeps \<open>bind_contract\<close>.
\<close>

section \<open>Decoding\<close>

text \<open>
  The fields of \<open>CreateRequest\<close>. A \<open>null\<close> leaves a string as it is and clears a pointer; the
  first value of the wrong type is reported at the end, an error of the time at once.
\<close>

fun unmarshal_create ::
  "json_text \<Rightarrow> (string \<times> string) list \<Rightarrow> goerr option \<Rightarrow> CreateRequest \<Rightarrow> goerr option \<times> CreateRequest" where
  "unmarshal_create jt [] saved req = (saved, req)"
| "unmarshal_create jt ((key, raw) # kvs) saved req =
     (if field_is ''title'' key then
        (if raw = ''null'' then unmarshal_create jt kvs saved req
         else case jt_string jt raw of
                Some x \<Rightarrow> unmarshal_create jt kvs saved (req\<lparr>Title_c := x\<rparr>)
              | None \<Rightarrow> unmarshal_create jt kvs (type_error ''title'' saved) req)
      else if field_is ''due_date'' key then
        (if raw = ''null'' then unmarshal_create jt kvs saved (req\<lparr>DueDate_c := None\<rparr>)
         else case jt_time jt raw of
                Inl e \<Rightarrow> (Some e, req)
              | Inr v \<Rightarrow> unmarshal_create jt kvs saved (req\<lparr>DueDate_c := Some v\<rparr>))
      else unmarshal_create jt kvs saved req)"

fun unmarshal_login ::
  "json_text \<Rightarrow> (string \<times> string) list \<Rightarrow> goerr option \<Rightarrow> LoginRequest \<Rightarrow> goerr option \<times> LoginRequest" where
  "unmarshal_login jt [] saved req = (saved, req)"
| "unmarshal_login jt ((key, raw) # kvs) saved req =
     (if field_is ''username'' key then
        (if raw = ''null'' then unmarshal_login jt kvs saved req
         else case jt_string jt raw of
                Some x \<Rightarrow> unmarshal_login jt kvs saved (req\<lparr>Username_l := x\<rparr>)
              | None \<Rightarrow> unmarshal_login jt kvs (type_error ''username'' saved) req)
      else if field_is ''password'' key then
        (if raw = ''null'' then unmarshal_login jt kvs saved req
         else case jt_string jt raw of
                Some x \<Rightarrow> unmarshal_login jt kvs saved (req\<lparr>Password_l := x\<rparr>)
              | None \<Rightarrow> unmarshal_login jt kvs (type_error ''password'' saved) req)
      else unmarshal_login jt kvs saved req)"

definition decode_Create :: "json_text \<Rightarrow> json_body \<Rightarrow> goerr + CreateRequest" where
  "decode_Create jt =
     decode_with (unmarshal_create jt) ''task.CreateRequest'' \<lparr>Title_c = [], DueDate_c = None\<rparr>"

definition decode_Login :: "json_text \<Rightarrow> json_body \<Rightarrow> goerr + LoginRequest" where
  "decode_Login jt =
     decode_with (unmarshal_login jt) ''auth.LoginRequest'' \<lparr>Username_l = [], Password_l = []\<rparr>"

section \<open>Validation\<close>

text \<open>What the handlers pass to \<open>Bind\<close>, and so to the validator.\<close>

datatype dto = CreateDTO CreateRequest | UpdateDTO UpdateRequest | LoginDTO LoginRequest

text \<open>
  The \<open>validate\<close> tags: the violated fields with the tag that each of them fails first.
  \<open>required\<close> refuses the empty string, \<open>omitempty\<close> passes a nil pointer, \<open>min\<close> and \<open>max\<close> count
  runes.
\<close>

definition create_violations :: "CreateRequest \<Rightarrow> (string \<times> string) list" where
  [simp]: "create_violations req =
     (if Title_c req = [] then [(''Title'', ''required'')]
      else if RuneCountInString (Title_c req) < 1 then [(''Title'', ''min'')]
      else if RuneCountInString (Title_c req) > 200 then [(''Title'', ''max'')] else [])"

definition update_violations :: "UpdateRequest \<Rightarrow> (string \<times> string) list" where
  [simp]: "update_violations req =
     (case Title_u req of None \<Rightarrow> []
      | Some t \<Rightarrow> if RuneCountInString t < 1 then [(''Title'', ''min'')]
                 else if RuneCountInString t > 200 then [(''Title'', ''max'')] else [])"

definition login_violations :: "LoginRequest \<Rightarrow> (string \<times> string) list" where
  [simp]: "login_violations req =
     (if Username_l req = [] then [(''Username'', ''required'')] else []) @
     (if Password_l req = [] then [(''Password'', ''required'')] else [])"

fun violations :: "dto \<Rightarrow> (string \<times> string) list" where
  "violations (CreateDTO req) = create_violations req"
| "violations (UpdateDTO req) = update_violations req"
| "violations (LoginDTO req) = login_violations req"

text \<open>
  Fiber and the validation library, as far as \<open>Bind().Body\<close> uses them: reading the body, the texts
  of strings and times, \<open>validator.Validate.Struct\<close>, and the wrapping of a bind error.
\<close>

record fiber_json =
  fj_scan :: "Ctx \<Rightarrow> goerr + json_body"
  fj_text :: json_text
  fj_Struct :: "dto \<Rightarrow> goerr option"
  fj_wrap :: "goerr \<Rightarrow> goerr"

text \<open>\<open>fiberStructValidator\<close> holds the library's validator; \<open>Validate\<close> hands it the struct.\<close>

record fiberStructValidator =
  fv_v :: "dto \<Rightarrow> goerr option"

definition NewFiberStructValidator :: "fiber_json \<Rightarrow> fiberStructValidator" where
  "NewFiberStructValidator fj = \<lparr>fv_v = fj_Struct fj\<rparr>"

definition fv_Validate :: "fiberStructValidator \<Rightarrow> dto \<Rightarrow> goerr option" where
  "fv_Validate fv out = fv_v fv out"

definition newStructValidator :: "fiber_json \<Rightarrow> fiberStructValidator" where
  "newStructValidator fj = NewFiberStructValidator fj"

definition Bind_Body ::
  "fiber_json \<Rightarrow> (json_text \<Rightarrow> json_body \<Rightarrow> goerr + 'r) \<Rightarrow> ('r \<Rightarrow> dto) \<Rightarrow> Ctx \<Rightarrow> goerr + 'r" where
  "Bind_Body fj decode dto_of c =
     (case fj_scan fj c of
        Inl e \<Rightarrow> Inl (fj_wrap fj e)
      | Inr body \<Rightarrow>
          (case decode (fj_text fj) body of
             Inl e \<Rightarrow> Inl (fj_wrap fj e)
           | Inr req \<Rightarrow>
               (case fv_Validate (newStructValidator fj) (dto_of req) of
                  Some e \<Rightarrow> Inl (fj_wrap fj e)
                | None \<Rightarrow> Inr req)))"

definition json_bind :: "fiber_json \<Rightarrow> bind_body" where
  "json_bind fj =
     \<lparr>b_create = Bind_Body fj decode_Create CreateDTO,
      b_update = Bind_Body fj decode_Update UpdateDTO,
      b_login = Bind_Body fj decode_Login LoginDTO\<rparr>"

section \<open>The contract of fiber and the validator\<close>

text \<open>
  The validator reports exactly the violations; wrapping keeps what \<open>errors.As\<close> finds; an error
  of \<open>time.Time\<close> is neither fiber's nor the validator's.
\<close>

locale fiber_json_contract =
  fixes fj :: fiber_json
  assumes valid: "violations d = [] \<Longrightarrow> fj_Struct fj d = None"
    and invalid: "violations d \<noteq> [] \<Longrightarrow> \<exists>msg. fj_Struct fj d = Some (ValidationErrs (violations d) msg)"
    and wrap: "as_valerrs (fj_wrap fj e) = as_valerrs e" "as_fiber (fj_wrap fj e) = as_fiber e"
    and time_error: "jt_time (fj_text fj) raw = Inl e \<Longrightarrow> as_valerrs e = None \<and> as_fiber e = None"
begin

lemma Bind_Body_scanned:
  assumes "fj_scan fj c = Inr body"
  shows "case decode (fj_text fj) body of
      Inl e \<Rightarrow> Bind_Body fj decode dto_of c = Inl (fj_wrap fj e)
    | Inr req \<Rightarrow>
        if violations (dto_of req) = [] then Bind_Body fj decode dto_of c = Inr req
        else \<exists>e. Bind_Body fj decode dto_of c = Inl e \<and> as_fiber e = None \<and>
          as_valerrs e = Some (violations (dto_of req))"
proof (cases "decode (fj_text fj) body")
  case (Inr req)
  show ?thesis
  proof (cases "violations (dto_of req) = []")
    case False
    then obtain msg where "fj_Struct fj (dto_of req) = Some (ValidationErrs (violations (dto_of req)) msg)"
      using invalid by blast
    then show ?thesis
      using assms Inr False by (simp add: Bind_Body_def newStructValidator_def NewFiberStructValidator_def
          fv_Validate_def wrap)
  qed (use assms Inr in \<open>simp add: Bind_Body_def newStructValidator_def NewFiberStructValidator_def
          fv_Validate_def valid\<close>)
qed (use assms in \<open>simp add: Bind_Body_def\<close>)

lemma Bind_Body_valid:
  assumes "Bind_Body fj decode dto_of c = Inr req"
  shows "violations (dto_of req) = []"
proof -
  obtain body where body: "fj_scan fj c = Inr body"
    using assms by (auto simp: Bind_Body_def split: sum.splits)
  show ?thesis
    using Bind_Body_scanned [OF body, of decode dto_of] assms by (auto split: sum.splits if_splits)
qed

lemma binds_valid_requests: "bind_contract (json_bind fj)"
proof
  show "title_ok (Title_c req)" if "b_create (json_bind fj) c = Inr req" for c req
    using Bind_Body_valid [of decode_Create CreateDTO c req] that
    by (auto simp: json_bind_def title_ok_def split: if_splits)
  show "title_ok title" if "b_update (json_bind fj) c = Inr ureq" "Title_u ureq = Some title" for c ureq title
    using Bind_Body_valid [of decode_Update UpdateDTO c ureq] that RuneCountInString_bounds [of title]
    by (auto simp: json_bind_def title_ok_def split: if_splits)
  show "Username_l lreq \<noteq> [] \<and> Password_l lreq \<noteq> []" if "b_login (json_bind fj) c = Inr lreq" for c lreq
    using Bind_Body_valid [of decode_Login LoginDTO c lreq] that
    by (auto simp: json_bind_def split: if_splits)
qed

end

sublocale fiber_json_contract \<subseteq> json: bind_contract "json_bind fj"
  by (rule binds_valid_requests)

section \<open>From the body to the answer\<close>

definition plain :: "goerr \<Rightarrow> bool" where
  "plain e \<longleftrightarrow> as_valerrs e = None \<and> as_fiber e = None"

lemma plain_type_error: "pred_option plain saved \<Longrightarrow> pred_option plain (type_error name saved)"
  by (cases saved) (simp_all add: type_error_def plain_def)

lemma plain_unmarshal_create:
  assumes "\<And>raw e. jt_time jt raw = Inl e \<Longrightarrow> plain e" and "pred_option plain saved"
  shows "pred_option plain (fst (unmarshal_create jt kvs saved req))"
  using assms(2)
proof (induction kvs arbitrary: saved req)
  case (Cons kv kvs)
  then show ?case
    by (cases kv) (auto simp: plain_type_error dest: assms(1) split: option.split sum.split)
qed simp

lemma plain_decode_Create:
  assumes "\<And>raw e. jt_time jt raw = Inl e \<Longrightarrow> plain e" and "decode_Create jt body = Inl e"
  shows "plain e"
proof (cases body)
  case (BodyObj kvs)
  then show ?thesis
    using assms(2) plain_unmarshal_create [where saved = None and kvs = kvs and jt = jt
        and req = "\<lparr>Title_c = [], DueDate_c = None\<rparr>"] assms(1)
    by (auto simp: decode_Create_def decode_with_def split: prod.splits option.splits)
qed (use assms(2) in \<open>auto simp: decode_Create_def decode_with_def plain_def\<close>)

lemma saved_create_error_stays:
  "saved \<noteq> None \<Longrightarrow> fst (unmarshal_create jt kvs saved req) \<noteq> None"
  by (induction jt kvs saved req rule: unmarshal_create.induct) (simp_all split: option.split sum.split)

text \<open>What a creation body that decodes says.\<close>

definition non_null :: "string list \<Rightarrow> string list" where
  "non_null raws = filter (\<lambda>r. r \<noteq> ''null'') raws"

lemma unmarshal_create_fields:
  assumes "unmarshal_create jt kvs None req = (None, req')"
  shows "(if non_null (given ''title'' kvs) = [] then Title_c req' = Title_c req
      else jt_string jt (last (non_null (given ''title'' kvs))) = Some (Title_c req')) \<and>
    (if given ''due_date'' kvs = [] then DueDate_c req' = DueDate_c req
      else if last (given ''due_date'' kvs) = ''null'' then DueDate_c req' = None
      else \<exists>v. jt_time jt (last (given ''due_date'' kvs)) = Inr v \<and> DueDate_c req' = Some v)"
  using assms
proof (induction kvs arbitrary: req)
  case (Cons kv kvs)
  obtain key raw where kv: "kv = (key, raw)" by fastforce
  have no: "unmarshal_create jt kvs (type_error name None) r = (None, req') \<Longrightarrow> False" for name r
    using saved_create_error_stays [of "type_error name None" jt kvs r] by simp
  show ?case
    using Cons.prems Cons.IH unfolding kv
    by (auto simp: non_null_def split: if_splits option.splits sum.splits dest: no)
qed (simp add: non_null_def)

lemma saved_login_error_stays:
  "saved \<noteq> None \<Longrightarrow> fst (unmarshal_login jt kvs saved req) \<noteq> None"
  by (induction jt kvs saved req rule: unmarshal_login.induct) (simp_all split: option.split)

lemma login_names [simp]: "field_is ''username'' key \<Longrightarrow> \<not> field_is ''password'' key"
  by (auto simp: field_is_def)

text \<open>The string a body gives for a field that is not a pointer: the last one that is not \<open>null\<close>.\<close>

definition string_given :: "json_text \<Rightarrow> string \<Rightarrow> (string \<times> string) list \<Rightarrow> string \<Rightarrow> bool" where
  "string_given jt name kvs x \<longleftrightarrow>
     (if non_null (given name kvs) = [] then x = []
      else jt_string jt (last (non_null (given name kvs))) = Some x)"

lemma unmarshal_login_fields:
  assumes "unmarshal_login jt kvs None req = (None, req')"
  shows "(if non_null (given ''username'' kvs) = [] then Username_l req' = Username_l req
      else jt_string jt (last (non_null (given ''username'' kvs))) = Some (Username_l req')) \<and>
    (if non_null (given ''password'' kvs) = [] then Password_l req' = Password_l req
      else jt_string jt (last (non_null (given ''password'' kvs))) = Some (Password_l req'))"
  using assms
proof (induction kvs arbitrary: req)
  case (Cons kv kvs)
  obtain key raw where kv: "kv = (key, raw)" by fastforce
  have no: "unmarshal_login jt kvs (type_error name None) r = (None, req') \<Longrightarrow> False" for name r
    using saved_login_error_stays [of "type_error name None" jt kvs r] by simp
  show ?case
    using Cons.prems Cons.IH unfolding kv
    by (auto simp: non_null_def split: if_splits option.splits dest: no)
qed (simp add: non_null_def)

lemma decode_Login_fields:
  assumes "decode_Login jt (BodyObj kvs) = Inr req"
  shows "string_given jt ''username'' kvs (Username_l req) \<and> string_given jt ''password'' kvs (Password_l req)"
proof -
  have "unmarshal_login jt kvs None \<lparr>Username_l = [], Password_l = []\<rparr> = (None, req)"
    using assms by (simp add: decode_Login_def decode_with_Inr)
  from unmarshal_login_fields [OF this] show ?thesis by (simp add: string_given_def)
qed

lemma plain_unmarshal_login:
  assumes "pred_option plain saved"
  shows "pred_option plain (fst (unmarshal_login jt kvs saved req))"
  using assms
proof (induction kvs arbitrary: saved req)
  case (Cons kv kvs)
  then show ?case by (cases kv) (auto simp: plain_type_error split: option.split)
qed simp

lemma plain_decode_Login:
  assumes "decode_Login jt body = Inl e"
  shows "plain e"
proof (cases body)
  case (BodyObj kvs)
  then show ?thesis
    using assms plain_unmarshal_login [of None jt kvs "\<lparr>Username_l = [], Password_l = []\<rparr>"]
    by (auto simp: decode_Login_def decode_with_def split: prod.splits option.splits)
qed (use assms in \<open>auto simp: decode_Login_def decode_with_def plain_def\<close>)

text \<open>The answer to a bind error.\<close>

lemma bind_error_sent:
  assumes "as_fiber e = None"
  shows "sends (fst (errorHandler (AppErr (BindErrorToAppError e)) c s)) (if as_valerrs e = None then 400 else 422)
      (error_env (case as_valerrs e of None \<Rightarrow> NewBadRequest ''malformed request body'' []
        | Some ves \<Rightarrow> NewValidation (map (\<lambda>(f, t). \<lparr>Field = f, Reason = t\<rparr>) ves)))"
  using assms
  by (cases "as_valerrs e")
    (simp_all add: BindErrorToAppError_def NewBadRequest_def NewValidation_def errorHandler_def
      respond_def send_json_def set_status_def ErrorBody_def Let_def details_loop_map sends_def error_env_def)

lemma bind_error_answer:
  assumes "b_create b c = Inl e" and "as_fiber e = None"
    and "run_request b repo (ReqCreate c) s = (c', s')"
  shows "Store s' = Store s \<and>
    sends c' (if as_valerrs e = None then 400 else 422)
      (error_env (case as_valerrs e of None \<Rightarrow> NewBadRequest ''malformed request body'' []
        | Some ves \<Rightarrow> NewValidation (map (\<lambda>(f, t). \<lparr>Field = f, Reason = t\<rparr>) ves)))"
proof -
  have call: "call_of b (ReqCreate c) = Inl (AppErr (BindErrorToAppError e))" using assms(1) by simp
  have "c' = fst (errorHandler (AppErr (BindErrorToAppError e)) c s)"
    using run_request_refused [OF call, of repo s] assms(3) by (metis fst_conv req_ctx.simps(1))
  then show ?thesis
    using bind_error_sent [OF assms(2), of c s] api_refused [OF call assms(3)] by (simp only: simp_thms)
qed

text \<open>How a creation with a scanned body is bound.\<close>

lemma create_binding:
  assumes "fiber_json_contract fj" and "fj_scan fj c = Inr (BodyObj kvs)"
  shows "case decode_Create (fj_text fj) (BodyObj kvs) of
      Inl e \<Rightarrow> (\<exists>e. b_create (json_bind fj) c = Inl e \<and> as_fiber e = None \<and> as_valerrs e = None)
    | Inr req \<Rightarrow>
        if title_ok (Title_c req) then b_create (json_bind fj) c = Inr req
        else \<exists>e. b_create (json_bind fj) c = Inl e \<and> as_fiber e = None \<and>
          as_valerrs e = Some [(''Title'', if Title_c req = [] then ''required'' else ''max'')]"
proof (cases "decode_Create (fj_text fj) (BodyObj kvs)")
  case (Inl e)
  have "plain e"
    by (rule plain_decode_Create [OF _ Inl]) (simp add: plain_def fiber_json_contract.time_error [OF assms(1)])
  then show ?thesis
    using fiber_json_contract.Bind_Body_scanned [OF assms, of decode_Create CreateDTO] Inl
    by (simp add: json_bind_def plain_def fiber_json_contract.wrap [OF assms(1)])
next
  case (Inr req)
  have tags: "violations (CreateDTO req) = (if title_ok (Title_c req) then []
      else [(''Title'', if Title_c req = [] then ''required'' else ''max'')])"
    using RuneCountInString_bounds [of "Title_c req"] by (auto simp: title_ok_def)
  note bound = fiber_json_contract.Bind_Body_scanned [OF assms, of decode_Create CreateDTO,
      unfolded Inr, simplified sum.case]
  show ?thesis
    unfolding Inr sum.case using bound unfolding tags by (auto simp: json_bind_def split: if_splits)
qed

text \<open>C17: A creation from its JSON body to its answer. For every body that is a JSON object: if it does not
  decode (a title that is no string, a due date that is no time) the answer is 400 with the
  message for malformed bodies; if the title, which is the last one given that is not \<open>null\<close> and
  empty without one, violates its tags, the answer is 422 with that field and that tag; else
  a row with exactly this title and the due date given last is stored under a fresh id, its times as
  their columns round them, and answered with 201, unless the database fails, which is a 500.
  Nothing is stored but in the case of 201.\<close>

theorem create_body_answers:
  assumes "fiber_json_contract fj" and "gorm_contract db rows ok col" and "ok (Store s)"
    and "fj_scan fj c = Inr (BodyObj kvs)"
    and "run_request (json_bind fj) (NewRepository db) (ReqCreate c) s = (c', s')"
  shows "case decode_Create (fj_text fj) (BodyObj kvs) of
    Inl e \<Rightarrow> Store s' = Store s \<and>
      sends c' 400 (error_env (NewBadRequest ''malformed request body'' []))
  | Inr req \<Rightarrow>
      (if non_null (given ''title'' kvs) = [] then Title_c req = []
       else jt_string (fj_text fj) (last (non_null (given ''title'' kvs))) = Some (Title_c req)) \<and>
      (if given ''due_date'' kvs = [] \<or> last (given ''due_date'' kvs) = ''null'' then DueDate_c req = None
       else \<exists>v. jt_time (fj_text fj) (last (given ''due_date'' kvs)) = Inr v \<and> DueDate_c req = Some v) \<and>
      (if \<not> title_ok (Title_c req) then
         Store s' = Store s \<and>
         sends c' 422 (error_env (NewValidation
           [\<lparr>Field = ''Title'', Reason = (if Title_c req = [] then ''required'' else ''max'')\<rparr>]))
       else
         (\<exists>t. sends c' 201 (data_env (TaskData (toResponse t)) None) \<and> rows (Store s) (ID t) = None \<and>
            ID t \<noteq> 0 \<and> Title t = Title_c req \<and> DueDate t = DueDate_c req \<and> \<not> Done t \<and>
            rows (Store s') = (rows (Store s))(ID t \<mapsto> stored_as col t)) \<or>
         internal_error c' \<and> rows (Store s') = rows (Store s))"
proof (cases "decode_Create (fj_text fj) (BodyObj kvs)")
  case (Inl e)
  then obtain e' where "b_create (json_bind fj) c = Inl e'" "as_fiber e' = None" "as_valerrs e' = None"
    using create_binding [OF assms(1,4)] by auto
  then show ?thesis using bind_error_answer [OF _ _ assms(5)] Inl by simp
next
  case (Inr req)
  then have fields: "unmarshal_create (fj_text fj) kvs None \<lparr>Title_c = [], DueDate_c = None\<rparr> = (None, req)"
    by (simp add: decode_Create_def decode_with_Inr)
  have "if title_ok (Title_c req) then b_create (json_bind fj) c = Inr req
    else \<exists>e. b_create (json_bind fj) c = Inl e \<and> as_fiber e = None \<and>
      as_valerrs e = Some [(''Title'', if Title_c req = [] then ''required'' else ''max'')]"
    using create_binding [OF assms(1,4)] unfolding Inr sum.case .
  then have answer: "if title_ok (Title_c req) then
         (\<exists>t. sends c' 201 (data_env (TaskData (toResponse t)) None) \<and> rows (Store s) (ID t) = None \<and>
            ID t \<noteq> 0 \<and> Title t = Title_c req \<and> DueDate t = DueDate_c req \<and> \<not> Done t \<and>
            rows (Store s') = (rows (Store s))(ID t \<mapsto> stored_as col t)) \<or>
         internal_error c' \<and> rows (Store s') = rows (Store s)
       else Store s' = Store s \<and>
         sends c' 422 (error_env (NewValidation
           [\<lparr>Field = ''Title'', Reason = (if Title_c req = [] then ''required'' else ''max'')\<rparr>]))"
    using create_outcome [OF assms(2,3) _ assms(5), of req] bind_error_answer [OF _ _ assms(5)]
    by (force split: if_splits)
  have "(if non_null (given ''title'' kvs) = [] then Title_c req = []
       else jt_string (fj_text fj) (last (non_null (given ''title'' kvs))) = Some (Title_c req)) \<and>
      (if given ''due_date'' kvs = [] \<or> last (given ''due_date'' kvs) = ''null'' then DueDate_c req = None
       else \<exists>v. jt_time (fj_text fj) (last (given ''due_date'' kvs)) = Inr v \<and> DueDate_c req = Some v)"
    using unmarshal_create_fields [OF fields] by (cases "given ''due_date'' kvs = []") simp_all
  then show ?thesis
    unfolding Inr sum.case using answer by (cases "title_ok (Title_c req)") (simp_all only: if_True if_False simp_thms)
qed

section \<open>The hypotheses can hold\<close>

text \<open>A fiber for which the whole body is the raw title.\<close>

definition sample_fiber :: fiber_json where
  "sample_fiber =
     \<lparr>fj_scan = (\<lambda>c. Inr (BodyObj [(''title'', ReqBody c), (''due_date'', ''null'')])),
      fj_text = \<lparr>jt_string = Some, jt_time = (\<lambda>r. Inl (OpaqueErr ''no time''))\<rparr>,
      fj_Struct = (\<lambda>d. if violations d = [] then None else Some (ValidationErrs (violations d) ''invalid'')),
      fj_wrap = WrapErr ''bind''\<rparr>"

interpretation sample_fiber: fiber_json_contract sample_fiber
  by unfold_locales (auto simp: sample_fiber_def)

theorem create_body_answers_witness:
  "\<exists>c' s'. run_request (json_bind sample_fiber) (NewRepository (sample_gorm ''postgres''))
      (ReqCreate (id_ctx [] [])) (sample_server one_task) = (c', s') \<and>
    Store s' = one_task \<and> StatusCode c' = 422"
proof -
  obtain c' s' where run: "run_request (json_bind sample_fiber) (NewRepository (sample_gorm ''postgres''))
      (ReqCreate (id_ctx [] [])) (sample_server one_task) = (c', s')" by fastforce
  have inv: "tables_inv (Store (sample_server one_task))" using sample_inv by simp
  have scan: "fj_scan sample_fiber (id_ctx [] []) = Inr (BodyObj [(''title'', []), (''due_date'', ''null'')])"
    by (simp add: sample_fiber_def)
  have names: "field_is ''title'' ''title''" "\<not> field_is ''title'' ''due_date''" "field_is ''due_date'' ''due_date''"
    by code_simp+
  have decode: "decode_Create (fj_text sample_fiber) (BodyObj [(''title'', []), (''due_date'', ''null'')]) =
      Inr \<lparr>Title_c = [], DueDate_c = None\<rparr>"
    by (simp add: decode_Create_def decode_with_Inr names sample_fiber_def)
  show ?thesis
    using create_body_answers [OF sample_fiber.fiber_json_contract_axioms sample.gorm_contract_axioms inv scan run] run
    by (simp add: decode title_ok_def sends_def)
qed

end
