(* ===== verification/App_Login.thy ===== *)
theory App_Login
  imports App_Serve Binding
begin

text \<open>
  Logins through the whole app and the requests that follow them: what \<open>POST /api/v1/auth/login\<close> is
  answered with for every JSON body, and that its token opens the task API until it expires.
\<close>

section \<open>The login route\<close>

definition requests_login :: "Ctx \<Rightarrow> bool" where
  "requests_login c \<longleftrightarrow> Method c = ''POST'' \<and> Path c = ''/api/v1/auth/login''"

text \<open>How a login can end: limited, by one of two limiters, or as its handler ends it.\<close>

definition login_fate ::
  "('d, 'l) server handler \<Rightarrow> Ctx \<Rightarrow> ('d, 'l) server \<Rightarrow> ('d, 'l) server outcome \<Rightarrow> bool" where
  "login_fate h c s out \<longleftrightarrow>
     fst out = Some (AppErr ErrRateLimited) \<and> Store (snd (snd out)) = Store s \<or>
     (\<exists>c1 s1. similar c s c1 s1 \<and> echoes (h c1 s1) out)"

lemma login_fate_closed: "echo_closed (login_fate h c s)"
  unfolding echo_closed_def
proof (intro allI impI)
  fix a b assume echo: "echoes a b" and "login_fate h c s a"
  then have same: "fst b = fst a" "Store (snd (snd b)) = Store (snd (snd a))"
    by (simp_all add: echoes_def)
  show "login_fate h c s b"
    using \<open>login_fate h c s a\<close> unfolding login_fate_def same
    by (elim disjE) (blast intro: echoes_trans [OF _ echo])+
qed

lemma login_fate_limited: "Store s1 = Store s \<Longrightarrow> login_fate h c s (limit_reached c1 s1)"
  by (simp add: login_fate_def limit_reached_def)

lemma within_login_route:
  assumes lib: "libs_passing lib" and req: "requests_login c" and reached: "lc_LimitReached lc = limit_reached"
  shows "within c s (login_fate (auth_Login b j svc) c s)
    (run_stack lib (auth_RegisterRoutes ''/api/v1'' b j svc [lb_limiter lib lc] @ es))"
  unfolding within_def
proof (intro allI impI)
  let ?h = "auth_Login b j svc"
  fix c1 s1 assume sim: "similar c s c1 s1"
  have c1: "Path c1 = ''/api/v1/auth/login''" "Method c1 = ''POST''"
    using req similar_sel(1,2) [OF sim] by (simp_all add: requests_login_def)
  obtain ps where ps: "lb_route_match lib ''/api/v1/auth/login'' ''/api/v1/auth/login'' = Some ps"
    using libs_passing.route_self [OF lib, of "''/api/v1/auth/login''"] by auto
  let ?c = "c1\<lparr>RoutePath := ''/api/v1/auth/login'', Params := ps\<rparr>"
  have sim': "similar c s ?c s1" using sim by simp
  have "login_fate ?h c s (lb_limiter lib lc ?h ?c s1)"
    using libs_passing.pass_limiter [OF lib reached, of ?c s1]
  proof
    assume "passes observed (lb_limiter lib lc) ?c s1"
    then show ?thesis
      by (rule passes_within [OF passes_Store sim' login_fate_closed])
        (auto simp: within_def login_fate_def intro: exI echoes_refl)
  next
    assume "\<exists>s2. observed s2 = observed s1 \<and> (\<forall>n. lb_limiter lib lc n ?c s1 = limit_reached ?c s2)"
    then obtain s2 where "Store s2 = Store s1" "lb_limiter lib lc ?h ?c s1 = limit_reached ?c s2"
      by (auto simp: observed_def)
    then show ?thesis using login_fate_limited similar_sel(4) [OF sim] by simp
  qed
  then show "login_fate ?h c s (run_stack lib (auth_RegisterRoutes ''/api/v1'' b j svc [lb_limiter lib lc] @ es) c1 s1)"
    using ps c1 libs_passing.method_self [OF lib] by (simp add: auth_RegisterRoutes_def terminal_def)
qed

lemma login_request_fate:
  assumes lib: "libs_passing lib" and req: "requests_login c" and auth: "AuthEnabled cfg"
  shows "within c s (login_fate (auth_Login b j (demo_service cfg)) c s) (run_stack lib (New lib cfg db ping b j))"
proof -
  have key: "route_key (Path c) = ''/api/v1/auth/login''" and not_options: "Method c \<noteq> ''OPTIONS''"
    using req by (simp_all add: requests_login_def)
  note front = within_front [OF lib not_options login_fate_closed, unfolded append_Cons append_Nil]
  show ?thesis
    unfolding New_def Let_def append_assoc append_Cons append_Nil
    using auth by (simp only: if_True) (rule front [OF login_fate_limited within_probes [OF lib _ within_login_route [OF lib req]]], simp_all add: key)
qed

section \<open>The answers\<close>

text \<open>A token that the secret of the configuration signed for a user, good until a time.\<close>

definition token_for ::
  "(string \<Rightarrow> string \<Rightarrow> claims \<Rightarrow> string \<Rightarrow> bool) \<Rightarrow> Config \<Rightarrow> string \<Rightarrow> gotime \<Rightarrow> string \<Rightarrow> bool" where
  "token_for sig cfg user till tok \<longleftrightarrow>
     (\<exists>cl. sig ''HS256'' (AuthJWTSecret cfg) cl tok \<and> Subject cl = user \<and> ExpiresAt_cl cl = Some till \<and>
        NotBefore_cl cl = None)"

definition login_env :: "string \<Rightarrow> gotime \<Rightarrow> http_body" where
  "login_env tok till = data_env (LoginData \<lparr>Token = tok, TokenType = ''Bearer'', ExpiresAt = till\<rparr>) None"

lemma foreign_sent: "foreign e \<Longrightarrow> internal_error (fst (errorHandler e c s))"
  using errorHandler_answers [of "ReqGet c" e c s] fault_answer by blast

lemma Issue_right:
  assumes "jwt_contract j sig"
    and "Issue j (demo_service cfg) (AuthDemoUsername cfg) (AuthDemoPassword cfg) s = (r, s')"
  shows "s' = s \<and> (case r of Inl e \<Rightarrow> foreign e
    | Inr (tok, till) \<Rightarrow> till = Now s + AuthTokenTTL cfg \<and>
        token_for sig cfg (AuthDemoUsername cfg) (j_numeric j till) tok)"
proof -
  let ?till = "Now s + AuthTokenTTL cfg"
  let ?cl = "\<lparr>Subject = AuthDemoUsername cfg, ExpiresAt_cl = Some (j_numeric j ?till), NotBefore_cl = None,
    IssuedAt_cl = Some (j_numeric j (Now s))\<rparr>"
  have "Issue j (demo_service cfg) (AuthDemoUsername cfg) (AuthDemoPassword cfg) s =
      (case j_sign j ''HS256'' (AuthJWTSecret cfg) ?cl of
         Inl e \<Rightarrow> (Inl (WrapErr (''sign token: '' @ Error e) e), s) | Inr tok \<Rightarrow> (Inr (tok, ?till), s))"
    by (simp add: Issue_def demo_Verify_iff NewDemoAuthenticator_def timeNow_def Let_def)
  then show ?thesis
    using assms(2) jwt_contract.sign_err [OF assms(1)] jwt_contract.sign_ok [OF assms(1)]
    by (cases "j_sign j ''HS256'' (AuthJWTSecret cfg) ?cl") (force simp: token_for_def)+
qed

lemma login_answer:
  assumes "jwt_contract j sig" and "StatusCode c = 200"
    and "answer (auth_Login b j (demo_service cfg)) c s = (c', s')"
  shows "Store s' = Store s \<and>
    (case b_login b c of
       Inl e \<Rightarrow> c' = fst (errorHandler (AppErr (BindErrorToAppError e)) c s)
     | Inr req \<Rightarrow>
         if \<not> (Username_l req = AuthDemoUsername cfg \<and> Password_l req = AuthDemoPassword cfg)
         then sends c' 401 (error_env ErrInvalidCredential)
         else internal_error c' \<or>
           (\<exists>tok. sends c' 200 (login_env tok (Now s + AuthTokenTTL cfg)) \<and>
              token_for sig cfg (Username_l req) (j_numeric j (Now s + AuthTokenTTL cfg)) tok))"
proof (cases "b_login b c")
  case (Inl e)
  then show ?thesis
    using assms(3) errorHandler_store(1) [of "AppErr (BindErrorToAppError e)" c s]
    by (auto simp: answer_def auth_Login_def)
next
  case (Inr req)
  show ?thesis
  proof (cases "Username_l req = AuthDemoUsername cfg \<and> Password_l req = AuthDemoPassword cfg")
    case False
    then have "auth_Login b j (demo_service cfg) c s = (Some (AppErr ErrInvalidCredential), c, s)"
      using Inr by (auto simp: auth_Login_def Issue_def demo_Verify_iff NewDemoAuthenticator_def)
    then have ans: "c' = fst (errorHandler (AppErr ErrInvalidCredential) c s)"
      "s' = snd (errorHandler (AppErr ErrInvalidCredential) c s)"
      using assms(3) by (simp_all add: answer_def)
    have "sends c' 401 (error_env ErrInvalidCredential)"
      using errorHandler_answers [of "ReqGet c" "AppErr ErrInvalidCredential" c s]
      by (simp add: ans(1) ErrInvalidCredential_def)
    then show ?thesis using Inr False ans(2) by simp
  next
    case True
    obtain r t where r: "Issue j (demo_service cfg) (AuthDemoUsername cfg) (AuthDemoPassword cfg) s = (r, t)"
      by fastforce
    note issue = Issue_right [OF assms(1) r]
    show ?thesis
    proof (cases r)
      case (Inl e)
      then have "auth_Login b j (demo_service cfg) c s = (Some e, c, s)"
        using Inr True r issue by (simp add: auth_Login_def)
      then have ans: "c' = fst (errorHandler e c s)" "s' = snd (errorHandler e c s)"
        using assms(3) by (simp_all add: answer_def)
      then show ?thesis using Inr True Inl issue foreign_sent [of e c s] by simp
    next
      case Ok: (Inr p)
      obtain tok till where p: "p = (tok, till)" by fastforce
      have "c' = send_json (login_env tok till) c" "s' = s"
        using assms(3) Inr True r issue Ok
        by (auto simp: answer_def auth_Login_def p OK_def login_env_def data_env_def)
      then show ?thesis
        using Inr True issue Ok assms(2) by (auto simp: p sends_def send_json_def)
    qed
  qed
qed

section \<open>Logins by JSON\<close>

text \<open>A login through the app ends as its handler answers a request like it, or with 429.\<close>

lemma login_served:
  assumes "libs_passing lib" and "requests_login c" and "AuthEnabled cfg"
    and "serve lib (New lib cfg db ping b j) c s = (c', s')"
  shows "sends c' 429 (error_env ErrRateLimited) \<and> Store s' = Store s \<or>
    (\<exists>c1 s1 c2 s2. similar c s c1 s1 \<and> answer (auth_Login b j (demo_service cfg)) c1 s1 = (c2, s2) \<and>
       StatusCode c' = StatusCode c2 \<and> RespBody c' = RespBody c2 \<and> Store s' = Store s2)"
proof -
  let ?h = "auth_Login b j (demo_service cfg)"
  obtain e d t where run: "run_stack lib (New lib cfg db ping b j) c s = (e, d, t)"
    by (cases "run_stack lib (New lib cfg db ping b j) c s")
  have final: "answer (run_stack lib (New lib cfg db ping b j)) c s = (c', s')"
    using assms(4) by (simp add: serve_def)
  have "login_fate ?h c s (e, d, t)"
    using login_request_fate [OF assms(1-3), unfolded within_def] run similar_refl by metis
  then consider (limited) "e = Some (AppErr ErrRateLimited)" "Store t = Store s"
    | (handled) c1 s1 where "similar c s c1 s1" "echoes (?h c1 s1) (e, d, t)"
    by (auto simp: login_fate_def)
  then show ?thesis
  proof cases
    case limited
    then have c': "c' = fst (errorHandler (AppErr ErrRateLimited) d t)" "s' = snd (errorHandler (AppErr ErrRateLimited) d t)"
      using final run by (simp_all add: answer_def)
    show ?thesis
      using rate_limited_body [of d t] limited(2)
      by (intro disjI1) (simp add: c' sends_def EffectiveStatus_def ErrRateLimited_def)
  next
    case handled
    obtain c2 s2 where ans: "answer ?h c1 s1 = (c2, s2)" by fastforce
    have "echoes (?h c1 s1) (run_stack lib (New lib cfg db ping b j) c s)" using handled(2) run by simp
    from answer_echoes [OF this ans final] show ?thesis using handled(1) ans by blast
  qed
qed

text \<open>What a login with a scanned body is refused with.\<close>

lemma login_binding:
  assumes "fiber_json_contract fj" and "fj_scan fj c = Inr (BodyObj kvs)"
  shows "case decode_Login (fj_text fj) (BodyObj kvs) of
      Inl e \<Rightarrow> (\<exists>e. b_login (json_bind fj) c = Inl e \<and> as_fiber e = None \<and> as_valerrs e = None)
    | Inr req \<Rightarrow>
        if login_violations req = [] then b_login (json_bind fj) c = Inr req
        else \<exists>e. b_login (json_bind fj) c = Inl e \<and> as_fiber e = None \<and> as_valerrs e = Some (login_violations req)"
proof (cases "decode_Login (fj_text fj) (BodyObj kvs)")
  case (Inl e)
  have "plain e" by (rule plain_decode_Login [OF Inl])
  then show ?thesis
    using fiber_json_contract.Bind_Body_scanned [OF assms, of decode_Login LoginDTO] Inl
    by (simp add: json_bind_def plain_def fiber_json_contract.wrap [OF assms(1)])
next
  case (Inr req)
  then show ?thesis
    using fiber_json_contract.Bind_Body_scanned [OF assms, of decode_Login LoginDTO]
    by (simp add: json_bind_def del: login_violations_def split: if_splits)
qed

text \<open>C15: A login through the whole app. With authentication on, a login whose body is a JSON object
  is answered with 429 by a limiter, or: with 400 when it does not decode; with 422 and one detail per
  missing credential; with 401 \<open>INVALID_CREDENTIALS\<close> unless name and password, each the last one
  given that is not \<open>null\<close>, are both the configured ones; and then with 200 and a bearer token that
  the secret signed for the name until the configured lifetime has passed, cut to a second, or a
  masked 500 when signing fails. The database is never touched.\<close>

theorem login_body_answers:
  assumes "libs_passing lib" and "jwt_contract j sig" and "fiber_json_contract fj" and "AuthEnabled cfg"
    and "requests_login c" and "StatusCode c = 200"
    and "\<And>c1. same_request c c1 \<Longrightarrow> fj_scan fj c1 = Inr (BodyObj kvs)"
    and "serve lib (New lib cfg db ping (json_bind fj) j) c s = (c', s')"
  shows "Store s' = Store s \<and>
    (sends c' 429 (error_env ErrRateLimited) \<or>
     (case decode_Login (fj_text fj) (BodyObj kvs) of
        Inl e \<Rightarrow> sends c' 400 (error_env (NewBadRequest ''malformed request body'' []))
      | Inr req \<Rightarrow>
          string_given (fj_text fj) ''username'' kvs (Username_l req) \<and>
          string_given (fj_text fj) ''password'' kvs (Password_l req) \<and>
          (if login_violations req \<noteq> []
           then sends c' 422 (error_env (NewValidation
             (map (\<lambda>(f, t). \<lparr>Field = f, Reason = t\<rparr>) (login_violations req))))
           else if \<not> (Username_l req = AuthDemoUsername cfg \<and> Password_l req = AuthDemoPassword cfg)
           then sends c' 401 (error_env ErrInvalidCredential)
           else internal_error c' \<or>
             (\<exists>tok t. Now s \<le> t \<and> sends c' 200 (login_env tok (t + AuthTokenTTL cfg)) \<and>
                token_for sig cfg (Username_l req) (j_numeric j (t + AuthTokenTTL cfg)) tok))))"
  using login_served [OF assms(1,5,4,8)]
proof (elim disjE exE conjE)
  assume "sends c' 429 (error_env ErrRateLimited)" and "Store s' = Store s"
  then show ?thesis by blast
next
  fix c1 s1 c2 s2
  assume sim: "similar c s c1 s1" and ans: "answer (auth_Login (json_bind fj) j (demo_service cfg)) c1 s1 = (c2, s2)"
    and same: "StatusCode c' = StatusCode c2" "RespBody c' = RespBody c2" "Store s' = Store s2"
  have sends: "sends c' n body \<longleftrightarrow> sends c2 n body" for n body using same by (simp add: sends_def)
  have scan: "fj_scan fj c1 = Inr (BodyObj kvs)" using sim assms(7) by (simp add: similar_def)
  have 200: "StatusCode c1 = 200" using similar_sel(5) [OF sim] assms(6) by simp
  note answer = login_answer [OF assms(2) 200 ans]
  note bound = login_binding [OF assms(3) scan]
  have store: "Store s' = Store s" using answer same(3) similar_sel(4) [OF sim] by simp
  show ?thesis
  proof (cases "decode_Login (fj_text fj) (BodyObj kvs)")
    case (Inl e)
    then obtain e' where "b_login (json_bind fj) c1 = Inl e'" "as_fiber e' = None" "as_valerrs e' = None"
      using bound by auto
    then show ?thesis using answer bind_error_sent [of e' c1 s1] store Inl sends by simp
  next
    case (Inr req)
    note fields = decode_Login_fields [OF Inr]
    show ?thesis
    proof (cases "login_violations req = []")
      case True
      then have "b_login (json_bind fj) c1 = Inr req" using bound Inr by simp
      then show ?thesis
        using answer store fields Inr True similar_sel(6) [OF sim] unfolding sends by (auto split: if_splits)
    next
      case False
      then obtain e where "b_login (json_bind fj) c1 = Inl e" "as_fiber e = None" "as_valerrs e = Some (login_violations req)"
        using bound Inr by (auto simp del: login_violations_def)
      then show ?thesis
        using answer bind_error_sent [of e c1 s1] store fields Inr False sends by (simp del: login_violations_def)
    qed
  qed
qed

section \<open>Sessions\<close>

lemma error_body: "\<exists>e'. RespBody (fst (errorHandler e c s)) = error_env e'"
  by (auto simp: errorHandler_def respond_def send_json_def set_status_def error_env_def ErrorBody_def Let_def
      split: option.split)

lemma error_not_login [simp]: "error_env e \<noteq> login_env tok till" "login_env tok till \<noteq> error_env e"
  by (simp_all add: error_env_def ErrorBody_def login_env_def data_env_def)

lemma login_env_inject [simp]: "login_env tok till = login_env tok' till' \<longleftrightarrow> tok = tok' \<and> till = till'"
  by (simp add: login_env_def data_env_def)

text \<open>A login that hands out a token handed out a good one.\<close>

lemma token_served:
  assumes "libs_passing lib" and "jwt_contract j sig" and "bind_contract b" and "AuthEnabled cfg"
    and "requests_login c" and "StatusCode c = 200"
    and "serve lib (New lib cfg db ping b j) c s = (c', s')" and "RespBody c' = login_env tok till"
  shows "Now s + AuthTokenTTL cfg \<le> till \<and> (\<exists>user. user \<noteq> [] \<and> token_for sig cfg user (j_numeric j till) tok)"
  using login_served [OF assms(1,5,4,7)]
proof (elim disjE exE conjE)
  assume "sends c' 429 (error_env ErrRateLimited)"
  then have "error_env ErrRateLimited = login_env tok till" using assms(8) by (simp only: sends_def)
  then show ?thesis by (simp only: error_not_login)
next
  fix c1 s1 c2 s2
  assume sim: "similar c s c1 s1" and ans: "answer (auth_Login b j (demo_service cfg)) c1 s1 = (c2, s2)"
    and "RespBody c' = RespBody c2"
  then have body: "RespBody c2 = login_env tok till" using assms(8) by simp
  have 200: "StatusCode c1 = 200" using similar_sel(5) [OF sim] assms(6) by simp
  note answer = login_answer [OF assms(2) 200 ans]
  show ?thesis
  proof (cases "b_login b c1")
    case (Inl e)
    then have "c2 = fst (errorHandler (AppErr (BindErrorToAppError e)) c1 s1)" using answer by simp
    then obtain e' where "RespBody c2 = error_env e'" using error_body by blast
    with body show ?thesis by simp
  next
    case (Inr req)
    have user: "Username_l req \<noteq> []" using bind_contract.bound_login [OF assms(3) Inr] by simp
    have no: "\<not> sends c2 n (error_env e)" for n e using body by (simp add: sends_def)
    then obtain tok' where tok': "sends c2 200 (login_env tok' (Now s1 + AuthTokenTTL cfg))"
      "token_for sig cfg (Username_l req) (j_numeric j (Now s1 + AuthTokenTTL cfg)) tok'"
      using answer Inr by (auto split: if_splits)
    then have "till = Now s1 + AuthTokenTTL cfg" "tok' = tok" using body by (simp_all add: sends_def)
    with tok'(2) user similar_sel(6) [OF sim] show ?thesis by auto
  qed
qed

lemma token_is_good:
  assumes "token_for sig cfg user till tok" and "user \<noteq> []" and "t < till"
  shows "good_bearer sig (AuthJWTSecret cfg) t (''Bearer '' @ tok) user"
proof -
  from assms(1) obtain cl where "sig ''HS256'' (AuthJWTSecret cfg) cl tok" "Subject cl = user"
    "ExpiresAt_cl cl = Some till" "NotBefore_cl cl = None"
    by (auto simp: token_for_def)
  then show ?thesis
    using assms(2,3) unfolding good_bearer_def started_def
    by (intro exI [of _ tok] exI [of _ cl] exI [of _ till]) simp
qed

text \<open>C14: Sessions work. When a login through the app was answered with a token, then a request of
  the task API that carries it, to the app in any later state, is answered as its handler answers
  it, or with 429 by a limiter. It is refused with 401 only if it is answered at the expiry that the
  login reported or later, give or take the second that the token's own expiry is cut to: a request
  that is answered a second before the expiry is never refused. That expiry is at least the
  configured lifetime after the login came in.\<close>

theorem login_opens_the_api:
  fixes s s2 :: "('d, 'l) server"
  assumes "libs_passing lib" and "jwt_contract j sig" and "bind_contract b" and "AuthEnabled cfg"
    and "requests_login c" and "StatusCode c = 200"
    and "serve lib (New lib cfg db ping b j) c s = (c', s')" and "RespBody c' = login_env tok till"
    and "requests_op op x d" and "Header d ''Authorization'' = ''Bearer '' @ tok"
    and "serve lib (New lib cfg db ping b j) d s2 = (d', s3)"
  shows "Now s + AuthTokenTTL cfg \<le> till \<and>
    (sends d' 429 (error_env ErrRateLimited) \<and> Store s3 = Store s2 \<or>
     sends d' 401 (error_env ErrUnauthorized) \<and> Store s3 = Store s2 \<and> till - second < Now s3 \<or>
     (\<exists>d1 (s4 :: ('d, 'l) server) d2 s5. same_request d d1 \<and> (on_item op \<longrightarrow> Params d1 ''id'' = x) \<and> Store s4 = Store s2 \<and>
        run_request b (NewRepository db) (req_of op d1) s4 = (d2, s5) \<and>
        StatusCode d' = StatusCode d2 \<and> RespBody d' = RespBody d2 \<and> Store s3 = Store s5))"
proof -
  obtain user where token: "Now s + AuthTokenTTL cfg \<le> till" "user \<noteq> []" "token_for sig cfg user (j_numeric j till) tok"
    using token_served [OF assms(1-8)] by blast
  have expired: "till - second < t"
    if "\<nexists>user. good_bearer sig (AuthJWTSecret cfg) t (Header d ''Authorization'') user" for t
  proof -
    have "j_numeric j till \<le> t"
      using token_is_good [OF token(3,2), of t] that assms(10) by (metis not_less)
    then show ?thesis using jwt_contract.numeric_bounds [OF assms(2), of till] by simp
  qed
  from task_request_served [OF assms(1,2,9,11)] show ?thesis
    using token(1) expired by (elim disjE) (blast, force, blast)
qed

section \<open>The hypotheses can hold\<close>

text \<open>A fiber for which the body is the password.\<close>

definition login_fiber :: fiber_json where
  "login_fiber = sample_fiber\<lparr>fj_scan := (\<lambda>c. Inr (BodyObj [(''username'', ''ops''), (''password'', ReqBody c)]))\<rparr>"

interpretation login_fiber: fiber_json_contract login_fiber
  by unfold_locales (auto simp: login_fiber_def sample_fiber_def)

definition login_ctx :: Ctx where
  "login_ctx = (sample_ctx ''POST'' ''/api/v1/auth/login'')\<lparr>ReqBody := ''correct horse''\<rparr>"

definition sample_app :: "(tables, nat) entry list" where
  "sample_app = New sample_libs prod_config (sample_gorm ''postgres'') (\<lambda>s. None) (json_bind login_fiber) sample_jwt"

lemma login_path_matches:
  "lb_use_match sample_libs ''/'' ''/api/v1/auth/login''"
  "lb_route_match sample_libs ''/livez'' ''/api/v1/auth/login'' = None"
  "lb_route_match sample_libs ''/readyz'' ''/api/v1/auth/login'' = None"
  "lb_route_match sample_libs ''/metrics'' ''/api/v1/auth/login'' = None"
  "lb_route_match sample_libs ''/openapi.yaml'' ''/api/v1/auth/login'' = None"
  "lb_route_match sample_libs ''/api/v1/auth/login'' ''/api/v1/auth/login'' \<noteq> None"
  "lb_method_match sample_libs ''POST'' ''POST''"
  by (simp_all add: sample_libs_def sample_use_match_def sample_route_match_def fixed_part_def route_key_def
      lower_byte_def HasPrefix_def)

lemma login_field_names:
  "field_is ''username'' ''username''" "field_is ''password'' ''password''"
  "\<not> field_is ''username'' ''password''" "\<not> field_is ''password'' ''username''"
  by code_simp+

lemma login_fiber_binds:
  "b_login (json_bind login_fiber) (login_ctx\<lparr>RoutePath := p, Params := ps\<rparr>) =
     Inr \<lparr>Username_l = ''ops'', Password_l = ''correct horse''\<rparr>"
  by (simp add: json_bind_def Bind_Body_def login_fiber_def sample_fiber_def login_ctx_def decode_Login_def
        decode_with_def login_field_names newStructValidator_def NewFiberStructValidator_def fv_Validate_def)

lemma login_ctx_sel [simp]:
  "Method login_ctx = ''POST''" "Path login_ctx = ''/api/v1/auth/login''" "StatusCode login_ctx = 200"
  by (simp_all add: login_ctx_def sample_ctx_def)

lemma sample_login_handler:
  "\<exists>tok. auth_Login (json_bind login_fiber) sample_jwt (demo_service prod_config)
      (login_ctx\<lparr>RoutePath := p, Params := ps\<rparr>) s =
    (None, (login_ctx\<lparr>RoutePath := p, Params := ps\<rparr>)\<lparr>RespBody := login_env tok (Now s + 3600000000000)\<rparr>, s)"
  by (rule exI, simp add: auth_Login_def login_fiber_binds Issue_def demo_Verify_iff NewDemoAuthenticator_def prod_config_def
      sample_jwt_def Let_def timeNow_def OK_def send_json_def login_env_def data_env_def)

lemma sample_login_served:
  "\<exists>tok till. RespBody (fst (serve sample_libs sample_app login_ctx (sample_server empty_tables))) = login_env tok till"
proof -
  obtain ps where ps: "lb_route_match (sample_libs :: (tables, nat) libs) ''/api/v1/auth/login'' ''/api/v1/auth/login'' = Some ps"
    using login_path_matches(6) by blast
  have mw: "lb_requestid sample_libs = (\<lambda>n. n)" "lb_recover sample_libs = (\<lambda>n. n)" "lb_helmet sample_libs = (\<lambda>n. n)"
    "lb_cors sample_libs origins = (\<lambda>n. n)" "lb_limiter sample_libs = sample_limiter" for origins
    by (simp_all add: sample_libs_def)
  have free: "LibState (sample_server d) = 0" for d :: tables by (simp add: sample_server_def)
  have limits: "RateLimitPerMinute prod_config = 120" "AuthRateLimitPerMinute prod_config = 10" "AuthEnabled prod_config"
    by (simp_all add: prod_config_def)
  have skip: "\<not> skipRateLimit (login_ctx\<lparr>RoutePath := p\<rparr>)" for p
    by (simp add: skipRateLimit_def limiterSkipPaths_def)
  let ?s = "sample_server empty_tables"
  let ?c = "login_ctx\<lparr>RoutePath := ''/api/v1/auth/login'', Params := ps\<rparr>"
  obtain tok where login: "auth_Login (json_bind login_fiber) sample_jwt (demo_service prod_config) ?c (?s\<lparr>LibState := Suc (Suc 0)\<rparr>) =
      (None, ?c\<lparr>RespBody := login_env tok (Now (?s\<lparr>LibState := Suc (Suc 0)\<rparr>) + 3600000000000)\<rparr>, ?s\<lparr>LibState := Suc (Suc 0)\<rparr>)"
    using sample_login_handler by blast
  show ?thesis
    by (simp add: serve_def sample_app_def New_def Let_def answer_def mw login_path_matches limits skip free sample_limiter_def
        prom_Handler_def RequestLogger_def write_log_def auth_RegisterRoutes_def terminal_def ps login split_def)
qed

theorem login_body_answers_witness:
  "StatusCode (fst (serve sample_libs sample_app login_ctx (sample_server empty_tables))) \<in> {200, 429, 500}"
proof -
  let ?out = "serve sample_libs sample_app login_ctx (sample_server empty_tables)"
  have out: "serve sample_libs (New sample_libs prod_config (sample_gorm ''postgres'') (\<lambda>s. None) (json_bind login_fiber)
      sample_jwt) login_ctx (sample_server empty_tables) = (fst ?out, snd ?out)"
    by (simp add: sample_app_def)
  have scan: "fj_scan login_fiber c1 = Inr (BodyObj [(''username'', ''ops''), (''password'', ''correct horse'')])"
    if "same_request login_ctx c1" for c1
    using that by (simp add: same_request_def login_fiber_def login_ctx_def)
  have auth: "AuthEnabled prod_config" by (simp add: prod_config_def)
  have req: "requests_login login_ctx" by (simp add: requests_login_def)
  have decode: "decode_Login (fj_text login_fiber) (BodyObj [(''username'', ''ops''), (''password'', ''correct horse'')]) =
      Inr \<lparr>Username_l = ''ops'', Password_l = ''correct horse''\<rparr>"
    by (simp add: login_fiber_def sample_fiber_def decode_Login_def decode_with_def login_field_names)
  have demo: "AuthDemoUsername prod_config = ''ops''" "AuthDemoPassword prod_config = ''correct horse''"
    by (simp_all add: prod_config_def)
  show ?thesis
    using login_body_answers [OF sample_libs.libs_passing_axioms sample_jwt.jwt_contract_axioms
        login_fiber.fiber_json_contract_axioms auth req login_ctx_sel(3) scan out]
    by (auto simp: decode demo sends_def)
qed

theorem login_opens_the_api_witness:
  "\<exists>tok till. RespBody (fst (serve sample_libs sample_app login_ctx (sample_server empty_tables))) = login_env tok till \<and>
    3600000000000 \<le> till \<and>
    (let d = (sample_ctx ''GET'' ''/api/v1/tasks/7'')\<lparr>Header := (\<lambda>_. ''Bearer '' @ tok)\<rparr>
     in StatusCode (fst (serve sample_libs sample_app d (sample_server empty_tables))) = 429 \<or>
        till - second < Now (snd (serve sample_libs sample_app d (sample_server empty_tables))) \<or>
        (\<exists>d1 (s4 :: (tables, nat) server). Params d1 ''id'' = ''7'' \<and> Store s4 = empty_tables \<and>
           StatusCode (fst (serve sample_libs sample_app d (sample_server empty_tables))) =
             StatusCode (fst (run_request (json_bind login_fiber) (NewRepository (sample_gorm ''postgres'')) (ReqGet d1) s4))))"
proof -
  let ?out = "serve sample_libs sample_app login_ctx (sample_server empty_tables)"
  obtain tok till where body: "RespBody (fst ?out) = login_env tok till" using sample_login_served by blast
  let ?d = "(sample_ctx ''GET'' ''/api/v1/tasks/7'')\<lparr>Header := (\<lambda>_. ''Bearer '' @ tok)\<rparr>"
  let ?out2 = "serve sample_libs sample_app ?d (sample_server empty_tables)"
  have out: "serve sample_libs (New sample_libs prod_config (sample_gorm ''postgres'') (\<lambda>s. None) (json_bind login_fiber)
      sample_jwt) login_ctx (sample_server empty_tables) = (fst ?out, snd ?out)"
    and out2: "serve sample_libs (New sample_libs prod_config (sample_gorm ''postgres'') (\<lambda>s. None) (json_bind login_fiber)
      sample_jwt) ?d (sample_server empty_tables) = (fst ?out2, snd ?out2)"
    by (simp_all add: sample_app_def)
  have auth: "AuthEnabled prod_config" "AuthTokenTTL prod_config = 3600000000000" by (simp_all add: prod_config_def)
  have req: "requests_login login_ctx" by (simp add: requests_login_def)
  have get: "requests_op OpGet ''7'' ?d"
    by (simp add: requests_op_def on_item_def segment_def sample_ctx_def)
  have now: "Now (sample_server empty_tables) = 0" by (simp add: sample_server_def)
  note law = login_opens_the_api [OF sample_libs.libs_passing_axioms sample_jwt.jwt_contract_axioms
      login_fiber.json.bind_contract_axioms auth(1) req login_ctx_sel(3) out body get _ out2, unfolded now auth(2)]
  have item: "on_item OpGet" by (simp add: on_item_def)
  have "3600000000000 \<le> till" using law by simp
  moreover have "StatusCode (fst ?out2) = 429 \<or> till - second < Now (snd ?out2) \<or>
      (\<exists>d1 (s4 :: (tables, nat) server). Params d1 ''id'' = ''7'' \<and> Store s4 = empty_tables \<and>
         StatusCode (fst ?out2) =
           StatusCode (fst (run_request (json_bind login_fiber) (NewRepository (sample_gorm ''postgres'')) (ReqGet d1) s4)))"
    using law item by (auto simp: sends_def) (metis fst_conv)
  ultimately show ?thesis using body unfolding Let_def by blast
qed

end
