(* ===== verification/Test_Client.thy ===== *)
theory Test_Client
  imports App_Login
begin

text \<open>
  The client of the API tests, \<open>internal/testutil/testutil.go\<close>: \<open>Do\<close> builds a request, sends it to the
  app and decodes the envelope of the answer. What it decodes is what the handlers sent. A failed
  \<open>t.Fatalf\<close> ends a test and is the left value; \<open>app.Test\<close>'s reading of a request and the parsing
  of bytes that are not from an encoder are parameters.
\<close>

section \<open>Decoding an envelope\<close>

record APIError =
  Code_a :: string
  Message_a :: string

text \<open>A \<open>json.RawMessage\<close> holds the value as it came, \<open>None\<close> is nil.\<close>

record APIEnvelope =
  Success_a :: bool
  Data_a :: "json option"
  Meta_a :: "json option"
  Error_a :: "APIError option"

definition zero_APIError :: APIError where
  "zero_APIError = \<lparr>Code_a = [], Message_a = []\<rparr>"

definition zero_APIEnvelope :: APIEnvelope where
  "zero_APIEnvelope = \<lparr>Success_a = False, Data_a = None, Meta_a = None, Error_a = None\<rparr>"

fun unmarshal_APIError :: "(string \<times> json) list \<Rightarrow> goerr option \<Rightarrow> APIError \<Rightarrow> goerr option \<times> APIError" where
  "unmarshal_APIError [] saved e = (saved, e)"
| "unmarshal_APIError ((key, v) # kvs) saved e =
     (if field_is ''code'' key then
        (case v of JStr x \<Rightarrow> unmarshal_APIError kvs saved (e\<lparr>Code_a := x\<rparr>)
         | JNull \<Rightarrow> unmarshal_APIError kvs saved e
         | _ \<Rightarrow> unmarshal_APIError kvs (type_error ''code'' saved) e)
      else if field_is ''message'' key then
        (case v of JStr x \<Rightarrow> unmarshal_APIError kvs saved (e\<lparr>Message_a := x\<rparr>)
         | JNull \<Rightarrow> unmarshal_APIError kvs saved e
         | _ \<Rightarrow> unmarshal_APIError kvs (type_error ''message'' saved) e)
      else unmarshal_APIError kvs saved e)"

fun unmarshal_APIEnvelope ::
  "(string \<times> json) list \<Rightarrow> goerr option \<Rightarrow> APIEnvelope \<Rightarrow> goerr option \<times> APIEnvelope" where
  "unmarshal_APIEnvelope [] saved env = (saved, env)"
| "unmarshal_APIEnvelope ((key, v) # kvs) saved env =
     (if field_is ''success'' key then
        (case v of JBool b \<Rightarrow> unmarshal_APIEnvelope kvs saved (env\<lparr>Success_a := b\<rparr>)
         | JNull \<Rightarrow> unmarshal_APIEnvelope kvs saved env
         | _ \<Rightarrow> unmarshal_APIEnvelope kvs (type_error ''success'' saved) env)
      else if field_is ''data'' key then unmarshal_APIEnvelope kvs saved (env\<lparr>Data_a := Some v\<rparr>)
      else if field_is ''meta'' key then unmarshal_APIEnvelope kvs saved (env\<lparr>Meta_a := Some v\<rparr>)
      else if field_is ''error'' key then
        (case v of
           JNull \<Rightarrow> unmarshal_APIEnvelope kvs saved (env\<lparr>Error_a := None\<rparr>)
         | JObj es \<Rightarrow>
             let e0 = (case Error_a env of Some e \<Rightarrow> e | None \<Rightarrow> zero_APIError);
                 (saved, e) = unmarshal_APIError es saved e0
             in unmarshal_APIEnvelope kvs saved (env\<lparr>Error_a := Some e\<rparr>)
         | _ \<Rightarrow> unmarshal_APIEnvelope kvs (type_error ''error'' saved) env)
      else unmarshal_APIEnvelope kvs saved env)"

definition decode_APIEnvelope :: "json \<Rightarrow> goerr + APIEnvelope" where
  "decode_APIEnvelope v =
     (case v of
        JNull \<Rightarrow> Inr zero_APIEnvelope
      | JObj kvs \<Rightarrow> (case unmarshal_APIEnvelope kvs None zero_APIEnvelope of
                       (Some e, env) \<Rightarrow> Inl e | (None, env) \<Rightarrow> Inr env)
      | _ \<Rightarrow> Inl (OpaqueErr ''json: cannot unmarshal into Go value of type testutil.APIEnvelope''))"

section \<open>Requests\<close>

record http_request =
  rq_method :: string
  rq_target :: string
  rq_body :: string
  rq_header :: "string \<Rightarrow> string"

definition NewRequest :: "string \<Rightarrow> string \<Rightarrow> string \<Rightarrow> http_request" where
  "NewRequest method target body =
     \<lparr>rq_method = method, rq_target = target, rq_body = body, rq_header = (\<lambda>_. [])\<rparr>"

definition Header_Set :: "string \<Rightarrow> string \<Rightarrow> http_request \<Rightarrow> http_request" where
  "Header_Set k v req = req\<lparr>rq_header := (rq_header req)(k := v)\<rparr>"

text \<open>\<open>tl_accept\<close> is the part of \<open>app.Test\<close> before the handlers, \<open>tl_parse\<close> the scanner of JSON,
  \<open>tl_time\<close> the text of times.\<close>

record test_lib =
  tl_accept :: "http_request \<Rightarrow> goerr + Ctx"
  tl_parse :: "string \<Rightarrow> goerr + json"
  tl_time :: "gotime \<Rightarrow> string"

definition body_is_empty :: "http_body \<Rightarrow> bool" where
  "body_is_empty b \<longleftrightarrow> (case b of EmptyBody \<Rightarrow> True | RawBody ct txt \<Rightarrow> txt = [] | _ \<Rightarrow> False)"

fun body_json :: "test_lib \<Rightarrow> http_body \<Rightarrow> goerr + json" where
  "body_json tc EmptyBody = tl_parse tc []"
| "body_json tc (JSONEnvelope env) = Inr (marshal_Envelope (tl_time tc) env)"
| "body_json tc (JSONProbe v) = Inr v"
| "body_json tc (RawBody ct txt) = tl_parse tc txt"

definition test_Do ::
  "test_lib \<Rightarrow> ('d, 'l) libs \<Rightarrow> ('d, 'l) entry list \<Rightarrow> string \<Rightarrow> string \<Rightarrow> string \<Rightarrow> string \<Rightarrow> ('d, 'l) server \<Rightarrow>
   (string + Ctx \<times> APIEnvelope) \<times> ('d, 'l) server" where
  "test_Do tc lib app method target body bearer s =
     (let req = (if body \<noteq> [] then Header_Set ''Content-Type'' ''application/json'' (NewRequest method target body)
                 else NewRequest method target []);
          req = (if bearer \<noteq> [] then Header_Set ''Authorization'' (''Bearer '' @ bearer) req else req)
      in case tl_accept tc req of
           Inl e \<Rightarrow> (Inl (method @ '' '' @ target @ '': '' @ Error e), s)
         | Inr c \<Rightarrow>
             let (resp, s) = serve lib app c s
             in if StatusCode resp \<noteq> 204 \<and> \<not> body_is_empty (RespBody resp) then
                  (case bind_result (body_json tc (RespBody resp)) decode_APIEnvelope of
                     Inl e \<Rightarrow> (Inl (''decode response: '' @ Error e), s)
                   | Inr env \<Rightarrow> (Inr (resp, env), s))
                else (Inr (resp, zero_APIEnvelope), s))"

section \<open>Reading what was sent\<close>

text \<open>What the client keeps of an envelope.\<close>

definition client_view :: "(gotime \<Rightarrow> string) \<Rightarrow> Envelope \<Rightarrow> APIEnvelope" where
  "client_view tm env =
     \<lparr>Success_a = Success env, Data_a = map_option (marshal_payload tm) (Data env),
      Meta_a = map_option marshal_PageMeta (Meta env),
      Error_a = map_option (\<lambda>e. \<lparr>Code_a = ei_Code e, Message_a = ei_Message e\<rparr>) (Error_env env)\<rparr>"

lemma client_names [simp]:
  "field_is ''success'' ''success''" "field_is ''data'' ''data''" "field_is ''meta'' ''meta''" "field_is ''error'' ''error''"
  "field_is ''code'' ''code''" "field_is ''message'' ''message''"
  "\<not> field_is ''success'' ''data''" "\<not> field_is ''success'' ''meta''" "\<not> field_is ''success'' ''error''"
  "\<not> field_is ''data'' ''meta''" "\<not> field_is ''data'' ''error''" "\<not> field_is ''meta'' ''error''"
  "\<not> field_is ''code'' ''message''" "\<not> field_is ''code'' ''details''" "\<not> field_is ''message'' ''details''"
  by code_simp+

lemma unmarshal_marshal_Error:
  "\<exists>es. marshal_Error e = JObj es \<and>
     unmarshal_APIError es saved e0 = (saved, \<lparr>Code_a = ei_Code e, Message_a = ei_Message e\<rparr>)"
  by (cases e0) (simp add: marshal_Error_def unless_empty_def)

lemma decode_marshal_Envelope:
  "decode_APIEnvelope (marshal_Envelope tm env) = Inr (client_view tm env)"
proof -
  obtain es where "Error_env env \<noteq> None \<Longrightarrow> marshal_Error (the (Error_env env)) = JObj es \<and>
      unmarshal_APIError es None zero_APIError =
        (None, \<lparr>Code_a = ei_Code (the (Error_env env)), Message_a = ei_Message (the (Error_env env))\<rparr>)"
    using unmarshal_marshal_Error by blast
  then show ?thesis
    by (cases "Data env"; cases "Error_env env"; cases "Meta env")
      (simp_all add: decode_APIEnvelope_def marshal_Envelope_def unless_empty_def client_view_def zero_APIEnvelope_def)
qed

text \<open>The request that \<open>Do\<close> makes of its arguments.\<close>

definition sent_request :: "string \<Rightarrow> string \<Rightarrow> string \<Rightarrow> string \<Rightarrow> http_request" where
  "sent_request method target body bearer =
     \<lparr>rq_method = method, rq_target = target, rq_body = body,
      rq_header = (\<lambda>n. if n = ''Authorization'' \<and> bearer \<noteq> [] then ''Bearer '' @ bearer
                       else if n = ''Content-Type'' \<and> body \<noteq> [] then ''application/json'' else [])\<rparr>"

lemma test_Do_sends:
  assumes "tl_accept tc (sent_request method target body bearer) = Inr c" and "serve lib app c s = (c', s')"
  shows "test_Do tc lib app method target body bearer s =
    (if StatusCode c' \<noteq> 204 \<and> \<not> body_is_empty (RespBody c') then
       (case bind_result (body_json tc (RespBody c')) decode_APIEnvelope of
          Inl e \<Rightarrow> (Inl (''decode response: '' @ Error e), s')
        | Inr env \<Rightarrow> (Inr (c', env), s'))
     else (Inr (c', zero_APIEnvelope), s'))"
proof -
  have "(if bearer \<noteq> [] then Header_Set ''Authorization'' (''Bearer '' @ bearer)
      (if body \<noteq> [] then Header_Set ''Content-Type'' ''application/json'' (NewRequest method target body)
       else NewRequest method target [])
    else (if body \<noteq> [] then Header_Set ''Content-Type'' ''application/json'' (NewRequest method target body)
       else NewRequest method target [])) = sent_request method target body bearer"
    by (auto simp: sent_request_def NewRequest_def Header_Set_def)
  then show ?thesis using assms by (simp add: test_Do_def Let_def)
qed

text \<open>Every answer of the task API is an envelope, or it is empty with status 204.\<close>

definition readable :: "Ctx \<Rightarrow> bool" where
  "readable c \<longleftrightarrow> (\<exists>env. RespBody c = JSONEnvelope env) \<or> RespBody c = EmptyBody \<and> StatusCode c = 204"

lemma readable_error: "RespBody c = error_env e \<Longrightarrow> readable c"
  by (simp add: readable_def error_env_def)

lemma readable_answer:
  assumes "\<And>e c1 t. h c s = (None, c1, t) \<Longrightarrow> readable c1"
  shows "readable (fst (answer h c s))"
proof -
  obtain e c1 t where h: "h c s = (e, c1, t)" by (cases "h c s")
  show ?thesis
  proof (cases e)
    case None
    then show ?thesis using h assms by (simp add: answer_def)
  next
    case (Some x)
    obtain e' where "RespBody (fst (errorHandler x c1 t)) = error_env e'" using error_body by blast
    then show ?thesis using h Some readable_error by (simp add: answer_def)
  qed
qed

lemma readable_request: "readable (fst (run_request b repo (req_of op c) s))"
  unfolding run_request_of
  by (rule readable_answer, cases op)
    (auto simp: on_store_def task_Create_def task_List_def task_Get_def task_Update_def task_Delete_def OK_def
      Created_def OKWithMeta_def NoContent_def send_json_def set_status_def readable_def Let_def
      split: prod.splits sum.splits option.splits)

text \<open>C18: The test client reads what the handlers sent. For every request to the task API, through the
  whole app, \<open>Do\<close> sends its arguments, with the bearer and the content type exactly when there is
  a bearer and a body, and no test fails in it: an answer with status 204 is the zero envelope,
  every other one has an envelope, and \<open>Do\<close> returns exactly its success flag, data, meta block and
  the code and message of its error.\<close>

theorem client_reads_what_was_sent:
  assumes "libs_passing lib" and "jwt_contract j sig" and "requests_op op x c"
    and "tl_accept tc (sent_request method target body bearer) = Inr c"
    and "serve lib (New lib cfg db ping b j) c s = (c', s')"
  shows "\<exists>env. test_Do tc lib (New lib cfg db ping b j) method target body bearer s = (Inr (c', env), s') \<and>
    (if StatusCode c' = 204 then env = zero_APIEnvelope
     else \<exists>e. RespBody c' = JSONEnvelope e \<and> env = client_view (tl_time tc) e)"
proof -
  have "readable c'"
    using task_request_served [OF assms(1,2,3,5)]
  proof (elim disjE exE conjE)
    fix c1 s1 c2 s2
    assume "run_request b (NewRepository db) (req_of op c1) s1 = (c2, s2)"
      and "StatusCode c' = StatusCode c2" "RespBody c' = RespBody c2"
    then show ?thesis
      using readable_request [of b "NewRepository db" op c1 s1] by (simp add: readable_def)
  qed (simp_all add: sends_def readable_error)
  then show ?thesis
    unfolding test_Do_sends [OF assms(4,5)] readable_def
    by (auto simp: body_is_empty_def decode_marshal_Envelope)
qed

section \<open>The hypotheses can hold\<close>

definition sample_client :: test_lib where
  "sample_client =
     \<lparr>tl_accept = (\<lambda>rq. Inr ((sample_ctx (rq_method rq) (rq_target rq))\<lparr>Header := rq_header rq, ReqBody := rq_body rq\<rparr>)),
      tl_parse = (\<lambda>txt. Inl (OpaqueErr ''EOF'')), tl_time = (\<lambda>t. ''2026-01-01T00:00:00Z'')\<rparr>"

theorem client_reads_what_was_sent_witness:
  "\<exists>c' env s'. test_Do sample_client sample_libs sample_app ''GET'' ''/api/v1/tasks/7'' [] ''abc'' (sample_server one_task) =
      (Inr (c', env), s') \<and> (StatusCode c' \<noteq> 204 \<longrightarrow> (\<exists>e. RespBody c' = JSONEnvelope e \<and> Success_a env = Success e))"
proof -
  let ?c = "(sample_ctx ''GET'' ''/api/v1/tasks/7'')\<lparr>
    Header := rq_header (sent_request ''GET'' ''/api/v1/tasks/7'' [] ''abc''), ReqBody := []\<rparr>"
  have req: "requests_op OpGet ''7'' ?c"
    by (simp add: requests_op_def on_item_def segment_def sample_ctx_def)
  have accept: "tl_accept sample_client (sent_request ''GET'' ''/api/v1/tasks/7'' [] ''abc'') = Inr ?c"
    by (simp add: sample_client_def sent_request_def)
  obtain c' s' where out: "serve sample_libs sample_app ?c (sample_server one_task) = (c', s')" by fastforce
  note law = client_reads_what_was_sent [OF sample_libs.libs_passing_axioms sample_jwt.jwt_contract_axioms req accept
      out [unfolded sample_app_def]]
  show ?thesis
    using law unfolding sample_app_def by (force simp: client_view_def split: if_splits)
qed

end
