(* ===== verification/App_Invariant.thy ===== *)
theory App_Invariant
  imports App_Serve
begin

text \<open>
  What any requests can do to the tasks: every request to the app, to whatever path and by whatever
  client, is for the database at most one call of the task service. The invariants of the service
  are those of the running app, between any requests and while its clock and libraries move on.
\<close>

section \<open>Steps of the store\<close>

text \<open>A reflexive relation that the stack keeps to when its handlers do.\<close>

definition follows :: "('d \<Rightarrow> 'd \<Rightarrow> bool) \<Rightarrow> ('d, 'l) server handler \<Rightarrow> bool" where
  "follows step h \<longleftrightarrow> (\<forall>c s. step (Store s) (Store (snd (snd (h c s)))))"

definition follows_next :: "('d \<Rightarrow> 'd \<Rightarrow> bool) \<Rightarrow> ('d, 'l) server middleware \<Rightarrow> bool" where
  "follows_next step m \<longleftrightarrow> (\<forall>next. follows step next \<longrightarrow> follows step (m next))"

fun entry_follows :: "('d \<Rightarrow> 'd \<Rightarrow> bool) \<Rightarrow> ('d, 'l) entry \<Rightarrow> bool" where
  "entry_follows step (Use p m) = follows_next step m"
| "entry_follows step (Route mth p m) = follows_next step m"

lemma follows_refl: "reflp step \<Longrightarrow> (\<And>c s. Store (snd (snd (h c s))) = Store s) \<Longrightarrow> follows step h"
  by (simp add: follows_def reflpD)

lemma follows_hands_on:
  assumes "reflp step" and "hands_on Store m"
  shows "follows_next step m"
  unfolding follows_next_def follows_def
proof (intro allI impI)
  fix n :: "('a, 'b) server handler" and c s
  assume n: "\<forall>c s. step (Store s) (Store (snd (snd (n c s))))"
  from assms(2) consider "Store (snd (snd (m n c s))) = Store s"
    | c1 s1 where "Store s1 = Store s" "Store (snd (snd (m n c s))) = Store (snd (snd (n c1 s1)))"
    unfolding hands_on_def by metis
  then show "step (Store s) (Store (snd (snd (m n c s))))"
  proof cases
    case 1
    then show ?thesis using assms(1) by (simp add: reflpD)
  next
    case 2
    then show ?thesis using n by metis
  qed
qed

lemma follows_terminal: "follows step h \<Longrightarrow> follows_next step (terminal h)"
  by (simp add: follows_next_def terminal_def)

lemma follows_chain: "\<forall>m \<in> set ms. follows_next step m \<Longrightarrow> follows_next step (chain ms)"
  by (induction ms) (simp_all add: follows_next_def)

lemma follows_stack:
  assumes "reflp step" and "\<forall>e \<in> set es. entry_follows step e"
  shows "follows step (run_stack lib es)"
  using assms(2)
proof (induction es)
  case Nil
  show ?case by (rule follows_refl [OF assms(1)]) simp
next
  case (Cons e es)
  then have tail: "follows step (run_stack lib es)" by simp
  obtain p m mth where e: "e = Use p m \<or> e = Route mth p m" and m: "follows step (m (run_stack lib es))"
    using Cons.prems tail by (cases e) (auto simp: follows_next_def)
  from e tail m show ?case
    by (auto simp: follows_def split: option.split)
qed

lemma RequireAuth_hands_on: "hands_on Store (RequireAuth j svc clk)"
  unfolding hands_on_def
proof (intro allI)
  fix n c s
  show "Store (snd (snd (RequireAuth j svc clk n c s))) = Store s \<or>
      (\<exists>c1 s1. Header c1 = Header c \<and> Path c1 = Path c \<and> Store s1 = Store s \<and>
        Store (snd (snd (RequireAuth j svc clk n c s))) = Store (snd (snd (n c1 s1))))"
    by (auto simp: RequireAuth_def Let_def split: prod.split sum.split)
      (metis Ctx.ext_inject Ctx.surjective Ctx.update_convs(12))+
qed

text \<open>The whole app.\<close>

lemma follows_app:
  fixes lib :: "('d, 'l) libs"
  assumes lib: "libs_contract lib" and refl: "reflp step"
    and handlers: "\<And>op. follows step (on_store (handler_of b (NewRepository db) op) :: ('d, 'l) server handler)"
  shows "follows step (run_stack lib (New lib cfg db ping b j))"
proof -
  note hands = libs_contract.requestid [OF lib, THEN hands_on_observed(1)]
    libs_contract.recover [OF lib, THEN hands_on_observed(1)] libs_contract.helmet [OF lib, THEN hands_on_observed(1)]
    libs_contract.cors [OF lib, THEN hands_on_observed(1)] libs_contract.limiter [OF lib, THEN hands_on_observed(1)]
    prom_Handler_hands_on RequestLogger_hands_on RequireAuth_hands_on
  note on = follows_hands_on [OF refl]
  have metrics: "Store (snd (snd (lb_metrics lib c s))) = Store s" for c s
    using libs_contract.metrics [OF lib, of c s] by (simp add: observed_def)
  have probes: "follows step (Livez h)" "follows step (Readyz h)" "follows step (lb_metrics lib)"
    "follows step (openapiSpecHandler yaml)" for h :: "('d, 'l) HealthHandler" and yaml
    using metrics
    by (simp_all add: follows_refl [OF refl] Livez_def Readyz_def openapiSpecHandler_def split: option.split sum.split)
  have login: "follows step (auth_Login b j (demo_service cfg) :: ('d, 'l) server handler)"
    using Login_keeps [unfolded keeps_store_def] by (intro follows_refl [OF refl]) blast
  have tasks: "\<forall>e \<in> set (task_RegisterRoutes v1 b (taskService db) guard :: ('d, 'l) entry list). entry_follows step e"
    if "\<forall>m \<in> set guard. follows_next step m" for v1 guard
    using follows_chain [OF that] handlers [of OpCreate] handlers [of OpList] handlers [of OpGet]
      handlers [of OpUpdate] handlers [of OpDelete]
    by (auto simp: task_RegisterRoutes_def taskService_def follows_terminal Let_def)
  have auth: "follows_next step (chain [lb_limiter lib lc, terminal (auth_Login b j (demo_service cfg))])"
    if "lc_LimitReached lc = limit_reached" for lc :: "('d, 'l) limiter_config"
    using on [OF hands(5) [OF that]] follows_terminal [OF login] by (intro follows_chain) simp
  have open_tasks: "\<forall>e \<in> set (task_RegisterRoutes v1 b (taskService db) [] :: ('d, 'l) entry list). entry_follows step e"
    for v1 by (rule tasks) simp
  have guarded: "\<forall>e \<in> set (task_RegisterRoutes v1 b (taskService db) [RequireAuth j svc clk] :: ('d, 'l) entry list).
      entry_follows step e" for v1 svc and clk :: "('d, 'l) server \<Rightarrow> int"
    by (rule tasks) (simp add: on [OF hands(8)])
  show ?thesis
    by (rule follows_stack [OF refl])
      (simp add: New_def Let_def auth_RegisterRoutes_def on hands probes follows_terminal auth open_tasks guarded
        del: chain.simps)
qed

section \<open>The app refines the abstract store\<close>

text \<open>At most one call that the validation lets through, on a consistent database.\<close>

definition one_call ::
  "(gotime \<Rightarrow> gotime) \<Rightarrow> ('d \<Rightarrow> (go_uint \<rightharpoonup> Task)) \<Rightarrow> ('d \<Rightarrow> bool) \<Rightarrow> 'd \<Rightarrow> 'd \<Rightarrow> bool" where
  "one_call col rows ok d d' \<longleftrightarrow>
     (ok d \<longrightarrow> d' = d \<or>
        ok d' \<and> (\<exists>cl reply. call_ok cl \<and> task_spec col (rows d) cl reply (rows d')))"

lemma one_call_refl: "reflp (one_call col rows ok)"
  by (simp add: reflp_def one_call_def)

lemma handlers_one_call:
  assumes "gorm_contract db rows ok col" and "bind_contract b"
  shows "follows (one_call col rows ok) (on_store (handler_of b (NewRepository db) op) :: ('d, 'l) server handler)"
  unfolding follows_def
proof (intro allI)
  fix c and s :: "('d, 'l) server"
  let ?h = "on_store (handler_of b (NewRepository db) op) :: ('d, 'l) server handler" and ?r = "req_of op c"
  obtain c' s' where run: "run_request b (NewRepository db) ?r s = (c', s')" by fastforce
  then have store: "Store (snd (snd (?h c s))) = Store s'"
    using answer_store [of ?h c s] by (simp add: run_request_of)
  show "one_call col rows ok (Store s) (Store (snd (snd (?h c s))))"
    unfolding one_call_def store
  proof (intro impI)
    assume ok: "ok (Store s)"
    show "Store s' = Store s \<or> ok (Store s') \<and>
        (\<exists>cl reply. call_ok cl \<and> task_spec col (rows (Store s)) cl reply (rows (Store s')))"
    proof (cases "call_of b ?r")
      case (Inl e)
      then show ?thesis using api_refused [OF Inl run] by simp
    next
      case (Inr cl)
      obtain reply where "ok (Store s')" "task_spec col (rows (Store s)) cl reply (rows (Store s'))"
        by (rule api_step [OF assms(1) ok Inr run])
      then show ?thesis using bound_calls_ok [OF assms(2) Inr] by blast
    qed
  qed
qed

lemma served_one_call:
  assumes "libs_contract lib" and "gorm_contract db rows ok col" and "bind_contract b"
    and "serve lib (New lib cfg db ping b j) c s = (c', s')"
  shows "one_call col rows ok (Store s) (Store s')"
proof -
  have "Store s' = Store (snd (snd (run_stack lib (New lib cfg db ping b j) c s)))"
    using answer_store [of "run_stack lib (New lib cfg db ping b j)" c s] assms(4) by (simp add: serve_def)
  then show ?thesis
    using follows_app [OF assms(1) one_call_refl handlers_one_call [OF assms(2,3)], where cfg = cfg and j = j and ping = ping]
    by (simp add: follows_def)
qed

section \<open>The running app\<close>

text \<open>Any requests, while the clock and the libraries move on between them.\<close>

inductive app_reachable ::
  "('d, 'l) libs \<Rightarrow> ('d, 'l) entry list \<Rightarrow> ('d, 'l) server \<Rightarrow> ('d, 'l) server \<Rightarrow> bool" for lib app s0 where
  app_start: "app_reachable lib app s0 s0"
| app_request: "app_reachable lib app s0 s \<Longrightarrow> serve lib app c s = (c', s') \<Longrightarrow> app_reachable lib app s0 s'"
| app_tick: "app_reachable lib app s0 s \<Longrightarrow> Now s \<le> t \<Longrightarrow> app_reachable lib app s0 (s\<lparr>Now := t, LibState := l\<rparr>)"

inductive_cases app_reachableE: "app_reachable lib app s0 s"

text \<open>C7: The tasks stay valid whatever is sent. From a consistent database whose titles are valid (not
  empty, at most 200 characters), no sequence of requests to the app, to any paths, with any bodies and tokens
  and with any failures of the database in between, leads to one that is not; and whatever the
  next request is, it leaves the database as it is or is one step of the abstract map from ids to
  tasks, so that it changes at most one row.\<close>

theorem app_keeps_tasks_valid:
  assumes "libs_contract lib" and "gorm_contract db rows ok col" and "bind_contract b"
    and "ok (Store s0)" and "titles_ok (rows (Store s0))"
    and "app_reachable lib (New lib cfg db ping b j) s0 s"
    and "serve lib (New lib cfg db ping b j) c s = (c', s')"
  shows "ok (Store s) \<and> store_ok (rows (Store s)) \<and> titles_ok (rows (Store s)) \<and>
    (Store s' = Store s \<or> (\<exists>cl reply. call_ok cl \<and> task_spec col (rows (Store s)) cl reply (rows (Store s')))) \<and>
    (\<exists>i. \<forall>k. k \<noteq> i \<longrightarrow> rows (Store s') k = rows (Store s) k)"
proof -
  have valid: "ok (Store s) \<and> titles_ok (rows (Store s))"
    using assms(6)
  proof induction
    case (app_request s c c' s')
    then show ?case
      using served_one_call [OF assms(1-3) app_request.hyps(2)] task_spec_titles by (auto simp: one_call_def)
  qed (use assms(4,5) in simp_all)
  have "Store s' = Store s \<or> (\<exists>cl reply. call_ok cl \<and> task_spec col (rows (Store s)) cl reply (rows (Store s')))"
    using served_one_call [OF assms(1-3,7)] valid by (auto simp: one_call_def)
  then show ?thesis
    using valid gorm_contract.g_store [OF assms(2)] task_spec_frame by (metis (no_types))
qed

theorem app_keeps_tasks_valid_witness:
  "\<exists>s. app_reachable sample_libs (New sample_libs prod_config (sample_gorm ''postgres'') (\<lambda>s. None) sample_bind sample_jwt)
      (sample_server one_task) s \<and> titles_ok (tables_rows (Store s))"
proof -
  let ?app = "New sample_libs prod_config (sample_gorm ''postgres'') (\<lambda>s. None) sample_bind sample_jwt"
  have inv: "tables_inv (Store (sample_server one_task))" using sample_inv by simp
  have "tables_rows one_task i = Some t \<Longrightarrow> t = sample_task" for i t
    by (auto simp: tables_rows_def one_task_def split: if_splits)
  moreover have "title_ok (Title sample_task)" using title_ok_milk by (simp add: sample_task_def)
  ultimately have titles: "titles_ok (tables_rows (Store (sample_server one_task)))"
    unfolding titles_ok_def Store_sample by blast
  obtain c1 s1 where run: "serve sample_libs ?app (sample_ctx ''DELETE'' ''/api/v1/tasks/7'') (sample_server one_task) = (c1, s1)"
    by fastforce
  obtain c2 s2 where next_run: "serve sample_libs ?app (sample_ctx ''GET'' ''/livez'') s1 = (c2, s2)" by fastforce
  have reach: "app_reachable sample_libs ?app (sample_server one_task) s1"
    by (rule app_request [OF app_start run])
  show ?thesis
    using app_keeps_tasks_valid [OF sample_libs.libs_contract_axioms sample.gorm_contract_axioms
        sample_bind.bind_contract_axioms inv titles reach next_run] reach by blast
qed

end
