(* ===== verification/Net_Spec.thy ===== *)
theory Net_Spec
  imports Config
begin

text \<open>
  The trusted proxies of the configuration against a reference grammar: an IPv4 address is the
  text of four numbers up to 255 with dots between them, a block is an address, a slash and a
  prefix length up to 32.
\<close>

section \<open>Octets\<close>

text \<open>The checks of \<open>parseIPv4Fields\<close> on the digits of one field.\<close>

fun octet_ok :: "nat \<Rightarrow> nat \<Rightarrow> string \<Rightarrow> bool" where
  "octet_ok len v [] = True"
| "octet_ok len v (c # cs) \<longleftrightarrow>
     \<not> (len = 1 \<and> v = 0) \<and> dec_step v c \<le> 255 \<and> octet_ok (len + 1) (dec_step v c) cs"

lemma ipv4_fields_digits:
  assumes "list_all is_digit ds" and "ds \<noteq> []"
  shows "ipv4_fields first prevdot len v pos (ds @ rest) \<longleftrightarrow>
    octet_ok len v ds \<and> ipv4_fields False False (len + length ds) (foldl dec_step v ds) pos rest"
  using assms
proof (induction ds arbitrary: first prevdot len v)
  case (Cons c ds)
  then obtain d where d: "digit_val c = Some d" by (auto simp: is_digit_iff)
  show ?case
    using Cons d by (cases "ds = []") (auto simp: Let_def dec_step_digit [OF d] mult.commute)
qed simp

lemma octet_ok_value:
  assumes "octet_ok len v ds" and "ds \<noteq> []"
  shows "foldl dec_step v ds \<le> 255"
  using assms
proof (induction len v ds rule: octet_ok.induct)
  case (2 len v c cs)
  then show ?case by (cases "cs = []") auto
qed simp

lemma digit_char_val: "digit_val c = Some d \<Longrightarrow> digit_char d = c"
  by (auto simp: digit_val_def digit_char_def split: if_splits)

text \<open>A numeral without a leading zero is the text of its value.\<close>

lemma dec_digits_foldl:
  assumes "list_all is_digit ds" and "0 < n"
  shows "dec_digits (foldl dec_step n ds) = dec_digits n @ ds"
  using assms
proof (induction ds arbitrary: n)
  case (Cons c ds)
  then obtain d where d: "digit_val c = Some d" by (auto simp: is_digit_iff)
  have "dec_digits (10 * n + d) = dec_digits n @ [c]"
    using Cons.prems(2) digit_val_bound [OF d] digit_char_val [OF d]
    by (subst dec_digits.simps) (simp add: div_mult_self3 mod_mult_self3)
  then show ?case using Cons by (simp add: dec_step_digit [OF d])
qed simp

lemma octet_first:
  assumes "digit_val c = Some d" and "list_all is_digit ds"
  shows "octet_ok 0 0 (c # ds) \<Longrightarrow> c # ds = dec_digits (dec_value (c # ds))"
proof -
  assume ok: "octet_ok 0 0 (c # ds)"
  have c: "dec_digits d = [c]"
    using digit_val_bound [OF assms(1)] digit_char_val [OF assms(1)] by (subst dec_digits.simps) simp
  show "c # ds = dec_digits (dec_value (c # ds))"
  proof (cases "d = 0")
    case True
    then have "ds = []" using ok by (cases ds) (auto simp: dec_step_digit [OF assms(1)])
    then show ?thesis using c by (simp add: dec_value_def dec_step_digit [OF assms(1)])
  next
    case False
    then show ?thesis
      using dec_digits_foldl [OF assms(2), of d] c by (simp add: dec_value_def dec_step_digit [OF assms(1)])
  qed
qed

lemma octet_ok_grows:
  assumes "list_all is_digit ds" and "foldl dec_step v ds \<le> 255" and "0 < v \<or> ds = []"
  shows "octet_ok len v ds"
  using assms
proof (induction ds arbitrary: len v)
  case (Cons c ds)
  have "dec_step v c \<le> foldl dec_step (dec_step v c) ds" by (rule dec_foldl_mono)
  then have "dec_step v c \<le> 255" using Cons.prems(2) by simp
  moreover have "0 < dec_step v c" using Cons.prems(3) by (simp add: dec_step_def)
  ultimately show ?case using Cons by simp
qed simp

lemma dec_digits_hd: "0 < n \<Longrightarrow> hd (dec_digits n) \<noteq> CHR ''0''"
proof (induction n rule: dec_digits.induct)
  case (1 n)
  have "digit_char n \<noteq> CHR ''0''" if "n < 10"
  proof
    assume "digit_char n = CHR ''0''"
    then have "digit_val (digit_char n) = Some 0" by (simp add: digit_val_def)
    with that "1.prems" show False by (simp add: digit_val_digit_char)
  qed
  moreover have "0 < n div 10" if "\<not> n < 10" using that by simp
  ultimately show ?case using "1.IH" by (subst dec_digits.simps) simp
qed

text \<open>The fields the parser takes are the texts of the numbers up to 255.\<close>

lemma octet_iff:
  assumes "list_all is_digit ds" and "ds \<noteq> []"
  shows "octet_ok 0 0 ds \<longleftrightarrow> (\<exists>n \<le> 255. ds = dec_digits n)"
proof
  assume ok: "octet_ok 0 0 ds"
  obtain c cs where ds: "ds = c # cs" using assms(2) by (cases ds) auto
  with assms(1) obtain d where d: "digit_val c = Some d" by (auto simp: is_digit_iff)
  have "ds = dec_digits (dec_value ds)" using octet_first [OF d] ok assms(1) by (simp add: ds)
  moreover have "dec_value ds \<le> 255" using octet_ok_value [OF ok assms(2)] by (simp add: dec_value_def)
  ultimately show "\<exists>n \<le> 255. ds = dec_digits n" by blast
next
  assume "\<exists>n \<le> 255. ds = dec_digits n"
  then obtain n where n: "n \<le> 255" "ds = dec_digits n" by blast
  have digits: "list_all is_digit ds" "dec_value ds = n" using dec_digits_correct n(2) by auto
  obtain c cs where ds: "ds = c # cs" using assms(2) by (cases ds) auto
  with digits obtain d where d: "digit_val c = Some d" by (auto simp: is_digit_iff)
  have val: "foldl dec_step d cs = n" using digits(2) by (simp add: dec_value_def ds dec_step_digit [OF d])
  show "octet_ok 0 0 ds"
  proof (cases "n < 10")
    case True
    then have "cs = []" using n(2) ds by (subst (asm) dec_digits.simps) simp
    then show ?thesis using d digit_val_bound [OF d] by (simp add: ds dec_step_digit [OF d])
  next
    case False
    have "0 < d \<or> cs = []"
    proof -
      have "c \<noteq> CHR ''0''" using dec_digits_hd [of n] n(2) ds False by (metis list.sel(1) not_less_zero gr_zeroI zero_less_numeral)
      moreover have "digit_char 0 = CHR ''0''" by (simp add: digit_char_def char_of_def bit_iff_odd)
      ultimately have "d \<noteq> 0" using digit_char_val [OF d] by (intro notI) simp
      then show ?thesis by simp
    qed
    then have "octet_ok 1 d cs"
      using octet_ok_grows [of cs d 1] val n(1) digits(1) by (simp add: ds)
    then show ?thesis using d digit_val_bound [OF d] by (simp add: ds dec_step_digit [OF d])
  qed
qed

section \<open>Addresses\<close>

definition dotted :: "nat \<Rightarrow> nat \<Rightarrow> nat \<Rightarrow> nat \<Rightarrow> string" where
  "dotted a b c d = dec_digits a @ ''.'' @ dec_digits b @ ''.'' @ dec_digits c @ ''.'' @ dec_digits d"

definition ipv4_text :: "string \<Rightarrow> bool" where
  "ipv4_text s \<longleftrightarrow> (\<exists>a \<le> 255. \<exists>b \<le> 255. \<exists>c \<le> 255. \<exists>d \<le> 255. s = dotted a b c d)"

text \<open>One field, and the rest after it.\<close>

lemma ipv4_field:
  assumes "first \<or> prevdot" and "s \<noteq> []"
  shows "ipv4_fields first prevdot 0 0 pos s \<longleftrightarrow>
    (\<exists>n rest. n \<le> 255 \<and> s = dec_digits n @ rest \<and>
       (if rest = [] then 3 \<le> pos
        else hd rest = CHR ''.'' \<and> tl rest \<noteq> [] \<and> pos \<noteq> 3 \<and> ipv4_fields False True 0 0 (pos + 1) (tl rest)))"
proof -
  have dot: "digit_val (CHR ''.'') = None" by (simp add: digit_val_def)
  have tail: "ipv4_fields False False len v pos rest \<longleftrightarrow>
      (if rest = [] then 3 \<le> pos
       else hd rest = CHR ''.'' \<and> tl rest \<noteq> [] \<and> pos \<noteq> 3 \<and> ipv4_fields False True 0 0 (pos + 1) (tl rest))"
    if "rest = [] \<or> \<not> is_digit (hd rest)" for len v rest
    using that by (cases rest) (auto simp: is_digit_def)
  let ?ds = "takeWhile is_digit s" and ?rest = "dropWhile is_digit s"
  have digits: "list_all is_digit ?ds" by (auto simp: list_all_iff dest: set_takeWhileD)
  have rest: "?rest = [] \<or> \<not> is_digit (hd ?rest)" using hd_dropWhile by blast
  have s: "s = ?ds @ ?rest" by simp
  show ?thesis
  proof
    assume l: "ipv4_fields first prevdot 0 0 pos s"
    have "?ds \<noteq> []"
    proof
      assume "?ds = []"
      then have "\<not> is_digit (hd s)" using assms(2) by (cases s) (auto split: if_splits)
      then show False using l assms by (cases s) (auto simp: is_digit_def split: if_splits)
    qed
    then show "\<exists>n rest. n \<le> 255 \<and> s = dec_digits n @ rest \<and>
       (if rest = [] then 3 \<le> pos
        else hd rest = CHR ''.'' \<and> tl rest \<noteq> [] \<and> pos \<noteq> 3 \<and> ipv4_fields False True 0 0 (pos + 1) (tl rest))"
      using l ipv4_fields_digits [OF digits, of first prevdot 0 0 pos ?rest] octet_iff [OF digits] tail [OF rest]
      by (metis s)
  next
    assume "\<exists>n rest. n \<le> 255 \<and> s = dec_digits n @ rest \<and>
       (if rest = [] then 3 \<le> pos
        else hd rest = CHR ''.'' \<and> tl rest \<noteq> [] \<and> pos \<noteq> 3 \<and> ipv4_fields False True 0 0 (pos + 1) (tl rest))"
    then obtain n r where n: "n \<le> 255" "s = dec_digits n @ r" "if r = [] then 3 \<le> pos
        else hd r = CHR ''.'' \<and> tl r \<noteq> [] \<and> pos \<noteq> 3 \<and> ipv4_fields False True 0 0 (pos + 1) (tl r)"
      by blast
    have "r = [] \<or> \<not> is_digit (hd r)" using n(3) dot by (auto simp: is_digit_def split: if_splits)
    then show "ipv4_fields first prevdot 0 0 pos s"
      using n tail ipv4_fields_digits [of "dec_digits n" first prevdot 0 0 pos r] octet_iff [of "dec_digits n"]
        dec_digits_correct by auto
  qed
qed

text \<open>Four fields.\<close>

lemma dot_rest:
  "(if r = [] then P else hd r = CHR ''.'' \<and> Q (tl r)) \<longleftrightarrow> r = [] \<and> P \<or> (\<exists>t. r = CHR ''.'' # t \<and> Q t)"
  by (cases r) auto

lemma ipv4_field_dot:
  assumes "first \<or> prevdot" and "pos < 3"
  shows "s \<noteq> [] \<and> ipv4_fields first prevdot 0 0 pos s \<longleftrightarrow>
    (\<exists>n \<le> 255. \<exists>t. s = dec_digits n @ ''.'' @ t \<and> t \<noteq> [] \<and> ipv4_fields False True 0 0 (pos + 1) t)"
proof
  assume l: "s \<noteq> [] \<and> ipv4_fields first prevdot 0 0 pos s"
  from l [THEN conjunct2] obtain n r where n: "n \<le> 255" "s = dec_digits n @ r" and "if r = [] then 3 \<le> pos
      else hd r = CHR ''.'' \<and> tl r \<noteq> [] \<and> pos \<noteq> 3 \<and> ipv4_fields False True 0 0 (pos + 1) (tl r)"
    unfolding ipv4_field [OF assms(1) l [THEN conjunct1]] by blast
  with assms(2) have r: "r \<noteq> []" "hd r = CHR ''.''" "tl r \<noteq> []" "ipv4_fields False True 0 0 (pos + 1) (tl r)"
    by (simp_all del: ipv4_fields.simps split: if_splits)
  then have "s = dec_digits n @ ''.'' @ tl r" using n(2) by (metis append_Cons append_Nil list.collapse)
  with n(1) r(3,4) show "\<exists>n \<le> 255. \<exists>t. s = dec_digits n @ ''.'' @ t \<and> t \<noteq> [] \<and> ipv4_fields False True 0 0 (pos + 1) t"
    by blast
next
  assume "\<exists>n \<le> 255. \<exists>t. s = dec_digits n @ ''.'' @ t \<and> t \<noteq> [] \<and> ipv4_fields False True 0 0 (pos + 1) t"
  then obtain n t where n: "n \<le> 255" "s = dec_digits n @ ''.'' @ t" "t \<noteq> []" "ipv4_fields False True 0 0 (pos + 1) t"
    by blast
  then have "s \<noteq> []" by simp
  moreover have "ipv4_fields first prevdot 0 0 pos s"
    unfolding ipv4_field [OF assms(1) \<open>s \<noteq> []\<close>]
    by (rule exI [of _ n], rule exI [of _ "''.'' @ t"]) (use n assms(2) in \<open>simp del: ipv4_fields.simps\<close>)
  ultimately show "s \<noteq> [] \<and> ipv4_fields first prevdot 0 0 pos s" ..
qed

lemma ipv4_field_last:
  assumes "first \<or> prevdot"
  shows "s \<noteq> [] \<and> ipv4_fields first prevdot 0 0 3 s \<longleftrightarrow> (\<exists>n \<le> 255. s = dec_digits n)"
proof (cases "s = []")
  case False
  show ?thesis
    unfolding ipv4_field [OF assms False] dot_rest using False by (auto simp del: ipv4_fields.simps)
qed (metis dec_digits_nonempty)

lemma parseIPv4Fields_iff: "parseIPv4Fields s \<longleftrightarrow> ipv4_text s"
proof -
  have one: "(0::nat) + 1 = 1" "(1::nat) + 1 = 2" "(2::nat) + 1 = 3" by simp_all
  have "parseIPv4Fields s \<longleftrightarrow> s \<noteq> [] \<and> ipv4_fields True False 0 0 0 s"
    by (cases "s = []") (simp_all add: parseIPv4Fields_def)
  also have "\<dots> \<longleftrightarrow> (\<exists>a \<le> 255. \<exists>t. s = dec_digits a @ ''.'' @ t \<and>
      t \<noteq> [] \<and> ipv4_fields False True 0 0 1 t)"
    using ipv4_field_dot [of True False 0 s, unfolded one] by (simp del: ipv4_fields.simps)
  also have "\<dots> \<longleftrightarrow> (\<exists>a \<le> 255. \<exists>t. s = dec_digits a @ ''.'' @ t \<and>
      (\<exists>b \<le> 255. \<exists>u. t = dec_digits b @ ''.'' @ u \<and> u \<noteq> [] \<and> ipv4_fields False True 0 0 2 u))"
    using ipv4_field_dot [of False True 1, unfolded one] by (simp del: ipv4_fields.simps)
  also have "\<dots> \<longleftrightarrow> (\<exists>a \<le> 255. \<exists>t. s = dec_digits a @ ''.'' @ t \<and>
      (\<exists>b \<le> 255. \<exists>u. t = dec_digits b @ ''.'' @ u \<and>
        (\<exists>c \<le> 255. \<exists>v. u = dec_digits c @ ''.'' @ v \<and> v \<noteq> [] \<and> ipv4_fields False True 0 0 3 v)))"
    using ipv4_field_dot [of False True 2, unfolded one] by (simp del: ipv4_fields.simps)
  also have "\<dots> \<longleftrightarrow> (\<exists>a \<le> 255. \<exists>t. s = dec_digits a @ ''.'' @ t \<and>
      (\<exists>b \<le> 255. \<exists>u. t = dec_digits b @ ''.'' @ u \<and>
        (\<exists>c \<le> 255. \<exists>v. u = dec_digits c @ ''.'' @ v \<and> (\<exists>d \<le> 255. v = dec_digits d))))"
    using ipv4_field_last [of False True] by (simp del: ipv4_fields.simps)
  also have "\<dots> \<longleftrightarrow> ipv4_text s"
    unfolding ipv4_text_def dotted_def by blast
  finally show ?thesis .
qed

lemma digits_chars: "list_all is_digit ds \<Longrightarrow> c \<in> set ds \<Longrightarrow> c \<noteq> CHR ''.'' \<and> c \<noteq> CHR '':'' \<and> c \<noteq> CHR ''%'' \<and> c \<noteq> CHR ''/''"
  by (auto simp: list_all_iff is_digit_def digit_val_def split: if_splits)

lemma ParseAddr_loop_skip:
  assumes "\<And>c. c \<in> set ds \<Longrightarrow> c \<noteq> CHR ''.'' \<and> c \<noteq> CHR '':'' \<and> c \<noteq> CHR ''%''"
  shows "ParseAddr_loop s (ds @ t) = ParseAddr_loop s t"
  using assms by (induction ds) auto

text \<open>Without a colon, an address is IPv4 text.\<close>

lemma ParseAddr_ipv4:
  assumes "CHR '':'' \<notin> set s"
  shows "ParseAddr s = (if ipv4_text s then Some (32, []) else None)"
proof -
  have loop: "ParseAddr_loop s t = None \<or> ParseAddr_loop s t = (if ipv4_text s then Some (32, []) else None)"
    if "CHR '':'' \<notin> set t" for t
    using that by (induction t) (auto simp: parseIPv4Fields_iff)
  show ?thesis
  proof (cases "ipv4_text s")
    case True
    then obtain a t where s: "s = dec_digits a @ CHR ''.'' # t"
      by (auto simp: ipv4_text_def dotted_def)
    have "ParseAddr_loop x (dec_digits a @ t) = ParseAddr_loop x t" for x t
      using digits_chars dec_digits_correct by (intro ParseAddr_loop_skip) blast
    then have "ParseAddr_loop s s = ParseAddr_loop s (CHR ''.'' # t)"
      by (rule trans [OF arg_cong [OF s]])
    then show ?thesis using True by (simp add: ParseAddr_def parseIPv4Fields_iff)
  next
    case False
    then show ?thesis using loop [OF assms] by (auto simp: ParseAddr_def)
  qed
qed

section \<open>Blocks\<close>

definition ipv4_block :: "string \<Rightarrow> bool" where
  "ipv4_block s \<longleftrightarrow> (\<exists>addr bits. s = addr @ ''/'' @ bits \<and> ipv4_text addr \<and>
     bits \<noteq> [] \<and> list_all is_digit bits \<and> dec_value bits \<le> 32)"

lemma cut_at_Some: "cut_at x s = Some (a, b) \<longleftrightarrow> s = a @ x # b \<and> x \<notin> set a"
proof (induction s arbitrary: a b)
  case (Cons c s)
  show ?case
  proof (cases "c = x")
    case True
    then show ?thesis by (cases a) auto
  next
    case False
    then have "cut_at x (c # s) = Some (a, b) \<longleftrightarrow> (\<exists>a'. a = c # a' \<and> cut_at x s = Some (a', b))"
      by (auto split: option.split)
    then show ?thesis using Cons.IH False by (cases a) auto
  qed
qed simp

lemma dtoi_loop_all:
  "dtoi_loop n s = Some (m, []) \<longleftrightarrow>
     list_all is_digit s \<and> m = foldl dec_step n s \<and> (s = [] \<or> m < 0xFFFFFF)"
proof (induction n s rule: dtoi_loop.induct)
  case (2 n c s)
  show ?case
  proof (cases "digit_val c")
    case (Some d)
    have "n * 10 + d \<le> foldl dec_step (n * 10 + d) s" by (rule dec_foldl_mono)
    then show ?thesis
      using 2 [OF Some refl] Some
      by (auto simp: Let_def is_digit_def dec_step_digit [OF Some] mult.commute)
  qed (simp add: is_digit_def)
qed auto

lemma dtoi_all:
  "dtoi s = Some (m, []) \<longleftrightarrow> s \<noteq> [] \<and> list_all is_digit s \<and> m = dec_value s \<and> m < 0xFFFFFF"
  by (cases s) (auto simp: dtoi_def dtoi_loop_all dec_value_def is_digit_def simp del: dtoi_loop.simps)

lemma ipv4_text_chars:
  assumes "ipv4_text s"
  shows "CHR ''/'' \<notin> set s" and "CHR '':'' \<notin> set s"
proof -
  have "CHR ''/'' \<notin> set (dec_digits n)" "CHR '':'' \<notin> set (dec_digits n)" for n
    using digits_chars [of "dec_digits n"] dec_digits_correct [of n] by blast+
  then show "CHR ''/'' \<notin> set s" "CHR '':'' \<notin> set s"
    using assms by (auto simp: ipv4_text_def dotted_def)
qed

lemma ParseCIDR_ipv4:
  assumes "CHR '':'' \<notin> set s"
  shows "ParseCIDR s \<longleftrightarrow> ipv4_block s"
proof
  assume l: "ParseCIDR s"
  then obtain addr msk where cut: "cut_at (CHR ''/'') s = Some (addr, msk)"
    by (auto simp: ParseCIDR_def split: option.splits)
  then have s: "s = addr @ CHR ''/'' # msk" by (simp add: cut_at_Some)
  with assms have "ParseAddr addr = (if ipv4_text addr then Some (32, []) else None)"
    by (intro ParseAddr_ipv4) simp
  then have addr: "ipv4_text addr" "\<exists>n \<le> 32. dtoi msk = Some (n, [])"
    using l cut by (auto simp: ParseCIDR_def split: option.splits if_splits)
  then have "msk \<noteq> [] \<and> list_all is_digit msk \<and> dec_value msk \<le> 32" by (auto simp: dtoi_all)
  with s addr(1) show "ipv4_block s" by (auto simp: ipv4_block_def)
next
  assume "ipv4_block s"
  then obtain addr msk where s: "s = addr @ CHR ''/'' # msk" and addr: "ipv4_text addr"
    and msk: "msk \<noteq> []" "list_all is_digit msk" "dec_value msk \<le> 32"
    by (auto simp: ipv4_block_def)
  have "cut_at (CHR ''/'') s = Some (addr, msk)"
    using s ipv4_text_chars(1) [OF addr] by (simp add: cut_at_Some)
  moreover have "ParseAddr addr = Some (32, [])"
    using ParseAddr_ipv4 [OF ipv4_text_chars(2) [OF addr]] addr by simp
  moreover have "dtoi msk = Some (dec_value msk, [])" using msk by (simp add: dtoi_all)
  ultimately show "ParseCIDR s" using msk(3) by (simp add: ParseCIDR_def)
qed

lemma ParseIP_ipv4: "CHR '':'' \<notin> set s \<Longrightarrow> ParseIP s \<longleftrightarrow> ipv4_text s"
  by (simp add: ParseIP_def ParseAddr_ipv4)

section \<open>The trusted proxies\<close>

text \<open>The check of the trusted proxies is exact on IPv4. Among entries without a colon it reports, in
  their order, exactly those that are neither the dotted text of an IPv4 address, four decimal
  numbers up to 255 without leading zeros, nor such an address with a slash and a prefix length
  up to 32; all others pass.\<close>

theorem ipv4_proxies_checked_exactly:
  assumes "\<forall>p \<in> set proxies. CHR '':'' \<notin> set p"
  shows "proxy_problems [] proxies =
    map (\<lambda>p. (''TRUST_PROXY_PROXIES entry %q is not a valid IP or CIDR'', [ArgS p]))
      (filter (\<lambda>p. \<not> ipv4_text p \<and> \<not> ipv4_block p) proxies)"
proof -
  have "proxy_problems ps proxies = ps @
    map (\<lambda>p. (''TRUST_PROXY_PROXIES entry %q is not a valid IP or CIDR'', [ArgS p]))
      (filter (\<lambda>p. \<not> ipv4_text p \<and> \<not> ipv4_block p) proxies)" for ps
    using assms by (induction ps proxies rule: proxy_problems.induct) (auto simp: ParseIP_ipv4 ParseCIDR_ipv4)
  from this [of "[]"] show ?thesis by simp
qed

theorem ipv4_proxies_checked_exactly_witness:
  "\<not> ipv4_text ''10.0.0.256'' \<and> \<not> ipv4_block ''10.0.0.256''"
proof -
  have "proxy_problems [] [''10.0.0.256''] \<noteq> []"
    by (simp add: net_eval)
  then show ?thesis
    using ipv4_proxies_checked_exactly [of "[''10.0.0.256'']"] by (simp split: if_splits)
qed

end
