(* ===== verification/Net6_Spec.thy ===== *)
theory Net6_Spec
  imports Net_Spec
begin

text \<open>
  IPv6 among the trusted proxies, against a reference grammar: eight groups of one to four
  hexadecimal digits with colons between them, of which the last two may be written as an IPv4
  address, and where one run of groups may be left out with a double colon. With the IPv4 part this
  gives the exact language of \<open>net.ParseIP\<close> and \<open>net.ParseCIDR\<close>.
\<close>

section \<open>The grammar\<close>

definition hex_group :: "string \<Rightarrow> bool" where
  "hex_group g \<longleftrightarrow> g \<noteq> [] \<and> length g \<le> 4 \<and> list_all is_hex g"

fun colons :: "string list \<Rightarrow> string" where
  "colons [] = []"
| "colons [g] = g"
| "colons (g # gs) = g @ '':'' @ colons gs"

text \<open>The texts of \<open>n\<close> groups, where an IPv4 address at the end counts for two.\<close>

definition groups_text :: "nat \<Rightarrow> string \<Rightarrow> bool" where
  "groups_text n s \<longleftrightarrow>
     (\<exists>gs. list_all hex_group gs \<and> gs \<noteq> [] \<and> length gs = n \<and> s = colons gs) \<or>
     (\<exists>gs v4. list_all hex_group gs \<and> ipv4_text v4 \<and> length gs + 2 = n \<and> s = colons (gs @ [v4]))"

definition ipv6_text :: "string \<Rightarrow> bool" where
  "ipv6_text s \<longleftrightarrow> groups_text 8 s \<or>
     (\<exists>left right n. list_all hex_group left \<and> s = colons left @ ''::'' @ right \<and>
        (right = [] \<and> n = 0 \<or> groups_text n right) \<and> length left + n \<le> 7)"

text \<open>The grammar by its first group.\<close>

lemma colons_Cons: "gs \<noteq> [] \<Longrightarrow> colons (g # gs) = g @ '':'' @ colons gs"
  by (cases gs) auto

lemma groups_text_0 [simp]: "\<not> groups_text 0 s"
  by (simp add: groups_text_def)

lemma groups_text_first:
  "groups_text n s \<longleftrightarrow>
     n = 1 \<and> hex_group s \<or> n = 2 \<and> ipv4_text s \<or>
     (\<exists>g t m. n = Suc m \<and> hex_group g \<and> s = g @ '':'' @ t \<and> groups_text m t)"
  (is "_ \<longleftrightarrow> ?r")
proof
  assume "groups_text n s"
  then consider gs where "list_all hex_group gs" "gs \<noteq> []" "length gs = n" "s = colons gs"
    | gs v where "list_all hex_group gs" "ipv4_text v" "length gs + 2 = n" "s = colons (gs @ [v])"
    unfolding groups_text_def by blast
  then show ?r
  proof cases
    case 1
    then obtain g hs where gs: "gs = g # hs" by (cases gs) auto
    show ?thesis
    proof (cases "hs = []")
      case False
      then have "groups_text (length hs) (colons hs)" using 1(1) gs by (auto simp: groups_text_def)
      then show ?thesis using 1 gs colons_Cons [OF False] by fastforce
    qed (use 1 gs in simp)
  next
    case 2
    show ?thesis
    proof (cases gs)
      case (Cons g hs)
      then have "groups_text (length hs + 2) (colons (hs @ [v]))" using 2(1,2) by (auto simp: groups_text_def)
      then show ?thesis using 2 Cons colons_Cons [of "hs @ [v]" g] by fastforce
    qed (use 2 in simp)
  qed
next
  assume ?r
  then consider "n = 1" "hex_group s" | "n = 2" "ipv4_text s"
    | g t m where "n = Suc m" "hex_group g" "s = g @ '':'' @ t" "groups_text m t" by blast
  then show "groups_text n s"
  proof cases
    case 1
    then show ?thesis by (auto simp: groups_text_def intro!: exI [of _ "[s]"])
  next
    case 2
    then show ?thesis unfolding groups_text_def by (intro disjI2 exI [of _ "[]"] exI [of _ s]) simp
  next
    case (3 g t m)
    from 3(4) consider gs where "list_all hex_group gs" "gs \<noteq> []" "length gs = m" "t = colons gs"
      | gs v where "list_all hex_group gs" "ipv4_text v" "length gs + 2 = m" "t = colons (gs @ [v])"
      unfolding groups_text_def by blast
    then show ?thesis
    proof cases
      case (1 gs)
      then show ?thesis
        unfolding groups_text_def using 3(1-3) colons_Cons [of gs g] by (intro disjI1 exI [of _ "g # gs"]) simp
    next
      case (2 gs v)
      then show ?thesis
        unfolding groups_text_def using 3(1-3) colons_Cons [of "gs @ [v]" g]
        by (intro disjI2 exI [of _ "g # gs"] exI [of _ v]) simp
    qed
  qed
qed

text \<open>The leading digits and what follows them stay together below.\<close>

declare takeWhile_eq_Nil_iff [simp del] dropWhile_eq_Nil_conv [simp del] takeWhile_eq_all_conv [simp del]

text \<open>The characters that the parser looks at.\<close>

lemma hex_chars: "is_hex c \<Longrightarrow> c \<noteq> CHR ''.'' \<and> c \<noteq> CHR '':'' \<and> c \<noteq> CHR ''%'' \<and> c \<noteq> CHR ''/''"
  by (auto simp: is_hex_def hex_val_def)

lemma not_hex [simp]: "\<not> is_hex (CHR ''.'')" "\<not> is_hex (CHR '':'')" "\<not> is_hex (CHR ''%'')" "\<not> is_hex (CHR ''/'')"
  using hex_chars by blast+

lemma digit_is_hex: "is_digit c \<Longrightarrow> is_hex c"
  by (auto simp: is_digit_def digit_val_def is_hex_def hex_val_def Let_def split: if_splits)

lemma dec_digits_length: "n < 10 ^ Suc k \<Longrightarrow> length (dec_digits n) \<le> Suc k"
proof (induction k arbitrary: n)
  case (Suc k)
  then have "n div 10 < 10 ^ Suc k" by (simp add: less_mult_imp_div_less mult.commute)
  then have "length (dec_digits (n div 10)) \<le> Suc k" by (rule Suc.IH)
  then show ?case by (subst dec_digits.simps) simp
qed (subst dec_digits.simps, simp)

lemma octet_length: "n \<le> 255 \<Longrightarrow> length (dec_digits n) \<le> 4"
  using dec_digits_length [of n 3] by simp

lemma octet_group: "n \<le> 255 \<Longrightarrow> hex_group (dec_digits n)"
  using octet_length dec_digits_correct [of n] digit_is_hex by (auto simp: hex_group_def list_all_iff)

lemma group_then:
  assumes "hex_group g" and "rest = [] \<or> \<not> is_hex (hd rest)"
  shows "takeWhile is_hex (g @ rest) = g" and "dropWhile is_hex (g @ rest) = rest"
proof -
  have g: "is_hex c" if "c \<in> set g" for c using assms(1) that by (simp add: hex_group_def list_all_iff)
  have rest: "takeWhile is_hex rest = [] \<and> dropWhile is_hex rest = rest" using assms(2) by (cases rest) simp_all
  show "takeWhile is_hex (g @ rest) = g" "dropWhile is_hex (g @ rest) = rest"
    using takeWhile_append2 [of g is_hex rest] dropWhile_append2 [of g is_hex rest] g rest by simp_all
qed

text \<open>The grammar by what stands after the first group.\<close>

lemma groups_text_by_rest:
  "groups_text n s \<longleftrightarrow> hex_group (takeWhile is_hex s) \<and>
     (case dropWhile is_hex s of
        [] \<Rightarrow> n = 1
      | c # cs \<Rightarrow> if c = CHR ''.'' then n = 2 \<and> ipv4_text s
                else c = CHR '':'' \<and> (\<exists>m. n = Suc m \<and> groups_text m cs))" (is "_ \<longleftrightarrow> ?r")
proof
  assume "groups_text n s"
  then consider "n = 1" "hex_group s" | "n = 2" "ipv4_text s"
    | g t m where "n = Suc m" "hex_group g" "s = g @ '':'' @ t" "groups_text m t"
    unfolding groups_text_first [of n s] by blast
  then show ?r
  proof cases
    case 1
    have "takeWhile is_hex s = s" "dropWhile is_hex s = []" using group_then [OF 1(2), of "[]"] by (simp_all only: append_Nil2 simp_thms)
    then show ?thesis using 1 by simp
  next
    case 2
    then obtain a t where a: "a \<le> 255" "s = dec_digits a @ CHR ''.'' # t"
      by (auto simp: ipv4_text_def dotted_def)
    then show ?thesis using 2 group_then [OF octet_group [OF a(1)], of "CHR ''.'' # t"] octet_group by auto
  next
    case (3 g t m)
    then show ?thesis using group_then [OF 3(2), of "'':'' @ t"] by simp
  qed
next
  assume r: ?r
  have s: "s = takeWhile is_hex s @ dropWhile is_hex s" by simp
  show "groups_text n s"
  proof (cases "dropWhile is_hex s")
    case Nil
    then have "takeWhile is_hex s = s" using s by (metis append_Nil2)
    then show ?thesis using r Nil unfolding groups_text_first [of n s] by simp
  next
    case (Cons c cs)
    show ?thesis
    proof (cases "c = CHR ''.''")
      case True
      then show ?thesis using r Cons unfolding groups_text_first [of n s] by simp
    next
      case False
      then obtain m where "c = CHR '':''" "n = Suc m" "groups_text m cs" using r Cons by auto
      then have "s = takeWhile is_hex s @ '':'' @ cs" using s Cons by simp
      then show ?thesis
        unfolding groups_text_first [of n s] using r \<open>n = Suc m\<close> \<open>groups_text m cs\<close> by blast
    qed
  qed
qed

lemma groups_text_head: "\<not> groups_text n []" "\<not> groups_text n (CHR '':'' # t)"
  by (simp_all add: groups_text_by_rest [of n] hex_group_def)

section \<open>The parser\<close>

lemma ipv6_groups_round:
  "ipv6_groups i ell s \<longleftrightarrow>
     (if \<not> i < 16 then ipv6_done i ell s
      else hex_group (takeWhile is_hex s) \<and>
        (case dropWhile is_hex s of
           [] \<Rightarrow> ipv6_done (i + 2) ell []
         | c # cs \<Rightarrow>
             if c = CHR ''.'' then (ell \<or> i = 12) \<and> i + 4 \<le> 16 \<and> ipv4_text s \<and> ipv6_done (i + 4) ell []
             else c = CHR '':'' \<and>
               (case cs of
                  [] \<Rightarrow> False
                | d # ds \<Rightarrow>
                    if d = CHR '':'' then \<not> ell \<and> (if ds = [] then ipv6_done (i + 2) True [] else ipv6_groups (i + 2) True ds)
                    else ipv6_groups (i + 2) ell cs)))"
proof -
  have group: "hex_group (takeWhile is_hex s) \<longleftrightarrow> \<not> (takeWhile is_hex s = [] \<or> 4 < length (takeWhile is_hex s))"
    by (auto simp: hex_group_def list_all_iff dest: set_takeWhileD)
  show ?thesis
  proof (cases "i < 16 \<and> hex_group (takeWhile is_hex s)")
    case False
    then show ?thesis using group by (subst ipv6_groups.simps) (auto simp: Let_def)
  next
    case True
    then have grp: "takeWhile is_hex s \<noteq> []" "\<not> 4 < length (takeWhile is_hex s)" using group by blast+
    show ?thesis
    proof (cases "dropWhile is_hex s")
      case Nil
      then show ?thesis using True grp by (subst ipv6_groups.simps) (simp add: Let_def)
    next
      case (Cons c cs)
      then show ?thesis
        using True grp by (subst ipv6_groups.simps) (cases cs; simp add: Let_def parseIPv4Fields_iff; blast)
    qed
  qed
qed

text \<open>After a double colon.\<close>

lemma groups_after_ellipsis:
  "ipv6_groups (2 * k) True s \<longleftrightarrow> (\<exists>n. k + n \<le> 7 \<and> groups_text n s)"
proof (induction "8 - k" arbitrary: k s)
  case 0
  then show ?case by (subst ipv6_groups_round) (simp add: ipv6_done_def)
next
  case (Suc x)
  then have k: "k < 8" "x = 8 - Suc k" by simp_all
  have IH: "ipv6_groups (2 * k + 2) True t \<longleftrightarrow> (\<exists>n. Suc k + n \<le> 7 \<and> groups_text n t)" for t
    using Suc(1) [OF k(2), of t] by simp
  have next_group: "(\<exists>n. k + n \<le> 7 \<and> (\<exists>m. n = Suc m \<and> groups_text m t)) \<longleftrightarrow> (\<exists>n. Suc k + n \<le> 7 \<and> groups_text n t)" for t
    by force
  show ?case
  proof (cases "hex_group (takeWhile is_hex s)")
    case False
    then show ?thesis by (simp add: ipv6_groups_round [of "2 * k"] k groups_text_by_rest [of _ s])
  next
    case True
    show ?thesis
    proof (cases "dropWhile is_hex s")
      case Nil
      then show ?thesis using True k by (simp add: ipv6_groups_round [of "2 * k"] groups_text_by_rest [of _ s] ipv6_done_def)
    next
      case (Cons c cs)
      show ?thesis
      proof (cases "c = CHR ''.''")
        case True': True
        then show ?thesis using True k Cons
          by (simp add: ipv6_groups_round [of "2 * k"] groups_text_by_rest [of _ s] ipv6_done_def)
      next
        case False
        then have "groups_text n s \<longleftrightarrow> c = CHR '':'' \<and> (\<exists>m. n = Suc m \<and> groups_text m cs)" for n
          using True Cons by (simp add: groups_text_by_rest [of n s])
        then have right: "(\<exists>n. k + n \<le> 7 \<and> groups_text n s) \<longleftrightarrow> c = CHR '':'' \<and> (\<exists>n. Suc k + n \<le> 7 \<and> groups_text n cs)"
          using next_group [of cs] by auto
        have "ipv6_groups (2 * k) True s \<longleftrightarrow> c = CHR '':'' \<and> ipv6_groups (2 * k + 2) True cs" if "cs \<noteq> []" "hd cs \<noteq> CHR '':''"
          using True k Cons False that by (cases cs) (simp_all add: ipv6_groups_round [of "2 * k"])
        moreover have "\<not> ipv6_groups (2 * k) True s" if "cs = [] \<or> hd cs = CHR '':''"
          using True k Cons False that by (cases cs) (simp_all add: ipv6_groups_round [of "2 * k"])
        moreover have "\<not> groups_text n cs" if "cs = [] \<or> hd cs = CHR '':''" for n
          using that groups_text_head by (cases cs) auto
        ultimately show ?thesis unfolding right using IH [of cs] by blast
      qed
    qed
  qed
qed

text \<open>Before a double colon, or without one.\<close>

definition ellipsis_text :: "nat \<Rightarrow> string \<Rightarrow> bool" where
  "ellipsis_text k s \<longleftrightarrow>
     (\<exists>left right n. left \<noteq> [] \<and> list_all hex_group left \<and> s = colons left @ ''::'' @ right \<and>
        (right = [] \<and> n = 0 \<or> groups_text n right) \<and> k + length left + n \<le> 7)"

abbreviation ellipsis_rest :: "nat \<Rightarrow> string \<Rightarrow> bool" where
  "ellipsis_rest k right \<equiv> \<exists>n. (right = [] \<and> n = 0 \<or> groups_text n right) \<and> k + n \<le> 7"

lemma ellipsis_text_first:
  "ellipsis_text k s \<longleftrightarrow>
     (\<exists>g t. hex_group g \<and> s = g @ '':'' @ t \<and>
        ((\<exists>right. t = CHR '':'' # right \<and> ellipsis_rest (Suc k) right) \<or> ellipsis_text (Suc k) t))"
  (is "_ \<longleftrightarrow> ?r")
proof
  assume "ellipsis_text k s"
  then obtain left right n where l: "left \<noteq> []" "list_all hex_group left" "s = colons left @ ''::'' @ right"
    "right = [] \<and> n = 0 \<or> groups_text n right" "k + length left + n \<le> 7"
    unfolding ellipsis_text_def by blast
  then obtain g gs where left: "left = g # gs" by (cases left) auto
  show ?r
  proof (cases "gs = []")
    case True
    have "Suc k + n \<le> 7" "hex_group g" "s = g @ '':'' @ CHR '':'' # right" using l left True by simp_all
    then show ?thesis using l(4) by blast
  next
    case False
    then have "ellipsis_text (Suc k) (colons gs @ ''::'' @ right)"
      unfolding ellipsis_text_def using l left
      by (intro exI [of _ gs] exI [of _ right] exI [of _ n]) simp
    then show ?thesis
      using l left colons_Cons [OF False, of g] by (intro exI [of _ g] exI [of _ "colons gs @ ''::'' @ right"] conjI disjI2) simp_all
  qed
next
  assume ?r
  then obtain g t where g: "hex_group g" "s = g @ '':'' @ t"
    and t: "(\<exists>right. t = CHR '':'' # right \<and> ellipsis_rest (Suc k) right) \<or> ellipsis_text (Suc k) t" by blast
  from t show "ellipsis_text k s"
  proof (elim disjE exE conjE)
    fix right n assume "t = CHR '':'' # right" "right = []" "n = 0" "Suc k + n \<le> 7"
    then show ?thesis
      unfolding ellipsis_text_def using g by (intro exI [of _ "[g]"] exI [of _ right] exI [of _ n]) simp
  next
    fix right n assume "t = CHR '':'' # right" "groups_text n right" "Suc k + n \<le> 7"
    then show ?thesis
      unfolding ellipsis_text_def using g by (intro exI [of _ "[g]"] exI [of _ right] exI [of _ n]) simp
  next
    assume "ellipsis_text (Suc k) t"
    then obtain left right n where l: "left \<noteq> []" "list_all hex_group left" "t = colons left @ ''::'' @ right"
      "right = [] \<and> n = 0 \<or> groups_text n right" "Suc k + length left + n \<le> 7"
      unfolding ellipsis_text_def by blast
    then show ?thesis
      unfolding ellipsis_text_def using g colons_Cons [OF l(1), of g]
      by (intro exI [of _ "g # left"] exI [of _ right] exI [of _ n]) simp
  qed
qed

lemma ellipsis_text_by_rest:
  "ellipsis_text k s \<longleftrightarrow> hex_group (takeWhile is_hex s) \<and>
     (\<exists>t. dropWhile is_hex s = CHR '':'' # t \<and>
        ((\<exists>right. t = CHR '':'' # right \<and> ellipsis_rest (Suc k) right) \<or> ellipsis_text (Suc k) t))"
  (is "_ \<longleftrightarrow> ?r")
proof
  assume "ellipsis_text k s"
  then obtain g t where g: "hex_group g" "s = g @ CHR '':'' # t"
    and t: "(\<exists>right. t = CHR '':'' # right \<and> ellipsis_rest (Suc k) right) \<or> ellipsis_text (Suc k) t"
    unfolding ellipsis_text_first [of k s] append_Cons append_Nil by blast
  have "takeWhile is_hex s = g" "dropWhile is_hex s = CHR '':'' # t"
    using group_then [OF g(1), of "CHR '':'' # t"] g(2) by simp_all
  with g(1) t show ?r by blast
next
  assume ?r
  then obtain t where t: "hex_group (takeWhile is_hex s)" "dropWhile is_hex s = CHR '':'' # t"
    "(\<exists>right. t = CHR '':'' # right \<and> ellipsis_rest (Suc k) right) \<or> ellipsis_text (Suc k) t" by blast
  then have "s = takeWhile is_hex s @ CHR '':'' # t" by (metis takeWhile_dropWhile_id)
  with t(1,3) show "ellipsis_text k s"
    unfolding ellipsis_text_first [of k s] append_Cons append_Nil by blast
qed

lemma ellipsis_text_head: "\<not> ellipsis_text k []" "\<not> ellipsis_text k (CHR '':'' # t)"
  by (simp_all add: ellipsis_text_by_rest [of k] hex_group_def)

lemma ellipsis_rest_parsed:
  "(if right = [] then ipv6_done (2 * k) True [] else ipv6_groups (2 * k) True right) \<longleftrightarrow> ellipsis_rest k right"
  using groups_text_head(1) by (auto simp: groups_after_ellipsis ipv6_done_def)

lemma groups_before_ellipsis:
  "s \<noteq> [] \<Longrightarrow> ipv6_groups (2 * k) False s \<longleftrightarrow> groups_text (8 - k) s \<or> ellipsis_text k s"
proof (induction "8 - k" arbitrary: k s)
  case 0
  then have "\<not> ellipsis_text k s" by (simp add: ellipsis_text_def)
  then show ?case using 0 by (subst ipv6_groups_round) (simp add: ipv6_done_def)
next
  case (Suc x)
  then have k: "k < 8" and x: "x = 8 - Suc k" by simp_all
  note round = ipv6_groups_round [of "2 * k" False s] groups_text_by_rest [of "8 - k" s] ellipsis_text_by_rest [of k s]
  show ?case
  proof (cases "hex_group (takeWhile is_hex s)")
    case True
    show ?thesis
    proof (cases "dropWhile is_hex s")
      case Nil
      then show ?thesis using True k by (simp add: round ipv6_done_def) arith
    next
      case (Cons c cs)
      consider "c = CHR ''.''" | "c \<noteq> CHR ''.''" "c \<noteq> CHR '':''" | "c = CHR '':''" "cs = []"
        | right where "c = CHR '':''" "cs = CHR '':'' # right"
        | d ds where "c = CHR '':''" "cs = d # ds" "d \<noteq> CHR '':''"
        by (cases cs) blast+
      then show ?thesis
      proof cases
        case 1
        then show ?thesis using True k Cons by (simp add: round ipv6_done_def) arith
      next
        case 2
        then show ?thesis using True k Cons by (simp add: round)
      next
        case 3
        then show ?thesis using True k Cons by (simp add: round groups_text_head ellipsis_text_head)
      next
        case (4 right)
        then have "ipv6_groups (2 * k) False s \<longleftrightarrow>
            (if right = [] then ipv6_done (2 * Suc k) True [] else ipv6_groups (2 * Suc k) True right)"
          using True k Cons by (simp add: round(1))
        then have "ipv6_groups (2 * k) False s \<longleftrightarrow> ellipsis_rest (Suc k) right" unfolding ellipsis_rest_parsed .
        then show ?thesis using True Cons 4 by (simp add: round(2,3) groups_text_head ellipsis_text_head)
      next
        case (5 d ds)
        have "ipv6_groups (2 * k) False s \<longleftrightarrow> ipv6_groups (2 * Suc k) False cs"
          using True k Cons 5 by (simp add: round(1))
        also have "\<dots> \<longleftrightarrow> groups_text (8 - Suc k) cs \<or> ellipsis_text (Suc k) cs"
          using Suc(1) [OF x] 5(2) by simp
        also have "\<dots> \<longleftrightarrow> groups_text (8 - k) s \<or> ellipsis_text k s"
        proof -
          have "8 - k = Suc m \<longleftrightarrow> m = 8 - Suc k" for m using k by auto
          then show ?thesis using True Cons 5 by (simp add: round(2,3))
        qed
        finally show ?thesis .
      qed
    qed
  qed (simp add: round k)
qed

section \<open>Addresses\<close>

lemma ipv6_text_cases:
  "ipv6_text s \<longleftrightarrow> groups_text 8 s \<or> ellipsis_text 0 s \<or> (\<exists>right. s = ''::'' @ right \<and> ellipsis_rest 0 right)"
proof
  assume "ipv6_text s"
  then consider "groups_text 8 s" | left right n where "list_all hex_group left" "s = colons left @ ''::'' @ right"
    "right = [] \<and> n = 0 \<or> groups_text n right" "length left + n \<le> 7"
    unfolding ipv6_text_def by blast
  then show "groups_text 8 s \<or> ellipsis_text 0 s \<or> (\<exists>right. s = ''::'' @ right \<and> ellipsis_rest 0 right)"
  proof cases
    case (2 left right n)
    then show ?thesis unfolding ellipsis_text_def by (cases "left = []") (fastforce, metis add_0)
  qed simp
next
  assume r: "groups_text 8 s \<or> ellipsis_text 0 s \<or> (\<exists>right. s = ''::'' @ right \<and> ellipsis_rest 0 right)"
  consider "groups_text 8 s" | "ellipsis_text 0 s" | right n where "s = ''::'' @ right"
    "right = [] \<and> n = 0 \<or> groups_text n right" "n \<le> 7"
    using r add_0 by metis
  then show "ipv6_text s"
  proof cases
    case 2
    then show ?thesis unfolding ellipsis_text_def ipv6_text_def add_0 by blast
  next
    case (3 right n)
    then show ?thesis
      unfolding ipv6_text_def by (intro disjI2 exI [of _ "[]"] exI [of _ right] exI [of _ n]) simp
  qed (simp add: ipv6_text_def)
qed

text \<open>An address begins with a group, which may be empty, and a colon.\<close>

lemma ipv6_text_start: "ipv6_text s \<Longrightarrow> \<exists>g t. list_all is_hex g \<and> s = g @ CHR '':'' # t"
  unfolding ipv6_text_cases
proof (elim disjE exE conjE)
  assume "groups_text 8 s"
  then show ?thesis unfolding groups_text_first [of 8 s] by (auto simp: hex_group_def)
next
  assume "ellipsis_text 0 s"
  then show ?thesis unfolding ellipsis_text_first [of 0 s] by (auto simp: hex_group_def)
qed (auto intro: exI [of _ "[]"])

lemma colons_chars: "c \<in> set (colons gs) \<Longrightarrow> c = CHR '':'' \<or> (\<exists>g \<in> set gs. c \<in> set g)"
  by (induction gs rule: colons.induct) auto

lemma hex_groups_chars: "list_all hex_group gs \<Longrightarrow> c \<in> set (colons gs) \<Longrightarrow> c = CHR '':'' \<or> is_hex c"
  using colons_chars [of c gs] by (auto simp: list_all_iff hex_group_def)

lemma dec_digits_hex: "c \<in> set (dec_digits n) \<Longrightarrow> is_hex c"
  using dec_digits_correct [of n] digit_is_hex by (auto simp: list_all_iff)

lemma ipv4_text_digits: "ipv4_text s \<Longrightarrow> c \<in> set s \<Longrightarrow> c = CHR ''.'' \<or> is_hex c"
  by (auto simp: ipv4_text_def dotted_def dest: dec_digits_hex)

lemma groups_text_chars:
  assumes "groups_text n s" and "c \<in> set s"
  shows "c = CHR '':'' \<or> c = CHR ''.'' \<or> is_hex c"
  using assms(1) unfolding groups_text_def
proof (elim disjE exE conjE)
  fix gs assume "list_all hex_group gs" "s = colons gs"
  then show ?thesis using hex_groups_chars assms(2) by blast
next
  fix gs v assume gs: "list_all hex_group gs" and v: "ipv4_text v" and "s = colons (gs @ [v])"
  then consider "c = CHR '':''" | g where "g \<in> set gs" "c \<in> set g" | "c \<in> set v"
    using colons_chars [of c "gs @ [v]"] assms(2) by auto
  then show ?thesis
    using gs ipv4_text_digits [OF v] by cases (auto simp: list_all_iff hex_group_def)
qed

lemma ipv6_text_chars:
  assumes "ipv6_text s"
  shows "CHR ''/'' \<notin> set s" and "CHR ''%'' \<notin> set s" and "CHR '':'' \<in> set s"
proof -
  have "c = CHR '':'' \<or> c = CHR ''.'' \<or> is_hex c" if c: "c \<in> set s" for c
    using assms unfolding ipv6_text_def
  proof (elim disjE exE conjE)
    fix left right n
    assume "list_all hex_group left" "s = colons left @ ''::'' @ right" "groups_text n right"
    then show ?thesis using c hex_groups_chars [of left c] groups_text_chars [of n right c] by auto
  next
    fix left right n
    assume "list_all hex_group left" "s = colons left @ ''::'' @ right" "right = []"
    then show ?thesis using c hex_groups_chars [of left c] by auto
  qed (use c groups_text_chars in blast)
  then show "CHR ''/'' \<notin> set s" "CHR ''%'' \<notin> set s" by force+
  show "CHR '':'' \<in> set s" using ipv6_text_start [OF assms] by auto
qed

lemma cut_at_None: "cut_at x s = None \<longleftrightarrow> x \<notin> set s"
  by (induction s) (auto split: option.split)

lemma parseIPv6_iff:
  assumes "CHR ''%'' \<notin> set s"
  shows "parseIPv6 s = (if ipv6_text s then Some (128, []) else None)"
proof (cases "HasPrefix s ''::''")
  case True
  then obtain t where s: "s = CHR '':'' # CHR '':'' # t" using HasPrefix_drop [of s "''::''"] by auto
  have "t = [] \<or> ipv6_groups 0 True t \<longleftrightarrow> ellipsis_rest 0 t"
  proof -
    have "ipv6_groups 0 True t \<longleftrightarrow> (if t = [] then ipv6_done (2 * 0) True [] else ipv6_groups (2 * 0) True t)" if "t \<noteq> []"
      using that by simp
    moreover have "ipv6_done (2 * 0) True []" by (simp add: ipv6_done_def)
    ultimately show ?thesis unfolding ellipsis_rest_parsed [of t 0, symmetric] by (cases "t = []") simp_all
  qed
  moreover have "ipv6_text s \<longleftrightarrow> ellipsis_rest 0 t"
    unfolding ipv6_text_cases by (simp add: s groups_text_head ellipsis_text_head)
  ultimately show ?thesis
    using True assms by (simp add: parseIPv6_def iffD2 [OF cut_at_None] s del: cut_at.simps)
next
  case False
  then have "s \<noteq> ''::'' @ t" for t by (auto simp: HasPrefix_def)
  then have "ipv6_text s \<longleftrightarrow> ipv6_groups 0 False s"
    unfolding ipv6_text_cases using groups_before_ellipsis [of s 0] groups_text_head ellipsis_text_head
    by (cases "s = []") (auto simp: ipv6_groups_round [of 0 False "[]"] hex_group_def)
  then show ?thesis using False assms by (simp add: parseIPv6_def iffD2 [OF cut_at_None])
qed

lemma ParseAddr_exact:
  "ParseAddr s = Some (bits, []) \<longleftrightarrow> bits = 32 \<and> ipv4_text s \<or> bits = 128 \<and> ipv6_text s"
proof (cases "CHR '':'' \<in> set s")
  case False
  then show ?thesis using ParseAddr_ipv4 [OF False] ipv6_text_chars(3) by auto
next
  case True
  then have no4: "\<not> ipv4_text s" using ipv4_text_chars(2) by blast
  show ?thesis
  proof
    assume l: "ParseAddr s = Some (bits, [])"
    have "ParseAddr_loop s t = Some z \<Longrightarrow> parseIPv6 s = Some z" for t z
      using no4 by (induction t) (auto simp: parseIPv4Fields_iff split: if_splits)
    then have six: "parseIPv6 s = Some (bits, [])" using l by (simp add: ParseAddr_def)
    then have "cut_at (CHR ''%'') s = None"
      by (auto simp: parseIPv6_def Let_def split: option.splits if_splits prod.splits)
    then show "bits = 32 \<and> ipv4_text s \<or> bits = 128 \<and> ipv6_text s"
      using six by (simp add: cut_at_None parseIPv6_iff split: if_splits)
  next
    assume "bits = 32 \<and> ipv4_text s \<or> bits = 128 \<and> ipv6_text s"
    then have six: "bits = 128" "ipv6_text s" using no4 by auto
    obtain g t where g: "list_all is_hex g" "s = g @ CHR '':'' # t" using ipv6_text_start [OF six(2)] by blast
    have "ParseAddr_loop x (g @ CHR '':'' # t) = parseIPv6 x" for x
      using ParseAddr_loop_skip [of g x "CHR '':'' # t"] g(1) hex_chars by (auto simp: list_all_iff)
    then show "ParseAddr s = Some (bits, [])"
      using g(2) six parseIPv6_iff [OF ipv6_text_chars(2) [OF six(2)]] by (simp add: ParseAddr_def)
  qed
qed

lemma ParseIP_exact: "ParseIP s \<longleftrightarrow> ipv4_text s \<or> ipv6_text s"
proof -
  have "ParseIP s \<longleftrightarrow> (\<exists>bits. ParseAddr s = Some (bits, []))" by (auto simp: ParseIP_def split: option.split)
  then show ?thesis by (auto simp: ParseAddr_exact)
qed

section \<open>Blocks\<close>

definition ip_block :: "string \<Rightarrow> bool" where
  "ip_block s \<longleftrightarrow> (\<exists>addr bits. s = addr @ ''/'' @ bits \<and> bits \<noteq> [] \<and> list_all is_digit bits \<and>
     (ipv4_text addr \<and> dec_value bits \<le> 32 \<or> ipv6_text addr \<and> dec_value bits \<le> 128))"

lemma ParseCIDR_exact: "ParseCIDR s \<longleftrightarrow> ip_block s"
proof -
  have "ParseCIDR s \<longleftrightarrow> (\<exists>addr msk width n. cut_at (CHR ''/'') s = Some (addr, msk) \<and>
      ParseAddr addr = Some (width, []) \<and> dtoi msk = Some (n, []) \<and> n \<le> width)"
    by (auto simp: ParseCIDR_def split: option.splits)
  also have "\<dots> \<longleftrightarrow> ip_block s"
  proof
    assume "\<exists>addr msk width n. cut_at (CHR ''/'') s = Some (addr, msk) \<and>
      ParseAddr addr = Some (width, []) \<and> dtoi msk = Some (n, []) \<and> n \<le> width"
    then show "ip_block s" by (auto simp: ip_block_def cut_at_Some ParseAddr_exact dtoi_all)
  next
    assume "ip_block s"
    then obtain addr msk where s: "s = addr @ CHR ''/'' # msk" "msk \<noteq> []" "list_all is_digit msk"
      and addr: "ipv4_text addr \<and> dec_value msk \<le> 32 \<or> ipv6_text addr \<and> dec_value msk \<le> 128"
      by (auto simp: ip_block_def)
    from addr obtain width where width: "ParseAddr addr = Some (width, [])" "dec_value msk \<le> width" "width \<le> 128"
      using ParseAddr_exact by fastforce
    have "CHR ''/'' \<notin> set addr" using addr ipv4_text_chars(1) ipv6_text_chars(1) by blast
    then show "\<exists>addr msk width n. cut_at (CHR ''/'') s = Some (addr, msk) \<and>
      ParseAddr addr = Some (width, []) \<and> dtoi msk = Some (n, []) \<and> n \<le> width"
      using s width
      by (intro exI [of _ addr] exI [of _ msk] exI [of _ width] exI [of _ "dec_value msk"]) (simp add: cut_at_Some dtoi_all)
  qed
  finally show ?thesis .
qed

section \<open>The trusted proxies\<close>

text \<open>C21: The check of the trusted proxies is exact. It reports, in their order, exactly the entries that
  are neither an address nor a block: an address is the dotted text of four decimal numbers up to
  255 without leading zeros, or eight hexadecimal groups of which the last two may be an IPv4
  address and at least one may be left out with a double colon; a block is an address with a slash and
  a prefix length up to 32 or 128. Zones are refused.\<close>

theorem proxies_checked_exactly:
  "proxy_problems [] proxies =
    map (\<lambda>p. (''TRUST_PROXY_PROXIES entry %q is not a valid IP or CIDR'', [ArgS p]))
      (filter (\<lambda>p. \<not> ipv4_text p \<and> \<not> ipv6_text p \<and> \<not> ip_block p) proxies)"
proof -
  have "proxy_problems ps proxies = ps @
    map (\<lambda>p. (''TRUST_PROXY_PROXIES entry %q is not a valid IP or CIDR'', [ArgS p]))
      (filter (\<lambda>p. \<not> ipv4_text p \<and> \<not> ipv6_text p \<and> \<not> ip_block p) proxies)" for ps
    by (induction ps proxies rule: proxy_problems.induct) (auto simp: ParseIP_exact ParseCIDR_exact)
  from this [of "[]"] show ?thesis by simp
qed

end
