(* ===== verification/Task_Conc.thy ===== *)
theory Task_Conc
  imports Task_Spec
begin

text \<open>
  Concurrent calls of the task service. A call is a program, the statements it makes on the database
  with what the code does between them (\<open>call_prog\<close>): an update reads the row, with the lock that
  \<open>applyRowLock\<close> asks for, and saves it in a second statement; a listing counts and reads in two
  statements; the others are one statement. \<open>conc_step\<close> is not code but the database: it runs the
  statements of any number of programs in any order, makes them wait for row locks and lets them
  fail. With row locks, every interleaving gives the answers and the rows of the calls made one after
  the other.
\<close>

section \<open>The calls as programs\<close>

text \<open>The first half of the transaction of \<open>gormRepository.Update\<close>.\<close>

definition upd_read :: "'s gorm \<Rightarrow> go_uint \<Rightarrow> 's \<Rightarrow> (goerr + Task) \<times> 's" where
  "upd_read tx i s =
     (case g_first tx (applyRowLock tx) i s of
        (Inl e, s') \<Rightarrow>
          if errors_Is e (SentinelErr ErrRecordNotFound)
          then (Inl (AppErr ErrNotFound), s') else (Inl e, s')
      | (Inr t, s') \<Rightarrow> (Inr t, s'))"

text \<open>What \<open>Service.Update\<close> makes of the result of the transaction, and \<open>Service.List\<close> of that of
  \<open>Repository.List\<close>.\<close>

definition upd_reply :: "go_uint \<Rightarrow> goerr + Task \<Rightarrow> svc_reply" where
  "upd_reply i x =
     (case x of
        Inl e \<Rightarrow>
          if errors_Is e (AppErr ErrNotFound) then Failed (AppErr ErrTaskNotFound)
          else Failed (Errorf_w (''update task '' @ FormatUint i) e)
      | Inr t \<Rightarrow> Replied (toResponse t))"

definition list_reply :: "PageQuery \<Rightarrow> goerr + Task list \<times> go_int \<Rightarrow> svc_reply" where
  "list_reply q x =
     (case x of
        Inl e \<Rightarrow> Failed (Errorf_w ''list tasks'' e)
      | Inr (tasks, cnt) \<Rightarrow>
          (case NewPageMeta q cnt of None \<Rightarrow> Failed divide_panic | Some m \<Rightarrow> Listed (toResponses tasks) m))"

text \<open>
  A statement says what it does to row locks: \<open>Plain\<close> nothing; \<open>Write i\<close> writes row \<open>i\<close> on its own;
  \<open>ForUpdate i\<close> reads it in a transaction and holds it until the end of that; \<open>Commit i\<close> writes it as
  the last statement of a transaction. It also says what the service answers if the driver reports an
  error in its place.
\<close>

datatype row_access = Plain | Write go_uint | ForUpdate go_uint | Commit go_uint

datatype 's prog =
    Return svc_reply
  | Exec row_access "goerr \<Rightarrow> svc_reply" "'s \<Rightarrow> 's prog \<times> 's"

definition one_statement :: "row_access \<Rightarrow> string \<Rightarrow> ('s \<Rightarrow> svc_reply \<times> 's) \<Rightarrow> 's prog" where
  "one_statement acc what f =
     Exec acc (\<lambda>e. Failed (Errorf_w what e)) (\<lambda>s. case f s of (r, s') \<Rightarrow> (Return r, s'))"

definition list_find :: "'s gorm \<Rightarrow> PageQuery \<Rightarrow> go_int \<Rightarrow> 's prog" where
  "list_find db q n = Exec Plain (\<lambda>e. list_reply q (Inl e))
     (\<lambda>s. case g_find db (Limit q) (Offset q) s of
        (Inl e, s') \<Rightarrow> (Return (list_reply q (Inl e)), s')
      | (Inr ts, s') \<Rightarrow> (Return (list_reply q (Inr (ts, n))), s'))"

definition list_count :: "'s gorm \<Rightarrow> PageQuery \<Rightarrow> 's prog" where
  "list_count db q = Exec Plain (\<lambda>e. list_reply q (Inl e))
     (\<lambda>s. case g_count db s of
        (Inl e, s') \<Rightarrow> (Return (list_reply q (Inl e)), s')
      | (Inr n, s') \<Rightarrow> (list_find db q n, s'))"

definition upd_save :: "'s gorm \<Rightarrow> go_uint \<Rightarrow> UpdateRequest \<Rightarrow> Task \<Rightarrow> 's prog" where
  "upd_save db i req t = Exec (Commit i) (\<lambda>e. upd_reply i (Inl e))
     (\<lambda>s. case g_save db (mutate req t) s of (x, s') \<Rightarrow> (Return (upd_reply i x), s'))"

definition upd_start :: "'s gorm \<Rightarrow> go_uint \<Rightarrow> UpdateRequest \<Rightarrow> 's prog" where
  "upd_start db i req =
     Exec (if applyRowLock db then ForUpdate i else Plain) (\<lambda>e. upd_reply i (Inl e))
       (\<lambda>s. case upd_read db i s of
          (Inl e, s') \<Rightarrow> (Return (upd_reply i (Inl e)), s')
        | (Inr t, s') \<Rightarrow> (upd_save db i req t, s'))"

fun call_prog :: "'s gorm \<Rightarrow> svc_call \<Rightarrow> 's prog" where
  "call_prog db (CallCreate req) =
     one_statement Plain ''create task'' (run_call (NewRepository db) (CallCreate req))"
| "call_prog db (CallGet i) =
     one_statement Plain (''get task '' @ FormatUint i) (run_call (NewRepository db) (CallGet i))"
| "call_prog db (CallList page limit) = list_count db (NewPageQuery page limit)"
| "call_prog db (CallUpdate i req) = upd_start db i req"
| "call_prog db (CallDelete i) =
     one_statement (Write i) (''delete task '' @ FormatUint i) (run_call (NewRepository db) (CallDelete i))"

text \<open>Run with nothing in between, a program is the function of the service. Only the transaction
  around the two statements of an update is left to the database.\<close>

primrec run_prog :: "'s prog \<Rightarrow> 's \<Rightarrow> svc_reply \<times> 's" where
  "run_prog (Return r) = (\<lambda>s. (r, s))"
| "run_prog (Exec acc fl f) = (\<lambda>s. case (map_prod run_prog id \<circ> f) s of (g, s') \<Rightarrow> g s')"

lemma programs_are_the_service:
  "run_prog (call_prog db cl) s = run_call ((NewRepository db)\<lparr>r_Update := update_body db\<rparr>) cl s"
  by (cases cl)
    (auto simp: one_statement_def list_count_def list_find_def upd_start_def upd_save_def upd_read_def
      update_body_def list_reply_def upd_reply_def svc_defs NewRepository_def repo_List_def Let_def
      split: prod.splits sum.splits option.splits)

section \<open>The database\<close>

text \<open>\<open>cn_store\<close> is what is committed, \<open>cn_lock\<close> who holds a row, \<open>cn_prog\<close> what each client has still
  to do. \<open>cn_log\<close> is a record of the statements, the newest first: the client, the answer if the call
  was answered with it, and the rows after it.\<close>

type_synonym entry = "nat \<times> svc_reply option \<times> (go_uint \<rightharpoonup> Task)"

record 's conc =
  cn_store :: 's
  cn_lock :: "go_uint \<Rightarrow> nat option"
  cn_prog :: "nat \<Rightarrow> 's prog"
  cn_log :: "entry list"

fun may_run :: "nat \<Rightarrow> (go_uint \<Rightarrow> nat option) \<Rightarrow> row_access \<Rightarrow> bool" where
  "may_run k lk Plain \<longleftrightarrow> True"
| "may_run k lk (Write i) \<longleftrightarrow> lk i = None"
| "may_run k lk (ForUpdate i) \<longleftrightarrow> lk i = None"
| "may_run k lk (Commit i) \<longleftrightarrow> lk i = None \<or> lk i = Some k"

text \<open>A client that is done holds nothing.\<close>

fun locks_after :: "nat \<Rightarrow> row_access \<Rightarrow> 's prog \<Rightarrow> (go_uint \<Rightarrow> nat option) \<Rightarrow> go_uint \<Rightarrow> nat option" where
  "locks_after k acc (Return r) lk = (\<lambda>i. if lk i = Some k then None else lk i)"
| "locks_after k (ForUpdate i) (Exec a fl f) lk = lk(i := Some k)"
| "locks_after k _ (Exec a fl f) lk = lk"

fun reply_of :: "'s prog \<Rightarrow> svc_reply option" where
  "reply_of (Return r) = Some r"
| "reply_of (Exec a fl f) = None"

definition after ::
  "('s \<Rightarrow> go_uint \<rightharpoonup> Task) \<Rightarrow> nat \<Rightarrow> row_access \<Rightarrow> 's prog \<Rightarrow> 's \<Rightarrow> 's conc \<Rightarrow> 's conc" where
  "after rows k acc p d s =
     s\<lparr>cn_store := d, cn_prog := (cn_prog s)(k := p), cn_lock := locks_after k acc p (cn_lock s),
       cn_log := (k, reply_of p, rows d) # cn_log s\<rparr>"

text \<open>
  What an open transaction has saved is not seen by others, so that its last statement takes effect
  with the commit; a transaction that ends in an error leaves the rows as they are. Any statement can
  fail with an error of the driver (a lost connection, a deadlock, a begin or a commit that fails).
\<close>

inductive conc_step ::
  "('s \<Rightarrow> go_uint \<rightharpoonup> Task) \<Rightarrow> ('s \<Rightarrow> bool) \<Rightarrow> 's conc \<Rightarrow> 's conc \<Rightarrow> bool" for rows ok where
  cn_exec: "cn_prog s k = Exec acc fl f \<Longrightarrow> may_run k (cn_lock s) acc \<Longrightarrow> f (cn_store s) = (p, d) \<Longrightarrow>
    \<not> (\<exists>i e. acc = Commit i \<and> p = Return (Failed e)) \<Longrightarrow> conc_step rows ok s (after rows k acc p d s)"
| cn_rollback: "cn_prog s k = Exec (Commit i) fl f \<Longrightarrow> may_run k (cn_lock s) (Commit i) \<Longrightarrow>
    f (cn_store s) = (Return (Failed e), u) \<Longrightarrow> ok d \<Longrightarrow> rows d = rows (cn_store s) \<Longrightarrow>
    conc_step rows ok s (after rows k (Commit i) (Return (Failed e)) d s)"
| cn_fault: "cn_prog s k = Exec acc fl f \<Longrightarrow> foreign e \<Longrightarrow> ok d \<Longrightarrow> rows d = rows (cn_store s) \<Longrightarrow>
    conc_step rows ok s (after rows k acc (Return (fl e)) d s)"

inductive_cases conc_stepE: "conc_step rows ok s s'"

definition conc_start :: "'s gorm \<Rightarrow> (nat \<Rightarrow> svc_call) \<Rightarrow> 's \<Rightarrow> 's conc" where
  "conc_start db calls d =
     \<lparr>cn_store = d, cn_lock = (\<lambda>_. None), cn_prog = (\<lambda>k. call_prog db (calls k)), cn_log = []\<rparr>"

inductive conc_run ::
  "'s gorm \<Rightarrow> ('s \<Rightarrow> go_uint \<rightharpoonup> Task) \<Rightarrow> ('s \<Rightarrow> bool) \<Rightarrow> (nat \<Rightarrow> svc_call) \<Rightarrow> 's \<Rightarrow> 's conc \<Rightarrow> bool"
  for db rows ok calls d0 where
  conc_init: "conc_run db rows ok calls d0 (conc_start db calls d0)"
| conc_next: "conc_run db rows ok calls d0 s \<Longrightarrow> conc_step rows ok s s' \<Longrightarrow>
    conc_run db rows ok calls d0 s'"

section \<open>The calls one after the other\<close>

text \<open>The rows after a log.\<close>

fun rows_now :: "(go_uint \<rightharpoonup> Task) \<Rightarrow> entry list \<Rightarrow> (go_uint \<rightharpoonup> Task)" where
  "rows_now m0 [] = m0"
| "rows_now m0 ((k, r, m) # h) = m"

text \<open>
  An answer is a step of the specification from the rows before it. A listing is two statements: its
  page is that of the rows before the answer, the total of its meta block is that of the rows at the
  first statement of the same client.
\<close>

fun explained ::
  "(gotime \<Rightarrow> gotime) \<Rightarrow> (go_uint \<rightharpoonup> Task) \<Rightarrow> entry list \<Rightarrow> nat \<Rightarrow> svc_call \<Rightarrow> svc_reply \<Rightarrow>
   (go_uint \<rightharpoonup> Task) \<Rightarrow> bool" where
  "explained col m0 h k (CallList page limit) r m' \<longleftrightarrow>
     m' = rows_now m0 h \<and>
     ((\<exists>e. r = Failed e \<and> foreign e) \<or>
      (\<exists>mc mt rs. (k, None, mc) \<in> set h \<and> r = Listed rs mt \<and>
         NewPageMeta (NewPageQuery page limit) (of_nat (card (dom mc))) = Some mt \<and>
         (0 \<le> sint (Offset (NewPageQuery page limit)) \<longrightarrow>
            rs = map toResponse (page_slice (NewPageQuery page limit) (newest_first m')))))"
| "explained col m0 h k cl r m' \<longleftrightarrow> task_spec col (rows_now m0 h) cl r m'"

fun serially ::
  "(gotime \<Rightarrow> gotime) \<Rightarrow> (go_uint \<rightharpoonup> Task) \<Rightarrow> (nat \<Rightarrow> svc_call) \<Rightarrow> entry list \<Rightarrow> bool" where
  "serially col m0 calls [] \<longleftrightarrow> True"
| "serially col m0 calls ((k, None, m') # h) \<longleftrightarrow> serially col m0 calls h \<and> m' = rows_now m0 h"
| "serially col m0 calls ((k, Some r, m') # h) \<longleftrightarrow>
     serially col m0 calls h \<and> explained col m0 h k (calls k) r m'"

text \<open>The statements of one client in a log, as the answers they gave.\<close>

definition replies :: "nat \<Rightarrow> entry list \<Rightarrow> svc_reply option list" where
  "replies k h = map (\<lambda>(j, r, m). r) (filter (\<lambda>(j, r, m). j = k) h)"

lemma replies_simps [simp]:
  "replies k [] = []" "replies k ((j, r, m) # h) = (if j = k then r # replies k h else replies k h)"
  by (simp_all add: replies_def)

lemma replies_set: "r \<in> set (replies k h) \<longleftrightarrow> (\<exists>m. (k, r, m) \<in> set h)"
  by (force simp: replies_def)

lemma explained_titles:
  assumes "explained col m0 h k cl r m'" and "call_ok cl" and "titles_ok (rows_now m0 h)"
  shows "titles_ok m'"
  using assms by (cases cl) (auto intro: task_spec_titles)

lemma serially_titles:
  assumes "serially col m0 calls h" and "\<forall>k. call_ok (calls k)" and "titles_ok m0"
  shows "titles_ok (rows_now m0 h)"
  using assms(1)
proof (induction h)
  case (Cons e h)
  obtain k r m' where e: "e = (k, r, m')" by (cases e)
  show ?case
  proof (cases r)
    case (Some x)
    then show ?thesis
      using Cons e explained_titles [of col m0 h k "calls k" x m'] assms(2) by simp
  qed (use Cons e in simp)
qed (simp add: assms(3))

section \<open>The invariant\<close>

text \<open>
  Where a client can be: before its first statement, done, with a row read that it holds, or with a
  count made that is in the log.
\<close>

definition client_at ::
  "'s gorm \<Rightarrow> svc_call \<Rightarrow> (go_uint \<rightharpoonup> Task) \<Rightarrow> (go_uint \<Rightarrow> nat option) \<Rightarrow> entry list \<Rightarrow> nat \<Rightarrow> 's prog \<Rightarrow> bool" where
  "client_at db cl m lk h k p \<longleftrightarrow>
     p = call_prog db cl \<and> replies k h = [] \<or>
     (\<exists>r. p = Return r \<and> replies k h \<in> {[Some r], [Some r, None]}) \<or>
     (\<exists>i req t. cl = CallUpdate i req \<and> p = upd_save db i req t \<and> replies k h = [None] \<and>
        lk i = Some k \<and> m i = Some t) \<or>
     (\<exists>page limit mc. cl = CallList page limit \<and> replies k h = [None] \<and> (k, None, mc) \<in> set h \<and>
        p = list_find db (NewPageQuery page limit) (of_nat (card (dom mc))))"

definition conc_inv ::
  "(gotime \<Rightarrow> gotime) \<Rightarrow> 's gorm \<Rightarrow> ('s \<Rightarrow> go_uint \<rightharpoonup> Task) \<Rightarrow> ('s \<Rightarrow> bool) \<Rightarrow> (nat \<Rightarrow> svc_call) \<Rightarrow>
   (go_uint \<rightharpoonup> Task) \<Rightarrow> 's conc \<Rightarrow> bool" where
  "conc_inv col db rows ok calls m0 s \<longleftrightarrow>
     ok (cn_store s) \<and> serially col m0 calls (cn_log s) \<and>
     rows_now m0 (cn_log s) = rows (cn_store s) \<and>
     (\<forall>k. client_at db (calls k) (rows (cn_store s)) (cn_lock s) (cn_log s) k (cn_prog s k))"

lemma call_prog_Exec [simp]: "call_prog db cl \<noteq> Return r" "Return r \<noteq> call_prog db cl"
  by (cases cl; simp add: one_statement_def list_count_def upd_start_def)+

lemma two_statements_Exec [simp]:
  "list_find db q n \<noteq> Return r" "upd_save db i req t \<noteq> Return r"
  "Return r \<noteq> list_find db q n" "Return r \<noteq> upd_save db i req t"
  by (simp_all add: list_find_def upd_save_def)

lemma conc_invD:
  assumes "conc_inv col db rows ok calls m0 s"
  shows "ok (cn_store s)" and "serially col m0 calls (cn_log s)"
    and "rows_now m0 (cn_log s) = rows (cn_store s)"
    and "client_at db (calls k) (rows (cn_store s)) (cn_lock s) (cn_log s) k (cn_prog s k)"
  using assms by (simp_all add: conc_inv_def)

lemma conc_inv_start: "ok d \<Longrightarrow> conc_inv col db rows ok calls (rows d) (conc_start db calls d)"
  by (simp add: conc_inv_def conc_start_def client_at_def)

lemma client_at_replies:
  assumes "client_at db cl m lk h k p"
  shows "\<exists>r. replies k h \<in> {[], [None], [Some r], [Some r, None]}"
    and "p = Return r \<longleftrightarrow> Some r \<in> set (replies k h)"
  using assms by (auto simp: client_at_def)

text \<open>A step of one client leaves the others where they are if it leaves alone the rows they hold.\<close>

lemma locks_after_other:
  "may_run k lk acc \<or> (\<exists>r. p = Return r) \<Longrightarrow> j \<noteq> k \<Longrightarrow> lk i = Some j \<Longrightarrow> locks_after k acc p lk i = Some j"
  by (cases p; cases acc) auto

lemma client_at_other:
  assumes "client_at db cl m lk h j p" and "j \<noteq> k"
    and "\<And>i t. lk i = Some j \<Longrightarrow> m i = Some t \<Longrightarrow> m' i = Some t \<and> lk' i = Some j"
  shows "client_at db cl m' lk' ((k, r, m1) # h) j p"
  using assms by (auto simp: client_at_def)

lemma after_inv:
  assumes inv: "conc_inv col db rows ok calls m0 s" and "ok d"
    and entry: "case reply_of p of None \<Rightarrow> rows d = rows_now m0 (cn_log s)
      | Some r \<Rightarrow> explained col m0 (cn_log s) k (calls k) r (rows d)"
    and here: "client_at db (calls k) (rows d) (locks_after k acc p (cn_lock s))
      ((k, reply_of p, rows d) # cn_log s) k p"
    and may: "may_run k (cn_lock s) acc \<or> (\<exists>r. p = Return r)"
    and others: "\<And>i j t. j \<noteq> k \<Longrightarrow> cn_lock s i = Some j \<Longrightarrow> rows (cn_store s) i = Some t \<Longrightarrow> rows d i = Some t"
  shows "conc_inv col db rows ok calls m0 (after rows k acc p d s)"
proof -
  have "client_at db (calls j) (rows d) (locks_after k acc p (cn_lock s))
      ((k, reply_of p, rows d) # cn_log s) j (((cn_prog s)(k := p)) j)" for j
  proof (cases "j = k")
    case False
    show ?thesis
      using client_at_other [OF conc_invD(4) [OF inv] False] False others locks_after_other [OF may False]
      by simp
  qed (use here in simp)
  moreover have "serially col m0 calls ((k, reply_of p, rows d) # cn_log s)"
    using entry conc_invD(2) [OF inv] by (cases "reply_of p") simp_all
  ultimately show ?thesis
    unfolding conc_inv_def using \<open>ok d\<close> by (simp add: after_def)
qed

text \<open>The step of a client that gets its answer, and of one that goes on.\<close>

lemma answered_at:
  assumes "client_at db cl m lk h k (Exec acc fl f)"
  shows "client_at db cl' m' lk' ((k, Some r, m1) # h) k (Return r)"
  using assms by (auto simp: client_at_def)

lemma answered_inv:
  assumes inv: "conc_inv col db rows ok calls m0 s" and prog: "cn_prog s k = Exec acc fl f" and "ok d"
    and "explained col m0 (cn_log s) k (calls k) r (rows d)"
    and "\<And>i j t. j \<noteq> k \<Longrightarrow> cn_lock s i = Some j \<Longrightarrow> rows (cn_store s) i = Some t \<Longrightarrow> rows d i = Some t"
  shows "conc_inv col db rows ok calls m0 (after rows k acc (Return r) d s)"
proof -
  have "client_at db (calls k) (rows (cn_store s)) (cn_lock s) (cn_log s) k (Exec acc fl f)"
    using conc_invD(4) [OF inv, of k] prog by simp
  from answered_at [OF this] show ?thesis
    using assms(3-5) by (intro after_inv [OF inv]) simp_all
qed

text \<open>An answer that leaves the rows as they are.\<close>

lemma kept_inv:
  assumes "conc_inv col db rows ok calls m0 s" and "cn_prog s k = Exec acc fl f" and "ok d"
    and "explained col m0 (cn_log s) k (calls k) r (rows d)" and "rows d = rows (cn_store s)"
  shows "conc_inv col db rows ok calls m0 (after rows k acc (Return r) d s)"
  using assms by (intro answered_inv) simp_all

lemma explained_fault:
  assumes "foreign e" and "m' = rows_now m0 h"
  shows "explained col m0 h k cl (Failed e) m'"
  using assms by (cases cl) (simp_all add: spec_fault)

text \<open>What the service makes of an error of the driver, at any statement.\<close>

lemma fault_reply:
  assumes "client_at db cl m lk h k (Exec acc fl f)" and "foreign e"
  obtains e' where "fl e = Failed e'" and "foreign e'"
proof -
  from assms(1) have "\<exists>text. fl e = Failed (Errorf_w text e)"
    using assms(2)
    by (cases cl) (auto simp: client_at_def one_statement_def list_count_def list_find_def upd_start_def
        upd_save_def list_reply_def upd_reply_def)
  with assms(2) that show thesis by auto
qed

lemma upd_reply_failed:
  assumes "e = AppErr ErrNotFound \<and> m i = None \<or> foreign e"
  shows "task_spec col m (CallUpdate i req) (upd_reply i (Inl e)) m"
  using assms
proof (elim disjE conjE)
  assume "e = AppErr ErrNotFound" "m i = None"
  then show ?thesis
    using spec_missing [of "CallUpdate i req" i m "AppErr ErrTaskNotFound"] by (simp add: upd_reply_def)
next
  assume "foreign e"
  then show ?thesis by (simp add: upd_reply_def spec_fault)
qed

section \<open>Every step keeps it\<close>

context gorm_contract begin

lemma upd_read_ok:
  assumes "inv s" and "upd_read db i s = (Inr t, d)"
  shows "inv d \<and> rows d = rows s \<and> rows s i = Some t"
  using g_first_ok [OF assms(1)] assms(2) by (auto simp: upd_read_def split: prod.splits sum.splits if_splits)

lemma upd_read_err:
  assumes "inv s" and "upd_read db i s = (Inl e, d)"
  shows "inv d \<and> rows d = rows s \<and> (e = AppErr ErrNotFound \<and> rows s i = None \<or> foreign e)"
  using g_first_err [OF assms(1)] assms(2) by (auto simp: upd_read_def split: prod.splits sum.splits if_splits)

text \<open>A call of one statement.\<close>

lemma one_statement_inv:
  assumes I: "conc_inv col db rows inv calls m0 s" and k: "cn_prog s k = Exec acc fl f"
    and call: "run_call (NewRepository db) (calls k) (cn_store s) = (r, d)"
    and no_list: "\<And>page limit. calls k \<noteq> CallList page limit"
    and others: "\<And>i j t. task_spec col (rows (cn_store s)) (calls k) r (rows d) \<Longrightarrow> cn_lock s i = Some j \<Longrightarrow>
      rows (cn_store s) i = Some t \<Longrightarrow> rows d i = Some t"
  shows "conc_inv col db rows inv calls m0 (after rows k acc (Return r) d s)"
proof -
  have spec: "inv d" "task_spec col (rows (cn_store s)) (calls k) r (rows d)"
    using run_call_refines [OF conc_invD(1) [OF I] call] by simp_all
  have "explained col m0 (cn_log s) k (calls k) r (rows d)"
    using spec(2) no_list conc_invD(3) [OF I] by (cases "calls k") auto
  then show ?thesis using spec others by (intro answered_inv [OF I k]) blast+
qed

lemma start_step:
  assumes lock: "applyRowLock db" and I: "conc_inv col db rows inv calls m0 s"
    and k: "cn_prog s k = call_prog db (calls k)" "cn_prog s k = Exec acc fl f" "replies k (cn_log s) = []"
    and may: "may_run k (cn_lock s) acc" and run: "f (cn_store s) = (p, d)"
  shows "conc_inv col db rows inv calls m0 (after rows k acc p d s)"
proof (cases "calls k")
  case (CallCreate req)
  then obtain r where r: "p = Return r" "run_call (NewRepository db) (calls k) (cn_store s) = (r, d)"
    using k(1,2) run by (auto simp: one_statement_def split: prod.splits simp del: run_call.simps)
  show ?thesis
    unfolding r(1) using CallCreate
    by (intro one_statement_inv [OF I k(2) r(2)]) (simp, auto elim!: task_spec_createE)
next
  case (CallGet i)
  then obtain r where r: "p = Return r" "run_call (NewRepository db) (calls k) (cn_store s) = (r, d)"
    using k(1,2) run by (auto simp: one_statement_def split: prod.splits simp del: run_call.simps)
  show ?thesis
    unfolding r(1) using CallGet
    by (intro one_statement_inv [OF I k(2) r(2)]) (auto elim: task_spec_get_cases)
next
  case (CallDelete i)
  then obtain r where r: "p = Return r" "run_call (NewRepository db) (calls k) (cn_store s) = (r, d)"
    and acc: "acc = Write i"
    using k(1,2) run by (auto simp: one_statement_def split: prod.splits simp del: run_call.simps)
  have "cn_lock s i = None" using may acc by simp
  then show ?thesis
    unfolding r(1) using CallDelete
    by (intro one_statement_inv [OF I k(2) r(2)]) (simp, auto elim!: task_spec_deleteE)
next
  case (CallList page limit)
  define q where "q = NewPageQuery page limit"
  have "Exec acc fl f = list_count db q" using k(1,2) CallList by (simp add: q_def)
  then have f: "f = (\<lambda>s. case g_count db s of (Inl e, s') \<Rightarrow> (Return (list_reply q (Inl e)), s')
      | (Inr n, s') \<Rightarrow> (list_find db q n, s'))"
    by (simp only: list_count_def prog.inject)
  obtain x u where x: "g_count db (cn_store s) = (x, u)" by fastforce
  show ?thesis
  proof (cases x)
    case (Inl e)
    then have p: "p = Return (list_reply q (Inl e))" "d = u" using run x by (simp_all add: f)
    note law = g_count_err [OF conc_invD(1) [OF I] x [unfolded Inl]]
    have "explained col m0 (cn_log s) k (calls k) (list_reply q (Inl e)) (rows d)"
      unfolding list_reply_def sum.case using law p conc_invD(3) [OF I] by (intro explained_fault) simp_all
    then show ?thesis unfolding p(1) using law p(2) by (intro kept_inv [OF I k(2)]) simp_all
  next
    case (Inr n)
    then have p: "p = list_find db q n" "d = u" using run x by (simp_all add: f)
    note law = g_count_ok [OF conc_invD(1) [OF I] x [unfolded Inr]]
    have "reply_of p = None" by (simp add: p list_find_def)
    moreover have "client_at db (calls k) (rows d) lk ((k, None, rows d) # cn_log s) k p" for lk
      using law p CallList k(3) by (auto simp: client_at_def q_def)
    ultimately show ?thesis
      using law p(2) conc_invD(3) [OF I] may by (intro after_inv [OF I]) simp_all
  qed
next
  case (CallUpdate i req)
  have acc: "acc = ForUpdate i" and f: "f = (\<lambda>s. case upd_read db i s of
      (Inl e, s') \<Rightarrow> (Return (upd_reply i (Inl e)), s') | (Inr t, s') \<Rightarrow> (upd_save db i req t, s'))"
    using k(1,2) CallUpdate lock by (simp_all add: upd_start_def)
  obtain x u where x: "upd_read db i (cn_store s) = (x, u)" by fastforce
  show ?thesis
  proof (cases x)
    case (Inl e)
    then have p: "p = Return (upd_reply i (Inl e))" "d = u" using run x by (simp_all add: f)
    note law = upd_read_err [OF conc_invD(1) [OF I] x [unfolded Inl]]
    then have "task_spec col (rows (cn_store s)) (calls k) (upd_reply i (Inl e)) (rows d)"
      using upd_reply_failed [of e "rows (cn_store s)" i] CallUpdate p(2) by simp
    then have "explained col m0 (cn_log s) k (calls k) (upd_reply i (Inl e)) (rows d)"
      using CallUpdate conc_invD(3) [OF I] by simp
    then show ?thesis unfolding p(1) using law p(2) by (intro kept_inv [OF I k(2)]) simp_all
  next
    case (Inr t)
    then have p: "p = upd_save db i req t" "d = u" using run x by (simp_all add: f)
    note law = upd_read_ok [OF conc_invD(1) [OF I] x [unfolded Inr]]
    have rep: "reply_of p = None" and lk: "locks_after k acc p (cn_lock s) = (cn_lock s)(i := Some k)"
      by (simp_all add: p acc upd_save_def)
    have "client_at db (calls k) (rows d) ((cn_lock s)(i := Some k)) ((k, None, rows d) # cn_log s) k p"
      using law p CallUpdate k(3) by (auto simp: client_at_def)
    then show ?thesis
      using law p(2) conc_invD(3) [OF I] may by (intro after_inv [OF I]) (simp_all add: rep lk)
  qed
qed

lemma find_step:
  assumes I: "conc_inv col db rows inv calls m0 s" and k: "cn_prog s k = Exec acc fl f"
    and call: "calls k = CallList page limit" and q: "q = NewPageQuery page limit"
    and prog: "Exec acc fl f = list_find db q (of_nat (card (dom mc)))"
    and count: "(k, None, mc) \<in> set (cn_log s)" and run: "f (cn_store s) = (p, d)"
  shows "conc_inv col db rows inv calls m0 (after rows k acc p d s)"
proof -
  let ?n = "of_nat (card (dom mc)) :: go_int"
  have f: "f = (\<lambda>s. case g_find db (Limit q) (Offset q) s of (Inl e, s') \<Rightarrow> (Return (list_reply q (Inl e)), s')
      | (Inr ts, s') \<Rightarrow> (Return (list_reply q (Inr (ts, ?n))), s'))"
    using prog by (simp add: list_find_def)
  obtain x u where x: "g_find db (Limit q) (Offset q) (cn_store s) = (x, u)" by fastforce
  note frame = g_find_frame [OF conc_invD(1) [OF I] x]
  have lim: "0 < sint (Limit q)" using NewPageQuery_bounds(2) [of page limit] by (simp add: q)
  show ?thesis
  proof (cases x)
    case (Inl e)
    then have p: "p = Return (list_reply q (Inl e))" "d = u" using run x by (simp_all add: f)
    have "foreign e" using g_find_err [OF conc_invD(1) [OF I] x [unfolded Inl]] .
    then have "explained col m0 (cn_log s) k (calls k) (list_reply q (Inl e)) (rows d)"
      unfolding list_reply_def sum.case using frame p conc_invD(3) [OF I] by (intro explained_fault) simp_all
    then show ?thesis unfolding p(1) using frame p(2) by (intro kept_inv [OF I k]) simp_all
  next
    case (Inr ts)
    then have p: "p = Return (list_reply q (Inr (ts, ?n)))" "d = u" using run x by (simp_all add: f)
    obtain mt where mt: "NewPageMeta q ?n = Some mt" by (simp add: NewPageMeta_def q)
    have "ts = page_slice q (newest_first (rows (cn_store s)))" if "0 \<le> sint (Offset q)"
      using g_find_ok [OF conc_invD(1) [OF I] that lim x [unfolded Inr]] by (simp add: page_slice_def)
    then have "explained col m0 (cn_log s) k (calls k) (list_reply q (Inr (ts, ?n))) (rows d)"
      using call frame p(2) conc_invD(3) [OF I] mt count
      by (auto simp: list_reply_def toResponses_map simp flip: q intro!: exI [of _ mc])
    then show ?thesis unfolding p(1) using frame p(2) by (intro kept_inv [OF I k]) simp_all
  qed
qed

lemma save_step:
  assumes I: "conc_inv col db rows inv calls m0 s" and k: "cn_prog s k = Exec acc fl f"
    and call: "calls k = CallUpdate i req" and prog: "Exec acc fl f = upd_save db i req t"
    and held: "cn_lock s i = Some k" "rows (cn_store s) i = Some t" and run: "f (cn_store s) = (p, d)"
    and fine: "\<not> (\<exists>i e. acc = Commit i \<and> p = Return (Failed e))"
  shows "conc_inv col db rows inv calls m0 (after rows k acc p d s)"
proof -
  have acc: "acc = Commit i" and f: "f = (\<lambda>s. case g_save db (mutate req t) s of (x, s') \<Rightarrow> (Return (upd_reply i x), s'))"
    using prog by (simp_all add: upd_save_def)
  obtain x where x: "g_save db (mutate req t) (cn_store s) = (x, d)" and p: "p = Return (upd_reply i x)"
    using run by (auto simp: f split: prod.splits)
  obtain t' where t': "x = Inr t'"
    using fine p acc by (cases x) (auto simp: upd_reply_def split: if_splits)
  note stored = stored [OF conc_invD(1) [OF I] held(2)]
  have law: "inv d" "rows d = (rows (cn_store s))(i \<mapsto> stored_as col t')" "same_fields (mutate req t) t'"
    "CreatedAt t' = CreatedAt t"
    using g_save_ok [OF conc_invD(1) [OF I] _ _ x [unfolded t']] held(2) stored by simp_all
  have "task_spec col (rows (cn_store s)) (CallUpdate i req) (upd_reply i x) (rows d)"
    unfolding law(2) upd_reply_def t' sum.case using held(2) law(3,4) by (rule spec_update)
  then have "explained col m0 (cn_log s) k (calls k) (upd_reply i x) (rows d)"
    using call conc_invD(3) [OF I] by simp
  then show ?thesis
    unfolding p using law(1,2) held(1) by (intro answered_inv [OF I k]) auto
qed

lemma rollback_step:
  assumes I: "conc_inv col db rows inv calls m0 s" and k: "cn_prog s k = Exec (Commit i) fl f"
    and run: "f (cn_store s) = (Return (Failed e), u)" and "inv d" and same: "rows d = rows (cn_store s)"
  shows "conc_inv col db rows inv calls m0 (after rows k (Commit i) (Return (Failed e)) d s)"
proof -
  obtain j req t where "Exec (Commit i) fl f = upd_save db j req t" and row: "rows (cn_store s) j = Some t"
    using conc_invD(4) [OF I, of k] k
    by (cases "calls k")
      (auto simp: client_at_def one_statement_def list_count_def list_find_def upd_start_def split: if_splits)
  then have f: "f = (\<lambda>s. case g_save db (mutate req t) s of (x, s') \<Rightarrow> (Return (upd_reply j x), s'))"
    by (simp add: upd_save_def)
  obtain x where x: "g_save db (mutate req t) (cn_store s) = (x, u)" "upd_reply j x = Failed e"
    using run by (auto simp: f split: prod.splits)
  then obtain e0 where e0: "x = Inl e0" by (cases x) (auto simp: upd_reply_def)
  note stored = stored [OF conc_invD(1) [OF I] row]
  have "foreign e0"
    using g_save_err [OF conc_invD(1) [OF I] _ _ x(1) [unfolded e0]] row stored by simp
  then have "foreign e" using x(2) by (auto simp: e0 upd_reply_def)
  then show ?thesis
    using \<open>inv d\<close> same conc_invD(3) [OF I] by (intro kept_inv [OF I k] explained_fault) simp_all
qed

lemma conc_step_inv:
  assumes lock: "applyRowLock db" and I: "conc_inv col db rows inv calls m0 s" and "conc_step rows inv s s'"
  shows "conc_inv col db rows inv calls m0 s'"
  using assms(3)
proof cases
  case (cn_exec k acc fl f p d)
  have "client_at db (calls k) (rows (cn_store s)) (cn_lock s) (cn_log s) k (Exec acc fl f)"
    using conc_invD(4) [OF I, of k] cn_exec(2) by simp
  then consider "Exec acc fl f = call_prog db (calls k)" "replies k (cn_log s) = []"
    | i req t where "calls k = CallUpdate i req" "Exec acc fl f = upd_save db i req t" "cn_lock s i = Some k"
        "rows (cn_store s) i = Some t"
    | page limit mc where "calls k = CallList page limit" "(k, None, mc) \<in> set (cn_log s)"
        "Exec acc fl f = list_find db (NewPageQuery page limit) (of_nat (card (dom mc)))"
    by (auto simp: client_at_def)
  then show ?thesis
  proof cases
    case 1
    then show ?thesis unfolding cn_exec(1) using start_step [OF lock I _ cn_exec(2) _ cn_exec(3,4)] cn_exec(2) by simp
  next
    case 2
    then show ?thesis unfolding cn_exec(1) using save_step [OF I cn_exec(2) 2(1-4) cn_exec(4,5)] by simp
  next
    case 3
    then show ?thesis unfolding cn_exec(1) using find_step [OF I cn_exec(2) 3(1) refl 3(3,2) cn_exec(4)] by simp
  qed
next
  case (cn_rollback k i fl f e u d)
  then show ?thesis using rollback_step [OF I cn_rollback(2,4,5,6)] by simp
next
  case (cn_fault k acc fl f e d)
  have "client_at db (calls k) (rows (cn_store s)) (cn_lock s) (cn_log s) k (Exec acc fl f)"
    using conc_invD(4) [OF I, of k] cn_fault(2) by simp
  then obtain e' where e': "fl e = Failed e'" "foreign e'" using cn_fault(3) by (rule fault_reply)
  then show ?thesis
    unfolding cn_fault(1) e'(1) using cn_fault(4,5) conc_invD(3) [OF I]
    by (intro kept_inv [OF I cn_fault(2)] explained_fault) simp_all
qed

lemma conc_run_inv:
  assumes "applyRowLock db" and "inv d0" and "conc_run db rows inv calls d0 s"
  shows "conc_inv col db rows inv calls (rows d0) s"
  using assms(3)
proof induction
  case conc_init
  show ?case using assms(2) by (rule conc_inv_start)
next
  case (conc_next s s')
  then show ?case using conc_step_inv [OF assms(1)] by blast
qed

end

section \<open>Concurrent calls\<close>

text \<open>C8: Concurrent calls are serializable. On every dialect but sqlite, however the statements of any
  number of calls of the service interleave, wait, fail and roll back, the log of the statements so
  far is one of calls made one after the other: an answered creation, read, update or deletion is a
  step of the specification of the service from the rows before it to those after it, and nothing
  else changes the rows, so that no update is lost and none brings a deleted task back. A listing is
  two statements: it shows the page of the rows at its answer and the total of the rows at its own
  count. Every client is answered at most once, after at most one other statement, and titles stay
  valid.\<close>

theorem concurrent_calls_serialize:
  assumes "gorm_contract db rows ok col" and "g_name db \<noteq> ''sqlite''" and "ok d0"
    and "conc_run db rows ok calls d0 s"
  shows "serially col (rows d0) calls (cn_log s) \<and>
    rows (cn_store s) = rows_now (rows d0) (cn_log s) \<and>
    (\<forall>k. \<exists>r. replies k (cn_log s) \<in> {[], [None], [Some r], [Some r, None]}) \<and>
    (\<forall>k r. cn_prog s k = Return r \<longleftrightarrow> (\<exists>m. (k, Some r, m) \<in> set (cn_log s))) \<and>
    ((\<forall>k. call_ok (calls k)) \<and> titles_ok (rows d0) \<longrightarrow> titles_ok (rows (cn_store s)))"
proof -
  have "applyRowLock db" using assms(2) by (simp add: applyRowLock_def)
  note I = gorm_contract.conc_run_inv [OF assms(1) this assms(3,4)]
  note clients = client_at_replies [OF conc_invD(4) [OF I]]
  have "titles_ok (rows (cn_store s))" if "\<forall>k. call_ok (calls k)" "titles_ok (rows d0)"
    using serially_titles [OF conc_invD(2) [OF I] that] conc_invD(3) [OF I] by simp
  moreover have "\<exists>r. replies k (cn_log s) \<in> {[], [None], [Some r], [Some r, None]}" for k
    using clients(1) .
  moreover have "cn_prog s k = Return r \<longleftrightarrow> (\<exists>m. (k, Some r, m) \<in> set (cn_log s))" for k r
    using clients(2) [of k r] by (simp add: replies_set)
  ultimately show ?thesis
    using conc_invD(2,3) [OF I] by simp
qed

text \<open>A run in which the first of two clients updates a task that the second deletes.\<close>

definition new_title :: UpdateRequest where
  "new_title = \<lparr>Title_u = Some ''new'', Done_u = None, DueDate_u = zero_NullableTime\<rparr>"

definition update_and_delete :: "nat \<Rightarrow> svc_call" where
  "update_and_delete k = (if k = 0 then CallUpdate 7 new_title else CallDelete 7)"

lemmas sample_rows = one_task_def empty_tables_def sample_task_def zero_Task_def live_def

theorem concurrent_calls_serialize_witness:
  "\<exists>s r. conc_run (sample_gorm ''postgres'') tables_rows tables_inv update_and_delete one_task s \<and>
     cn_prog s 0 = Return r \<and> tables_rows (cn_store s) = rows_now (tables_rows one_task) (cn_log s)"
proof -
  let ?db = "sample_gorm ''postgres''"
  let ?s0 = "conc_start ?db update_and_delete one_task"
  have name: "g_name ?db \<noteq> ''sqlite''" by (simp add: sample_gorm_def)
  have lock: "applyRowLock ?db" by (simp add: applyRowLock_def sample_gorm_def)
  have prog0: "cn_prog ?s0 0 = upd_start ?db 7 new_title" by (simp add: conc_start_def update_and_delete_def)
  obtain d where read: "upd_read ?db 7 one_task = (Inr sample_task, d)"
    by (simp add: upd_read_def sample_defs sample_rows)
  define s1 where "s1 = after tables_rows 0 (ForUpdate 7) (upd_save ?db 7 new_title sample_task) d ?s0"
  have "conc_step tables_rows tables_inv ?s0 s1"
    unfolding s1_def
  proof (rule cn_exec)
    show "cn_prog ?s0 0 = Exec (ForUpdate 7) (\<lambda>e. upd_reply 7 (Inl e)) (\<lambda>s. case upd_read ?db 7 s of
        (Inl e, s') \<Rightarrow> (Return (upd_reply 7 (Inl e)), s') | (Inr t, s') \<Rightarrow> (upd_save ?db 7 new_title t, s'))"
      by (simp only: prog0 upd_start_def lock if_True)
  qed (use read in \<open>simp_all add: conc_start_def\<close>)
  with conc_init have run1: "conc_run ?db tables_rows tables_inv update_and_delete one_task s1" by (rule conc_next)
  have s1: "cn_prog s1 0 = upd_save ?db 7 new_title sample_task" "cn_store s1 = d" "cn_lock s1 7 = Some 0"
    by (simp_all add: s1_def after_def upd_save_def)
  obtain t' d' where save: "g_save ?db (mutate new_title sample_task) d = (Inr t', d')"
    using read by (auto simp: upd_read_def sample_defs sample_rows Let_def)
  let ?s2 = "after tables_rows 0 (Commit 7) (Return (upd_reply 7 (Inr t'))) d' s1"
  have "conc_step tables_rows tables_inv s1 ?s2"
  proof (rule cn_exec)
    show "cn_prog s1 0 = Exec (Commit 7) (\<lambda>e. upd_reply 7 (Inl e))
        (\<lambda>s. case g_save ?db (mutate new_title sample_task) s of (x, s') \<Rightarrow> (Return (upd_reply 7 x), s'))"
      by (simp only: s1 upd_save_def)
  qed (use save in \<open>simp_all add: s1 upd_reply_def\<close>)
  with run1 have run2: "conc_run ?db tables_rows tables_inv update_and_delete one_task ?s2" by (rule conc_next)
  have "cn_prog ?s2 0 = Return (upd_reply 7 (Inr t'))" by (simp add: after_def)
  then show ?thesis
    using concurrent_calls_serialize [OF sample.gorm_contract_axioms name sample_inv(2) run2] run2 by blast
qed

section \<open>Without the lock\<close>

definition set_done :: UpdateRequest where
  "set_done = \<lparr>Title_u = None, Done_u = Some True, DueDate_u = zero_NullableTime\<rparr>"

definition two_updates :: "nat \<Rightarrow> svc_call" where
  "two_updates k = CallUpdate 7 (if k = 0 then new_title else set_done)"

lemma sample_statements:
  "\<exists>d1 d2 a d3 b d4. upd_read (sample_gorm name) 7 one_task = (Inr sample_task, d1) \<and>
     upd_read (sample_gorm name) 7 d1 = (Inr sample_task, d2) \<and>
     g_save (sample_gorm name) (mutate new_title sample_task) d2 = (Inr a, d3) \<and>
     g_save (sample_gorm name) (mutate set_done sample_task) d3 = (Inr b, d4)"
  by (simp add: upd_read_def sample_defs sample_rows Let_def)

lemma no_lock_steps:
  assumes "\<not> applyRowLock db" and "\<And>i. cn_lock s i = None"
  shows "cn_prog s k = upd_start db i req \<Longrightarrow> upd_read db i (cn_store s) = (Inr t, d) \<Longrightarrow>
      conc_step rows ok s (after rows k Plain (upd_save db i req t) d s)"
    and "cn_prog s k = upd_save db i req t \<Longrightarrow> g_save db (mutate req t) (cn_store s) = (Inr t', d) \<Longrightarrow>
      conc_step rows ok s (after rows k (Commit i) (Return (Replied (toResponse t'))) d s)"
  using assms
  by (auto intro!: cn_exec [where fl = "\<lambda>e. upd_reply i (Inl e)"] simp: upd_start_def upd_save_def upd_reply_def fun_eq_iff)

text \<open>The sqlite branch of \<open>applyRowLock\<close> gives the guarantee up: as far as the code goes, two updates
  that both read before either saves can both succeed, and the log is not one of calls made one after
  the other, since the title that the first one set is lost.\<close>

theorem sqlite_can_lose_update:
  "\<exists>s. conc_run (sample_gorm ''sqlite'') tables_rows tables_inv two_updates one_task s \<and>
     (\<forall>k < 2. \<exists>r. cn_prog s k = Return (Replied r)) \<and>
     \<not> serially whole_second (tables_rows one_task) two_updates (cn_log s)"
proof -
  let ?db = "sample_gorm ''sqlite''"
  let ?step = "conc_step tables_rows tables_inv" and ?after = "after tables_rows"
  have nolock: "\<not> applyRowLock ?db" by (simp add: applyRowLock_def sample_gorm_def)
  obtain d1 d2 a d3 b d4 where read: "upd_read ?db 7 one_task = (Inr sample_task, d1)" "upd_read ?db 7 d1 = (Inr sample_task, d2)"
    and save: "g_save ?db (mutate new_title sample_task) d2 = (Inr a, d3)" "g_save ?db (mutate set_done sample_task) d3 = (Inr b, d4)"
    using sample_statements by blast
  define s0 where "s0 = conc_start ?db two_updates one_task"
  define s1 where "s1 = ?after 0 Plain (upd_save ?db 7 new_title sample_task) d1 s0"
  define s2 where "s2 = ?after 1 Plain (upd_save ?db 7 set_done sample_task) d2 s1"
  define s3 where "s3 = ?after 0 (Commit 7) (Return (Replied (toResponse a))) d3 s2"
  define s4 where "s4 = ?after 1 (Commit 7) (Return (Replied (toResponse b))) d4 s3"
  have keep: "locks_after k Plain (upd_save ?db i req t) lk = lk" "reply_of (upd_save ?db i req t) = None" for k i req t lk
    by (simp_all add: upd_save_def)
  have lk: "cn_lock s0 i = None" "cn_lock s1 i = None" "cn_lock s2 i = None" "cn_lock s3 i = None" for i
    by (simp_all add: s0_def s1_def s2_def s3_def conc_start_def after_def keep)
  have "?step s0 s1" "?step s1 s2"
    unfolding s1_def s2_def using read lk(1,2) nolock
    by (intro no_lock_steps(1); simp add: s0_def s1_def conc_start_def after_def two_updates_def)+
  moreover have "?step s2 s3" "?step s3 s4"
    unfolding s3_def s4_def using save lk(3,4) nolock
    by (intro no_lock_steps(2); simp add: s1_def s2_def s3_def after_def)+
  ultimately have run: "conc_run ?db tables_rows tables_inv two_updates one_task s4"
    using conc_init [of ?db tables_rows tables_inv two_updates one_task] unfolding s0_def by (blast intro: conc_next)
  have store: "tables_inv one_task" by (rule sample_inv(2))
  note law1 = sample.upd_read_ok [OF store read(1)]
  note law2 = sample.upd_read_ok [OF conjunct1 [OF law1] read(2)]
  have t: "ID sample_task = 7" "DeletedAt sample_task = None" "Title sample_task \<noteq> ''new''"
    by (simp_all add: sample_task_def zero_Task_def)
  have law3: "tables_inv d3" "tables_rows d3 = (tables_rows d2)(7 \<mapsto> stored_as whole_second a)"
    "same_fields (mutate new_title sample_task) a"
    using sample.g_save_ok [OF _ _ _ save(1)] law1 law2 t by simp_all
  have law4: "tables_rows d4 = (tables_rows d3)(7 \<mapsto> stored_as whole_second b)"
    "same_fields (mutate set_done sample_task) b"
    using sample.g_save_ok [OF _ _ _ save(2)] law3(1,2) t by simp_all
  have titles: "Title a = ''new''" "Title b \<noteq> ''new''"
    using law3(3) law4(2) t(3) by (simp_all add: same_fields_def new_title_def set_done_def)
  have log: "cn_log s4 = (1, Some (Replied (toResponse b)), tables_rows d4) # cn_log s3"
    "rows_now (tables_rows one_task) (cn_log s3) = tables_rows d3"
    by (simp_all add: s4_def s3_def after_def)
  have "\<not> task_spec whole_second (tables_rows d3) (CallUpdate 7 set_done) (Replied (toResponse b)) (tables_rows d4)"
  proof
    assume "task_spec whole_second (tables_rows d3) (CallUpdate 7 set_done) (Replied (toResponse b)) (tables_rows d4)"
    then obtain u v where "tables_rows d3 7 = Some u" "same_fields (mutate set_done u) v" "tables_rows d4 7 = Some (stored_as whole_second v)"
      by (cases rule: task_spec_update_cases) auto
    then have "Title (stored_as whole_second b) = ''new''"
      using law3(2) law4(1) titles(1) by (auto simp: same_fields_def set_done_def)
    then show False using titles(2) by simp
  qed
  then have "\<not> serially whole_second (tables_rows one_task) two_updates (cn_log s4)"
    unfolding log(1) by (simp add: log(2) two_updates_def)
  moreover have "\<forall>k < 2. \<exists>r. cn_prog s4 k = Return (Replied r)"
    by (auto simp: s4_def s3_def after_def less_2_cases_iff)
  ultimately show ?thesis using run by blast
qed

end
