(* ===== verification/Config_App.thy ===== *)
theory Config_App
  imports Config
begin

text \<open>
  The configuration at both ends: the defaults that the struct tags of \<open>Config\<close> give to an empty
  environment, and the settings of the server that \<open>router.New\<close> and \<open>cmd/api\<close> take from it.
\<close>

section \<open>Defaults\<close>

definition minute :: duration where "minute = 60000000000"

text \<open>The \<open>envDefault\<close> tags.\<close>

definition default_config :: Config where
  "default_config =
     \<lparr>AppName = ''go-fiber-starter'', Env = ''local'', Port = 8080, LogLevel = ''info'',
      DBDriver = ''sqlite'', DBDSN = ''data/app.db'', DBMaxOpenConns = 25, DBMaxIdleConns = 5,
      DBConnMaxLifetime = 30 * minute, DBAutoMigrate = True, DBSlowQueryThreshold = 500000000,
      CORSAllowedOrigins = [''*''], RateLimitPerMinute = 120, AuthRateLimitPerMinute = 10,
      TrustProxy = False, TrustProxyProxies = [], TrustProxyHeader = ''X-Forwarded-For'',
      ReadTimeout = 15000000000, WriteTimeout = 15000000000, IdleTimeout = minute,
      ShutdownGracePeriod = 10000000000, AuthEnabled = False, AuthJWTSecret = [],
      AuthTokenTTL = 60 * minute, AuthDemoUsername = ''admin'', AuthDemoPassword = ''admin123'',
      BuildCommit = []\<rparr>"

lemmas default_eval =
  default_config_def Validate_problems_def addf_def isValidPort_def IsProd_def config_consts
  lower_byte_def HasPrefix_def minute_def Let_def

lemma lower_info: "ToLower ''info'' = ''info''"
  by code_simp

text \<open>The defaults are for development and cannot slip into production. With an empty environment the
  configuration is valid; with nothing but \<open>APP_ENV=prod\<close> it is refused with exactly two
  findings, sqlite and the wildcard origin; with authentication switched on as well, the missing
  secret and the demo credentials are reported too.\<close>

theorem defaults_are_for_development:
  "Load sprintf (Inr default_config) = Inr default_config \<and>
   map fst (Validate_problems (default_config\<lparr>Env := EnvProd\<rparr>)) =
     [''DB_DRIVER=sqlite is not allowed with APP_ENV=prod (use postgres or mysql)'',
      ''CORS_ALLOWED_ORIGINS must not contain \"*\" when APP_ENV=prod (list explicit origins)''] \<and>
   map fst (Validate_problems (default_config\<lparr>Env := EnvProd, AuthEnabled := True\<rparr>)) =
     [''DB_DRIVER=sqlite is not allowed with APP_ENV=prod (use postgres or mysql)'',
      ''CORS_ALLOWED_ORIGINS must not contain \"*\" when APP_ENV=prod (list explicit origins)'',
      ''AUTH_JWT_SECRET must be >= 32 bytes when AUTH_ENABLED=true (got %d bytes)'',
      ''AUTH_DEMO_USERNAME/AUTH_DEMO_PASSWORD defaults are forbidden when APP_ENV=prod (set explicit credentials or replace the demo authenticator)'']"
  by (simp add: default_eval lower_info Load_def Validate_def)

section \<open>The settings of the server\<close>

text \<open>\<open>bodyLimit\<close> is \<open>1 << 20\<close>.\<close>

definition bodyLimit :: int where "bodyLimit = push_bit 20 1"

record fiber_config =
  fc_AppName :: string
  fc_BodyLimit :: int
  fc_ReadTimeout :: duration
  fc_WriteTimeout :: duration
  fc_IdleTimeout :: duration
  fc_TrustProxy :: bool
  fc_Proxies :: "string list"
  fc_ProxyHeader :: string

definition fiber_settings :: "Config \<Rightarrow> fiber_config" where
  "fiber_settings cfg =
     \<lparr>fc_AppName = AppName cfg, fc_BodyLimit = bodyLimit, fc_ReadTimeout = ReadTimeout cfg,
      fc_WriteTimeout = WriteTimeout cfg, fc_IdleTimeout = IdleTimeout cfg,
      fc_TrustProxy = TrustProxy cfg, fc_Proxies = TrustProxyProxies cfg,
      fc_ProxyHeader = TrustProxyHeader cfg\<rparr>"

text \<open>C33: The server never runs unbounded or spoofable. Under every configuration that \<open>Load\<close> hands out,
  requests have a body limit of one MiB and positive timeouts, the address of a client is taken
  from a header only for connections from a non-empty list of proxies that are IP addresses or
  CIDR blocks, and the header has a name; both rate limits are positive, and that of the login is
  within the global one.\<close>

theorem server_settings_are_bounded:
  assumes "Load sprintf env_parse = Inr cfg" and "fc = fiber_settings cfg"
  shows "fc_BodyLimit fc = 1048576 \<and>
    0 < fc_ReadTimeout fc \<and> 0 < fc_WriteTimeout fc \<and> 0 < fc_IdleTimeout fc \<and>
    (fc_TrustProxy fc \<longrightarrow> fc_Proxies fc \<noteq> [] \<and> fc_ProxyHeader fc \<noteq> []) \<and>
    (\<forall>p \<in> set (fc_Proxies fc). ParseIP p \<or> ParseCIDR p) \<and>
    1 \<le> AuthRateLimitPerMinute cfg \<and> AuthRateLimitPerMinute cfg \<le> RateLimitPerMinute cfg"
proof -
  have "config_ok cfg" by (rule Load_config_ok [OF assms(1)])
  then have "server_ok cfg" and "proxies_ok cfg" by (simp_all add: config_ok_def)
  then show ?thesis
    by (auto simp: assms(2) fiber_settings_def bodyLimit_def server_ok_def proxies_ok_def list_all_iff
        push_bit_eq_mult)
qed

theorem server_settings_are_bounded_witness:
  "fc_BodyLimit (fiber_settings prod_config) = 1048576"
  using server_settings_are_bounded [OF Load_prod_config refl] by blast

end
