(* ===== verification/Database.thy ===== *)
theory Database
  imports Config Middleware
begin

text \<open>
  The package \<open>internal/database\<close>: opening and checking the database (\<open>database.go\<close>), the adapter
  from GORM's log to \<open>slog\<close> (\<open>logger.go\<close>), and the policy for schema changes (\<open>migrator.go\<close>).
  GORM, the drivers and the file system are the record \<open>dbworld\<close>, which says how each call ends;
  what the code does to them is recorded as a list of events.
\<close>

section \<open>Opening\<close>

datatype db_event =
    EvMkdir string int
  | EvOpen string string
  | EvPool int int duration
  | EvPing duration
  | EvMigrate
  | EvWarn string
  | EvListen string duration
  | EvClose
  | EvLog log_level string

record dbworld =
  w_abs :: "string \<Rightarrow> goerr + string"
  w_dir :: "string \<Rightarrow> string"
  w_mkdir :: "string \<Rightarrow> goerr option"
  w_open :: "string \<Rightarrow> string \<Rightarrow> goerr option"
  w_sqldb :: "goerr option"
  w_ping :: "goerr option"
  w_migrate :: "goerr option"
  w_listen :: "goerr option"

text \<open>The dialector: the driver's name and the DSN it opens.\<close>

definition dialector :: "dbworld \<Rightarrow> Config \<Rightarrow> (goerr + string \<times> string) \<times> db_event list" where
  "dialector w cfg =
     (if DBDriver cfg = DBDriverPostgres then (Inr (''postgres'', DBDSN cfg), [])
      else if DBDriver cfg = DBDriverMySQL then (Inr (''mysql'', DBDSN cfg), [])
      else if DBDriver cfg = DBDriverSQLite then
        (case w_abs w (DBDSN cfg) of
           Inl e \<Rightarrow> (Inl e, [])
         | Inr path \<Rightarrow>
             let dir = w_dir w path
             in if dir \<noteq> [] \<and> dir \<noteq> ''.'' then
                  (case w_mkdir w dir of
                     Some e \<Rightarrow> (Inl (WrapErr (''create sqlite directory: '' @ Error e) e), [EvMkdir dir 448])
                   | None \<Rightarrow> (Inr (''sqlite'', path), [EvMkdir dir 448]))
                else (Inr (''sqlite'', path), []))
      else (Inl (OpaqueErr (''unsupported DB driver: '' @ DBDriver cfg)), []))"

definition db_New :: "dbworld \<Rightarrow> Config \<Rightarrow> goerr option \<times> db_event list" where
  "db_New w cfg =
     (case dialector w cfg of
        (Inl e, evs) \<Rightarrow> (Some e, evs)
      | (Inr (name, dsn), evs) \<Rightarrow>
          let evs = evs @ [EvOpen name dsn]
          in case w_open w name dsn of
               Some e \<Rightarrow> (Some e, evs)
             | None \<Rightarrow>
                 (case w_sqldb w of
                    Some e \<Rightarrow> (Some e, evs)
                  | None \<Rightarrow>
                      let evs = evs @ [EvPool (DBMaxOpenConns cfg) (DBMaxIdleConns cfg) (DBConnMaxLifetime cfg),
                                       EvPing 5000000000]
                      in case w_ping w of Some e \<Rightarrow> (Some e, evs) | None \<Rightarrow> (None, evs)))"

definition db_Ping :: "dbworld \<Rightarrow> goerr option \<times> db_event list" where
  "db_Ping w =
     (case w_sqldb w of Some e \<Rightarrow> (Some e, []) | None \<Rightarrow> (w_ping w, [EvPing 3000000000]))"

definition WithTx :: "(('s \<Rightarrow> goerr option \<times> 's) \<Rightarrow> 's \<Rightarrow> goerr option \<times> 's) \<Rightarrow>
    ('s \<Rightarrow> goerr option \<times> 's) \<Rightarrow> 's \<Rightarrow> goerr option \<times> 's" where
  "WithTx transaction fn = transaction fn"

text \<open>C37: A database handle is only handed out checked. \<open>New\<close> succeeds exactly when the driver is one of
  the three, its file can be prepared, and opening and pinging succeed; and then it has opened that
  driver, set the pool limits of the configuration and pinged last, with nothing else in between.
  For sqlite the directory is created first, for its owner only (0700).\<close>

theorem database_opened_and_checked:
  "fst (db_New w cfg) = None \<longleftrightarrow>
     (\<exists>name dsn pre. dialector w cfg = (Inr (name, dsn), pre) \<and>
        w_open w name dsn = None \<and> w_sqldb w = None \<and> w_ping w = None \<and>
        snd (db_New w cfg) = pre @ [EvOpen name dsn,
          EvPool (DBMaxOpenConns cfg) (DBMaxIdleConns cfg) (DBConnMaxLifetime cfg), EvPing 5000000000] \<and>
        name = DBDriver cfg \<and> (pre = [] \<or> (\<exists>dir. name = DBDriverSQLite \<and> pre = [EvMkdir dir 448])))"
proof -
  have dial: "r = Inr (name, dsn) \<Longrightarrow> name = DBDriver cfg \<and>
      (pre = [] \<or> (\<exists>dir. name = DBDriverSQLite \<and> pre = [EvMkdir dir 448]))"
    if "dialector w cfg = (r, pre)" for r name dsn pre
    using that
    by (auto simp: dialector_def config_consts Let_def split: if_splits sum.splits option.splits)
  obtain r pre where d: "dialector w cfg = (r, pre)" by fastforce
  show ?thesis
  proof (cases r)
    case (Inl e)
    then show ?thesis using d by (simp add: db_New_def)
  next
    case (Inr x)
    obtain name dsn where x: "x = (name, dsn)" by fastforce
    show ?thesis
      using d Inr x dial [OF d, of name dsn]
      by (auto simp: db_New_def Let_def split: option.splits)
  qed
qed

section \<open>Schema policy\<close>

text \<open>\<open>AutoMigrateIfNeeded\<close>; \<open>models\<close> is their number.\<close>

definition AutoMigrateIfNeeded :: "dbworld \<Rightarrow> Config \<Rightarrow> nat \<Rightarrow> goerr option \<times> db_event list" where
  "AutoMigrateIfNeeded w cfg models =
     (if \<not> DBAutoMigrate cfg \<or> models = 0 then (None, [])
      else if DBDriver cfg \<noteq> DBDriverSQLite then
        (if IsProd cfg then
           (Some (OpaqueErr (''DB_AUTO_MIGRATE is not allowed in prod with '' @ DBDriver cfg @
                  ''; use `migrate up` (see db/migrations)'')), [])
         else (w_migrate w,
               [EvWarn ''DB_AUTO_MIGRATE enabled for non-sqlite driver in dev; use versioned migrations for real data'',
                EvMigrate]))
      else (w_migrate w, [EvMigrate]))"

text \<open>Production schemas change by versioned migrations only. Under a valid configuration with
  \<open>APP_ENV=prod\<close>, \<open>AutoMigrateIfNeeded\<close> never migrates: it does nothing when \<open>DB_AUTO_MIGRATE\<close> is off
  and refuses with an error when it is on.\<close>

theorem production_never_automigrates:
  assumes "config_ok cfg" and "IsProd cfg" and "0 < models"
  shows "EvMigrate \<notin> set (snd (AutoMigrateIfNeeded w cfg models)) \<and>
    (fst (AutoMigrateIfNeeded w cfg models) = None \<longleftrightarrow> \<not> DBAutoMigrate cfg)"
  using assms by (auto simp: AutoMigrateIfNeeded_def config_ok_def database_ok_def)

definition sample_dbworld :: dbworld where
  "sample_dbworld =
     \<lparr>w_abs = Inr, w_dir = (\<lambda>p. ''/data''), w_mkdir = (\<lambda>d. None), w_open = (\<lambda>n d. None),
      w_sqldb = None, w_ping = None, w_migrate = None, w_listen = None\<rparr>"

theorem production_never_automigrates_witness:
  "EvMigrate \<notin> set (snd (AutoMigrateIfNeeded sample_dbworld prod_config 1))"
  using production_never_automigrates [OF prod_config_ok, of 1 sample_dbworld]
  by (simp add: IsProd_def prod_config_def EnvProd_def)

section \<open>The log adapter\<close>

text \<open>GORM's log levels are integers.\<close>

definition Silent :: int where "Silent = 1"
definition ErrorLevel :: int where "ErrorLevel = 2"
definition WarnLevel :: int where "WarnLevel = 3"
definition InfoLevel :: int where "InfoLevel = 4"

record Logger =
  lg_level :: int
  lg_slow :: duration

definition NewLogger :: "bool \<Rightarrow> duration \<Rightarrow> Logger" where
  "NewLogger debug slowQueryThreshold =
     \<lparr>lg_level = (if debug then InfoLevel else WarnLevel), lg_slow = slowQueryThreshold\<rparr>"

definition LogMode :: "int \<Rightarrow> Logger \<Rightarrow> Logger" where
  "LogMode level l = l\<lparr>lg_level := level\<rparr>"

definition lg_Info :: "string \<Rightarrow> log_level \<times> string" where "lg_Info msg = (LInfo, msg)"
definition lg_Warn :: "string \<Rightarrow> log_level \<times> string" where "lg_Warn msg = (LWarn, msg)"
definition lg_Error :: "string \<Rightarrow> log_level \<times> string" where "lg_Error msg = (LError, msg)"

definition Trace :: "Logger \<Rightarrow> duration \<Rightarrow> goerr option \<Rightarrow> (log_level \<times> string) option" where
  "Trace l elapsed e =
     (if lg_level l \<le> Silent then None
      else case e of
             Some x \<Rightarrow>
               if \<not> errors_Is x (SentinelErr ErrRecordNotFound) then Some (LError, ''gorm query failed'')
               else if lg_slow l > 0 \<and> elapsed > lg_slow l then Some (LWarn, ''slow query'')
               else if lg_level l \<ge> InfoLevel then Some (LDebug, ''query'') else None
           | None \<Rightarrow>
               if lg_slow l > 0 \<and> elapsed > lg_slow l then Some (LWarn, ''slow query'')
               else if lg_level l \<ge> InfoLevel then Some (LDebug, ''query'') else None)"



end
