(* ===== verification/Api_Cmd.thy ===== *)
theory Api_Cmd
  imports Database
begin

text \<open>
  The server process, \<open>cmd/api/main.go\<close>: from the configuration to the end of \<open>Listen\<close>. The run is
  the list of events it causes; \<open>load\<close> is what \<open>config.Load\<close> returns and the record \<open>dbworld\<close> says
  how the database and \<open>Listen\<close> end.
\<close>

definition log_level_of :: "Config \<Rightarrow> log_level" where
  "log_level_of cfg =
     (let l = ToLower (LogLevel cfg)
      in if l = ''debug'' then LDebug else if l = ''warn'' then LWarn
         else if l = ''error'' then LError else LInfo)"

text \<open>A record reaches the output when its level is at least the logger's.\<close>

definition enabled :: "log_level \<Rightarrow> log_level \<Rightarrow> bool" where
  "enabled logger_level l \<longleftrightarrow> logger_level \<le> l"

definition api_run :: "string \<Rightarrow> dbworld \<Rightarrow> (goerr + Config) \<Rightarrow> goerr option \<times> db_event list" where
  "api_run commit w load =
     (case load of
        Inl e \<Rightarrow> (Some e, [])
      | Inr cfg \<Rightarrow>
          let cfg = cfg\<lparr>BuildCommit := commit\<rparr>;
              starting = [EvLog LInfo ''starting'']
          in case db_New w cfg of
               (Some e, evs) \<Rightarrow> (Some (WrapErr (''connect database: '' @ Error e) e), starting @ evs)
             | (None, evs) \<Rightarrow>
                 let closing = (if w_sqldb w = None then [EvClose, EvLog LInfo ''database connections closed''] else []);
                     (e, mig) = AutoMigrateIfNeeded w cfg 1;
                     evs = starting @ evs @ mig
                 in case e of
                      Some e \<Rightarrow> (Some (WrapErr (''auto migrate: '' @ Error e) e), evs @ closing)
                    | None \<Rightarrow>
                        let addr = CHR '':'' # Itoa (Port cfg);
                            evs = evs @ [EvLog LInfo ''http server listening'',
                                         EvListen addr (ShutdownGracePeriod cfg)]
                        in case w_listen w of
                             Some e \<Rightarrow> (Some (WrapErr (''server: '' @ Error e) e), evs @ closing)
                           | None \<Rightarrow> (None, evs @ [EvLog LInfo ''shut down gracefully''] @ closing))"

text \<open>The registry that \<open>run\<close> passes to \<open>router.New\<close>, which adds the two metrics of the requests.\<close>

definition newMetricsRegistry :: registry where
  "newMetricsRegistry = [GoCollector, ProcessCollector]"

lemma registered_once: "distinct (snd (NewPrometheus newMetricsRegistry))"
  by (simp add: NewPrometheus_def newMetricsRegistry_def)

text \<open>\<open>newLogger\<close> and the logger of the database: debug mode follows the level.\<close>

definition db_logger :: "Config \<Rightarrow> Logger" where
  "db_logger cfg = NewLogger (enabled (log_level_of cfg) LDebug) (DBSlowQueryThreshold cfg)"

definition before :: "'a \<Rightarrow> 'a \<Rightarrow> 'a list \<Rightarrow> bool" where
  "before x y xs \<longleftrightarrow> (\<forall>us vs. xs = us @ y # vs \<longrightarrow> x \<in> set us)"

lemma db_New_success:
  assumes "db_New w cfg = (None, evs)"
  shows "w_sqldb w = None \<and> (\<exists>name dsn pre. (pre = [] \<or> (\<exists>dir. pre = [EvMkdir dir 448])) \<and>
    evs = pre @ [EvOpen name dsn,
      EvPool (DBMaxOpenConns cfg) (DBMaxIdleConns cfg) (DBConnMaxLifetime cfg), EvPing 5000000000])"
  using assms
  by (auto simp: db_New_def dialector_def Let_def split: prod.splits sum.splits option.splits if_splits)

lemma db_New_commit [simp]:
  "db_New w (cfg\<lparr>BuildCommit := c\<rparr>) = db_New w cfg"
  "AutoMigrateIfNeeded w (cfg\<lparr>BuildCommit := c\<rparr>) n = AutoMigrateIfNeeded w cfg n"
proof -
  have dial: "dialector w (cfg\<lparr>BuildCommit := c\<rparr>) = dialector w cfg"
    by (simp add: dialector_def Let_def)
  show "db_New w (cfg\<lparr>BuildCommit := c\<rparr>) = db_New w cfg"
    by (simp add: db_New_def dial Let_def split: prod.split sum.split option.split)
  show "AutoMigrateIfNeeded w (cfg\<lparr>BuildCommit := c\<rparr>) n = AutoMigrateIfNeeded w cfg n"
    by (simp add: AutoMigrateIfNeeded_def IsProd_def)
qed

lemma db_New_events: "EvClose \<notin> set (snd (db_New w cfg)) \<and> EvListen a g \<notin> set (snd (db_New w cfg))"
  by (auto simp: db_New_def dialector_def Let_def split: sum.split option.split)

lemma before_prefix:
  assumes "x \<in> set us" and "y \<notin> set us"
  shows "before x y (us @ vs)"
  unfolding before_def
proof (intro allI impI)
  fix ps qs assume split: "us @ vs = ps @ y # qs"
  have "\<not> length ps < length us"
  proof
    assume less: "length ps < length us"
    have "(us @ vs) ! length ps = y" by (simp add: split)
    then have "us ! length ps = y" using less by (simp add: nth_append)
    with less assms(2) show False by (metis nth_mem)
  qed
  then have "take (length us) ps = us"
    using split by (metis append_eq_conv_conj append_eq_append_conv_if linorder_not_less take_all_iff)
  then show "x \<in> set ps" using assms(1) by (metis in_set_takeD)
qed

abbreviation listen_event :: "Config \<Rightarrow> db_event" where
  "listen_event cfg \<equiv> EvListen (CHR '':'' # Itoa (Port cfg)) (ShutdownGracePeriod cfg)"

abbreviation closing_events :: "db_event list" where
  "closing_events \<equiv> [EvClose, EvLog LInfo ''database connections closed'']"

text \<open>The four ways a run can go.\<close>

lemma api_run_outcomes:
  assumes "api_run commit w (Inr cfg) = (e, evs)" and "db_New w cfg = (en, devs)"
    and "AutoMigrateIfNeeded w cfg 1 = (em, mevs)"
  obtains (no_database) "en \<noteq> None" "e \<noteq> None" "evs = [EvLog LInfo ''starting''] @ devs"
  | (no_schema) "en = None" "em \<noteq> None" "e \<noteq> None" "evs = [EvLog LInfo ''starting''] @ devs @ mevs @ closing_events"
  | (no_server) "en = None" "em = None" "w_listen w \<noteq> None" "e \<noteq> None"
      "evs = ([EvLog LInfo ''starting''] @ devs @ mevs @ [EvLog LInfo ''http server listening'', listen_event cfg]) @
        closing_events"
  | (served) "en = None" "em = None" "w_listen w = None" "e = None"
      "evs = ([EvLog LInfo ''starting''] @ devs @ mevs @ [EvLog LInfo ''http server listening'', listen_event cfg,
         EvLog LInfo ''shut down gracefully'']) @ closing_events"
proof (cases en)
  case (Some x)
  with assms no_database show thesis by (auto simp: api_run_def Let_def)
next
  case None
  have "w_sqldb w = None" using db_New_success [of w cfg devs] assms(2) None by simp
  then show thesis
    using assms None no_schema no_server served
    by (cases em; cases "w_listen w") (auto simp: api_run_def Let_def)
qed

text \<open>C32: The life of the process. The server listens only on a database that was opened, limited and
  pinged before, and only if the schema policy let it start; it listens at most once, on the
  configured port. When it ran to the point of a usable database, the connections are closed
  exactly once, after everything else it does to the database, whether it ends with an error or
  not; and it ends without an error exactly when \<open>Listen\<close> did.\<close>

theorem process_lifecycle:
  assumes "api_run commit w (Inr cfg) = (e, evs)"
  shows "(\<forall>addr grace. EvListen addr grace \<in> set evs \<longrightarrow>
      addr = CHR '':'' # Itoa (Port cfg) \<and> grace = ShutdownGracePeriod cfg \<and>
      before (EvPing 5000000000) (EvListen addr grace) evs \<and> fst (db_New w cfg) = None \<and>
      fst (AutoMigrateIfNeeded w cfg 1) = None) \<and>
    (fst (db_New w cfg) = None \<longrightarrow>
       length (filter (\<lambda>ev. ev = EvClose) evs) = 1 \<and>
       (\<exists>us. evs = us @ [EvClose, EvLog LInfo ''database connections closed''])) \<and>
    (fst (db_New w cfg) \<noteq> None \<longrightarrow> EvClose \<notin> set evs) \<and>
    (e = None \<longleftrightarrow> (\<exists>addr grace. EvListen addr grace \<in> set evs) \<and> w_listen w = None)"
proof -
  let ?start = "[EvLog LInfo ''starting'']"
  obtain en devs where new: "db_New w cfg = (en, devs)" by fastforce
  obtain em mevs where mig: "AutoMigrateIfNeeded w cfg 1 = (em, mevs)" by fastforce
  have dev: "EvClose \<notin> set devs" "\<And>a g. EvListen a g \<notin> set devs"
    and mev: "EvClose \<notin> set mevs" "\<And>a g. EvListen a g \<notin> set mevs"
    using db_New_events [of w cfg] mig new by (auto simp: AutoMigrateIfNeeded_def split: if_splits)
  have none: "filter (\<lambda>ev. ev = EvClose) devs = []" "filter (\<lambda>ev. ev = EvClose) mevs = []"
    using dev(1) mev(1) by (auto simp: filter_empty_conv)
  have ordered: "before (EvPing 5000000000) (listen_event cfg) ((?start @ devs @ mevs) @ vs)" if "en = None" for vs
    using dev mev db_New_success [of w cfg devs] new that by (intro before_prefix) auto
  from assms new mig show ?thesis
  proof (cases rule: api_run_outcomes)
    case no_database
    with dev new show ?thesis by auto
  next
    case no_schema
    with dev mev new mig none show ?thesis by auto
  next
    case no_server
    have "before (EvPing 5000000000) (listen_event cfg) evs"
      using ordered [OF no_server(1)] no_server(5) by simp
    with no_server dev mev new mig none show ?thesis by auto
  next
    case served
    have "before (EvPing 5000000000) (listen_event cfg) evs"
      using ordered [OF served(1)] served(5) by simp
    with served dev mev new mig none show ?thesis by auto
  qed
qed

theorem process_lifecycle_witness:
  "\<exists>e evs. api_run ''abc'' sample_dbworld (Inr prod_config) = (e, evs) \<and>
     length (filter (\<lambda>ev. ev = EvClose) evs) = 1"
proof -
  obtain e evs where run: "api_run ''abc'' sample_dbworld (Inr prod_config) = (e, evs)" by fastforce
  have "fst (db_New sample_dbworld prod_config) = None"
    by (simp add: db_New_def dialector_def sample_dbworld_def prod_config_def config_consts)
  then show ?thesis using process_lifecycle [OF run] run by blast
qed

section \<open>The program\<close>

text \<open>\<open>main\<close>: the exit code and the events.\<close>

definition api_main :: "string \<Rightarrow> dbworld \<Rightarrow> (goerr + Config) \<Rightarrow> nat \<times> db_event list" where
  "api_main commit w load =
     (case api_run commit w load of
        (Some e, evs) \<Rightarrow> (1, evs @ [EvLog LError ''startup failed''])
      | (None, evs) \<Rightarrow> (0, evs))"

lemma dialector_driver:
  assumes "dialector w cfg = (Inr (name, dsn), pre)" and "DBDriver cfg \<in> {DBDriverPostgres, DBDriverMySQL}"
  shows "name \<in> {''postgres'', ''mysql''} \<and> dsn = DBDSN cfg \<and> pre = []"
  using assms by (auto simp: dialector_def split: if_splits)

text \<open>C31: From the environment to the server. The program listens only under a configuration that the
  environment gave and that keeps every rule, on its port, between 1024 and 65535, with a positive
  grace period; in production it has then opened postgres or mysql under the configured DSN, made
  no directory and migrated nothing. It exits with 0 exactly when it listened and \<open>Listen\<close> ended
  well; a configuration that \<open>Load\<close> refuses ends it with 1 before it does anything.\<close>

theorem only_checked_configurations_serve:
  assumes "api_main commit w (Load sprintf env_parse) = (code, evs)"
  shows "(\<forall>addr grace. EvListen addr grace \<in> set evs \<longrightarrow>
      (\<exists>cfg. env_parse = Inr cfg \<and> config_ok cfg \<and> addr = CHR '':'' # Itoa (Port cfg) \<and> 1024 \<le> Port cfg \<and>
         Port cfg \<le> 65535 \<and> grace = ShutdownGracePeriod cfg \<and> 0 < grace \<and>
         (IsProd cfg \<longrightarrow> (\<exists>name \<in> {''postgres'', ''mysql''}. EvOpen name (DBDSN cfg) \<in> set evs) \<and>
            EvMigrate \<notin> set evs \<and> (\<forall>d m. EvMkdir d m \<notin> set evs)))) \<and>
    (code = 0 \<longleftrightarrow> (\<exists>addr grace. EvListen addr grace \<in> set evs) \<and> w_listen w = None) \<and>
    (\<forall>e. Load sprintf env_parse = Inl e \<longrightarrow> code = 1 \<and> evs = [EvLog LError ''startup failed''])"
proof (cases "Load sprintf env_parse")
  case (Inl e)
  then show ?thesis using assms by (auto simp: api_main_def api_run_def)
next
  case (Inr cfg)
  note ok = Load_config_ok [OF Inr]
  have env: "env_parse = Inr cfg"
    by (rule Load_unchanged [OF Inr])
  have bounds: "1024 \<le> Port cfg" "Port cfg \<le> 65535" "0 < ShutdownGracePeriod cfg"
    using ok by (auto simp: config_ok_def server_ok_def)
  obtain e evs0 where run: "api_run commit w (Inr cfg) = (e, evs0)" by fastforce
  have main: "evs = evs0 @ (if e = None then [] else [EvLog LError ''startup failed''])" "code = 0 \<longleftrightarrow> e = None"
    using assms run Inr by (auto simp: api_main_def split: option.splits)
  obtain en devs where new: "db_New w cfg = (en, devs)" by fastforce
  obtain em mevs where mig: "AutoMigrateIfNeeded w cfg 1 = (em, mevs)" by fastforce
  have dev: "\<And>a g. EvListen a g \<notin> set devs" and mev: "\<And>a g. EvListen a g \<notin> set mevs" "\<And>d m. EvMkdir d m \<notin> set mevs"
    using db_New_events [of w cfg] mig new by (auto simp: AutoMigrateIfNeeded_def split: if_splits)
  have prod: "(\<exists>name \<in> {''postgres'', ''mysql''}. EvOpen name (DBDSN cfg) \<in> set devs) \<and> EvMigrate \<notin> set devs \<and>
      (\<forall>d m. EvMkdir d m \<notin> set devs) \<and> EvMigrate \<notin> set mevs" if prod: "IsProd cfg" and opened: "en = None" and migrated: "em = None"
  proof -
    have driver: "DBDriver cfg \<in> {DBDriverPostgres, DBDriverMySQL}"
      using ok prod by (auto simp: config_ok_def database_ok_def)
    obtain name dsn pre where dial: "dialector w cfg = (Inr (name, dsn), pre)"
      using new opened by (auto simp: db_New_def split: prod.splits sum.splits)
    then have "devs = [EvOpen name (DBDSN cfg),
        EvPool (DBMaxOpenConns cfg) (DBMaxIdleConns cfg) (DBConnMaxLifetime cfg), EvPing 5000000000]"
      using new opened dialector_driver [OF dial driver] by (auto simp: db_New_def Let_def split: option.splits)
    moreover have "EvMigrate \<notin> set mevs"
      using mig prod driver by (auto simp: AutoMigrateIfNeeded_def config_consts split: if_splits)
    ultimately show ?thesis using dialector_driver [OF dial driver] by auto
  qed
  from run new mig show ?thesis
    by (cases rule: api_run_outcomes)
      (use main Inr env ok bounds dev mev prod in \<open>auto simp: main(1) simp del: config_ok_def\<close>)
qed

lemma port_0_refused: "\<exists>e. Load sprintf (Inr (prod_config\<lparr>Port := 0\<rparr>)) = Inl e"
proof (cases "Load sprintf (Inr (prod_config\<lparr>Port := 0\<rparr>))")
  case (Inr cfg)
  from Load_unchanged [OF Inr] have "cfg = prod_config\<lparr>Port := 0\<rparr>" by simp
  then show ?thesis using Load_config_ok [OF Inr] by (simp add: config_ok_def server_ok_def)
qed simp

theorem only_checked_configurations_serve_witness:
  "\<exists>evs. api_main ''abc'' sample_dbworld (Load (\<lambda>fmt args. fmt) (Inr (prod_config\<lparr>Port := 0\<rparr>))) = (1, evs) \<and>
     evs = [EvLog LError ''startup failed'']"
proof -
  let ?load = "Load (\<lambda>fmt args. fmt) (Inr (prod_config\<lparr>Port := 0\<rparr>))"
  obtain code evs where run: "api_main ''abc'' sample_dbworld ?load = (code, evs)"
    by (cases "api_main ''abc'' sample_dbworld ?load")
  obtain e where "?load = Inl e" using port_0_refused by blast
  with only_checked_configurations_serve [OF run] have "code = 1 \<and> evs = [EvLog LError ''startup failed'']" by blast
  with run show ?thesis by simp
qed

end
