(* ===== verification/Spec2Isabelle.thy ===== *)
theory Spec2Isabelle
  imports App_Metrics Test_Client App_Invariant Net6_Spec Task_Conc Config_App Api_Cmd Migrate_Cmd
begin

text \<open>
  A verification of \<open>go-fiber-starter\<close>, a REST service in Go on Fiber (HTTP) and GORM (database)
  with a task module, optional JWT authentication, a migration tool and the operational parts
  around them: configuration, metrics, logs, probes.

  \<^bold>\<open>The program and its theories\<close>

  A request runs through the stack that \<open>router.New\<close> builds: seven middlewares, then the probes,
  the login, or, behind the guard, the task handlers. A handler binds the body, calls the service,
  which calls the repository, which calls GORM. Errors travel up as values and are turned into an
  envelope by one error handler; metrics and log observe the request on the way. Paths below are
  relative to \<open>src/\<close>.

  \<^item> \<open>Prelude\<close>: Go's machine types, the rewrite collections, lemmas on signed words and lists.
  \<^item> \<open>Go_Std\<close>: the functions of \<open>strings\<close>, \<open>strconv\<close>, \<open>unicode/utf8\<close> and \<open>crypto/subtle\<close> that the
    program calls, with their characterisations; \<open>Net_Std\<close>: \<open>net.ParseIP\<close> and \<open>net.ParseCIDR\<close>;
    \<open>Net_Spec\<close> and \<open>Net6_Spec\<close>: the trusted proxies against a grammar of IPv4 and IPv6 addresses
    and blocks.
  \<^item> \<open>App_Error\<close>: \<open>internal/apperror/errors.go\<close> over Go's error values, with \<open>errors.Is\<close> and
    \<open>errors.As\<close> as searches of the tree of wrapped errors.
  \<^item> \<open>Paging\<close>: \<open>internal/pagination/pagination.go\<close> on 64-bit words.
  \<^item> \<open>Http\<close>: the records of \<open>internal/modules/task/model.go\<close> and \<open>dto.go\<close>, the envelope of
    \<open>internal/httpx/response.go\<close>, and the part of \<open>fiber.Ctx\<close> in use.
  \<^item> \<open>Task_Repo\<close>: \<open>task/repository.go\<close> and \<open>task/errors.go\<close>; \<open>Task_Service\<close>: \<open>task/service.go\<close>;
    \<open>Task_Handler\<close>: \<open>task/handler.go\<close> and \<open>internal/validator/bind.go\<close>.
  \<^item> \<open>Task_Conc\<close>: calls of the service at the same time. A call is a program of database statements
    (\<open>call_prog\<close>), and \<open>conc_step\<close> is the database that runs the statements of all of them.
  \<^item> \<open>Wire\<close>: the JSON of the bodies by the tags of \<open>task/dto.go\<close> and \<open>httpx/response.go\<close>, and the
    decoding of a patch with \<open>NullableTime.UnmarshalJSON\<close>; \<open>Binding\<close>: \<open>Bind().Body\<close> as decoding
    followed by the struct validator of \<open>internal/validator/validator.go\<close>.
  \<^item> \<open>Config\<close>: \<open>internal/config/config.go\<close>; \<open>Config_App\<close>: the defaults of its tags and the
    \<open>fiber.Config\<close> that \<open>router.New\<close> makes of a configuration.
  \<^item> \<open>Auth\<close>: \<open>internal/modules/auth/\<close> (service, login handler, guard).
  \<^item> \<open>Middleware\<close>: \<open>internal/middleware/\<close> (effective status, metrics, request log, clock).
  \<^item> \<open>Router\<close>: \<open>internal/router/router.go\<close> and \<open>wiring.go\<close>, the \<open>RegisterRoutes\<close> functions of the
    modules, \<open>internal/modules/health/handler.go\<close>; \<open>Router_Libs\<close>: the contracts of fiber's
    middlewares and of its matching of methods and paths.
  \<^item> \<open>Database\<close>: \<open>internal/database/\<close>; \<open>Api_Cmd\<close>: \<open>cmd/api/main.go\<close>; \<open>Migrate_Cmd\<close>:
    \<open>cmd/migrate/main.go\<close> and \<open>db/migrations/embed.go\<close>.
  \<^item> \<open>Sample_Store\<close> and \<open>Sample_Jwt\<close>: a database with soft deletion and injected faults, and a
    token scheme, on which the contracts of the libraries hold and the witnesses compute.
  \<^item> \<open>Auth_Spec\<close>, \<open>Router_Spec\<close>, \<open>Task_Spec\<close>: the statements that span components.
  \<^item> \<open>App_Serve\<close>, \<open>App_Metrics\<close>, \<open>App_Login\<close>: requests, their metrics, and logins with the requests
    after them, through the whole stack of \<open>router.New\<close>; \<open>App_Invariant\<close>: the invariants of the
    tasks under any sequence of requests to it.
  \<^item> \<open>Test_Client\<close>: \<open>internal/testutil/testutil.go\<close>, the client that the API tests use.

  \<^bold>\<open>How the code is represented\<close>

  Go functions become HOL functions with their names, or with a prefix for the package where two
  packages use one name (\<open>svc_Create\<close>, \<open>task_Create\<close>, \<open>repo_Create\<close>). A method that may fail returns
  a sum with the error on the left, or an optional error; whatever it changes is returned. The
  \<open>gorm.DB\<close> handle, a mutable object, is a state that is passed through. A handler maps a context
  and a state to an optional error, a context and a state; a middleware maps handlers to handlers,
  so that \<open>c.Next()\<close> is the call of the argument. Go's \<open>int\<close> and \<open>uint\<close> are 64-bit words in the
  paging arithmetic, in ids and in number parsing, where wrap-around and ranges matter;
  configuration values, status codes and times are integers, since the code only compares them
  or adds durations to times. The time is nanoseconds. Strings are byte strings.

  Loops of the code are structural recursions. The exceptions are scans of the standard library:
  \<open>RuneCountInString\<close>, \<open>ToLower\<close>, the folding of JSON names and the groups of IPv6, which consume
  input (their termination measure is its length), and \<open>trim_runes\<close>, whose fuel is the length of the string; every round removes at
  least one byte, so it never runs out.

  \<^bold>\<open>Libraries as contracts\<close>

  Code outside the repository is a parameter, and what is relied on is a locale:

  \<^item> \<open>gorm_contract\<close> (in \<open>Task_Repo\<close>): what GORM's calls do to the rows that are not
    soft-deleted; failing statements and rolled back transactions change nothing. A row is not the
    struct that was written: the time columns of \<open>db/migrations\<close> keep seconds (mysql) or microseconds
    (postgres), so the contract has a rounding \<open>col\<close> that moves a time by less than a second, and rows
    hold \<open>stored_as col\<close> of the struct. Answers to a write show the struct, later reads the row.
  \<^item> \<open>bind_contract\<close> (in \<open>Task_Handler\<close>): a bound request obeys its \<open>validate\<close> tags.
  \<^item> \<open>jwt_contract\<close> (in \<open>Auth\<close>): a token parses exactly if an accepted method and the key signed
    it and its times are right.
  \<^item> \<open>libs_contract\<close> (in \<open>Router_Libs\<close>): fiber's own middlewares hand the request on or answer
    it, and do not touch the store.
  \<^item> \<open>libs_passing\<close>, an extension: what lets a request through. A limiter steps aside where its
    \<open>Next\<close> says so, a route takes the requests whose method and path it names.
  \<^item> \<open>fiber_json_contract\<close> (in \<open>Binding\<close>): the validator reports exactly the violated tags; with it
    the binding by JSON keeps \<open>bind_contract\<close>, which is a sublocale.

  Each is interpreted on the sample instances. Inside the program, \<open>task_repository\<close> and
  \<open>task_listing\<close> are the interface \<open>Repository\<close> that the service consumes: the service is
  verified in that locale, and a sublocale shows that \<open>gormRepository\<close> keeps it over every GORM
  that keeps its own contract.

  \<^bold>\<open>What is shown\<close>

  \<^item> Tasks: the service refines a map from ids to tasks (\<open>task_spec\<close>); the answer of every
    endpoint, error outcomes included; that a request changes one row at most and none when it
    is answered with an error; that created tasks read back and deleted ones are gone; that
    valid titles are an invariant of all reachable databases, whatever is sent to the app, by
    whom and to which path.
  \<^item> Concurrency: with row locks, any interleaving of any calls gives the answers and the rows of
    the calls made one after the other, by \<open>task_spec\<close>. A listing counts and reads in two
    statements, with others in between: its page and its total are those of the rows at the
    one and at the other. On sqlite, where \<open>applyRowLock\<close> asks for no lock, an update can be lost as far
    as the code goes.
  \<^item> Authentication: the guard lets in exactly the valid tokens; a login token opens it until
    it expires; with authentication on, no request to the app changes the store without one.
  \<^item> Errors and observation: the identity of errors under wrapping, masking of internal errors,
    the documented status codes, agreement of log, metrics and response.
  \<^item> The whole app: a request that the limiters let pass and that carries what the guard wants is
    answered as by its handler alone, to which the statements on tasks apply; the probes answer
    under any load; both metrics have finitely many route labels, whatever the clients send; every
    login body has its answer, and a request with the token of a login is never refused for it when
    it is answered a second before the expiry; the test client reads exactly what the handlers sent.
  \<^item> JSON: the shape of the answers by status; what a patch body does to a row, with absent,
    \<open>null\<close> and repeated members; what is answered and stored for every creation body.
  \<^item> Paging: the pages partition the rows; a page number so large that the offset wraps does not.
  \<^item> Numbers and addresses: the exact languages of ids, of paging parameters, and of the
    trusted proxies.
  \<^item> Configuration and processes: \<open>Load\<close> accepts exactly the valid configurations; what
    production excludes; the defaults; the bounds a running server has on bodies and times;
    opening of the database, schema policy, life of the server process, which serves only under a
    checked configuration; one action per run of the migration tool.

  \<^bold>\<open>What is not modelled\<close>

  The scanning of JSON, the text of string literals and of times, and the validation library
  (parameters; what the tags ask of a request is modelled); the sliding window of the rate limiter (a
  library middleware; its answer and what it skips are modelled); SQL and the migration files;
  the metrics of the Go runtime and what Prometheus makes of the buckets; the recovery of
  panics, which is fiber's; the texts that \<open>fmt.Sprintf\<close> makes of \<open>%q\<close> (a parameter).
  \<open>api/embed.go\<close> has no code. What golang-migrate does to the versions of a schema is the library's;
  the tool is modelled up to the one call it makes of it. In the concurrent runs, waiting for a row
  and the atomicity of a commit are the database's and are written into \<open>conc_step\<close>, which stands for
  no code of the program; what sqlite does with concurrent writers is left out.
\<close>

end
